(* ===== verification/Prelude.thy ===== *)
theory Prelude
  imports Main "HOL-Library.Char_ord" "HOL-Library.AList"
begin

text \<open>
  Shared vocabulary of the model of \<open>build_support/cpplint.py\<close>: the operations of Python's
  \<open>str\<close>, \<open>list\<close> and \<open>int\<close> that the linter uses, Python's exceptions as values, and the
  generic lemmas about them that the components share.

  A Python \<open>str\<close> is a \<^typ>\<open>string\<close>, that is a list of characters with code points below 256
  (Latin-1).  Every operation below agrees with Python 3 on such strings, including the
  characters that count as white space.  Lists indexed by an \<open>int\<close> are read through
  \<open>py_nth\<close>, which raises outside the range as Python does.
\<close>

named_theorems py_str \<open>equations of the string operations that proofs unfold\<close>

section \<open>Exceptions as values\<close>

datatype py_exn =
    IndexError
  | KeyError
  | AttributeError
  | ValueError string
  | AssertionError
  | TypeError
  | SystemExit string
  | Diverges

type_synonym 'a py = "py_exn + 'a"

fun py_bind :: "'a py \<Rightarrow> ('a \<Rightarrow> 'b py) \<Rightarrow> 'b py" where
  "py_bind (Inl e) f = Inl e"
| "py_bind (Inr x) f = f x"

lemma py_bind_eq_Inr: "py_bind m f = Inr y \<longleftrightarrow> (\<exists>x. m = Inr x \<and> f x = Inr y)"
  by (cases m) auto

lemma py_bind_eq_Inl: "py_bind m f = Inl e \<longleftrightarrow> m = Inl e \<or> (\<exists>x. m = Inr x \<and> f x = Inl e)"
  by (cases m) auto

text \<open>Statements in sequence, and a statement under a condition.\<close>

fun py_seq :: "('s \<Rightarrow> 's py) list \<Rightarrow> 's \<Rightarrow> 's py" where
  "py_seq [] s = Inr s"
| "py_seq (a # as) s = py_bind (a s) (py_seq as)"

definition py_when :: "bool \<Rightarrow> ('s \<Rightarrow> 's py) \<Rightarrow> 's \<Rightarrow> 's py" where
  "py_when b a s = (if b then a s else Inr s)"

lemma py_when_simps [simp]: "py_when True a s = a s" "py_when False a s = Inr s"
  by (simp_all add: py_when_def)

text \<open>
  The \<open>error\<close> callback that every check receives: file name, line number (\<open>None\<close> where the
  code passes Python's \<open>None\<close>), category, confidence and message.  \<open>record_error\<close> is the
  callback that only records its calls.
\<close>

type_synonym lineno = "int option"

type_synonym 's error_fn = "string \<Rightarrow> lineno \<Rightarrow> string \<Rightarrow> int \<Rightarrow> string \<Rightarrow> 's \<Rightarrow> 's py"

type_synonym report = "string \<times> lineno \<times> string \<times> int \<times> string"

definition record_error :: "report list error_fn" where
  "record_error filename linenum category confidence message log =
     Inr (log @ [(filename, linenum, category, confidence, message)])"

fun py_fold :: "('a \<Rightarrow> 's \<Rightarrow> 's py) \<Rightarrow> 'a list \<Rightarrow> 's \<Rightarrow> 's py" where
  "py_fold f [] s = Inr s"
| "py_fold f (x # xs) s = py_bind (f x s) (py_fold f xs)"

fun py_map :: "('a \<Rightarrow> 'b py) \<Rightarrow> 'a list \<Rightarrow> 'b list py" where
  "py_map f [] = Inr []"
| "py_map f (x # xs) = py_bind (f x) (\<lambda>y. py_bind (py_map f xs) (\<lambda>ys. Inr (y # ys)))"

lemma py_map_total:
  "(\<And>x. x \<in> set xs \<Longrightarrow> \<exists>y. f x = Inr y) \<Longrightarrow> \<exists>ys. py_map f xs = Inr ys \<and> length ys = length xs"
proof (induction xs)
  case Nil
  then show ?case by simp
next
  case (Cons x xs)
  obtain y where "f x = Inr y" using Cons.prems[of x] by auto
  moreover obtain ys where "py_map f xs = Inr ys" "length ys = length xs" using Cons by auto
  ultimately show ?case by simp
qed

text \<open>\<open>xs[i]\<close> with Python's negative indices.\<close>

definition py_nth :: "'a list \<Rightarrow> int \<Rightarrow> 'a py" where
  "py_nth xs i =
     (let j = (if i < 0 then int (length xs) + i else i)
      in if 0 \<le> j \<and> j < int (length xs) then Inr (xs ! nat j) else Inl IndexError)"

lemma py_nth_in_range: "0 \<le> i \<Longrightarrow> i < int (length xs) \<Longrightarrow> py_nth xs i = Inr (xs ! nat i)"
  by (simp add: py_nth_def)

lemma py_nth_of_nat [simp]: "n < length xs \<Longrightarrow> py_nth xs (int n) = Inr (xs ! n)"
  by (simp add: py_nth_def)

lemma py_nth_beyond: "int (length xs) \<le> i \<Longrightarrow> py_nth xs i = Inl IndexError"
  by (simp add: py_nth_def)

lemma py_nth_in_set: "py_nth xs i = Inr x \<Longrightarrow> x \<in> set xs"
  by (auto simp: py_nth_def Let_def split: if_splits)

text \<open>Slices: \<open>xs[i:]\<close>, \<open>xs[:j]\<close> and \<open>xs[i:j]\<close>, with out-of-range bounds clamped.\<close>

definition py_clamp :: "nat \<Rightarrow> int \<Rightarrow> nat" where
  "py_clamp n i = (if i < 0 then nat (int n + i) else min n (nat i))"

definition py_from :: "'a list \<Rightarrow> int \<Rightarrow> 'a list" where
  "py_from xs i = drop (py_clamp (length xs) i) xs"

definition py_upto :: "'a list \<Rightarrow> int \<Rightarrow> 'a list" where
  "py_upto xs j = take (py_clamp (length xs) j) xs"

definition py_slice :: "'a list \<Rightarrow> int \<Rightarrow> int \<Rightarrow> 'a list" where
  "py_slice xs i j =
     (let a = py_clamp (length xs) i; b = py_clamp (length xs) j in take (b - a) (drop a xs))"

lemma py_from_nat [simp]: "py_from xs (int n) = drop n xs"
  by (cases "n \<le> length xs") (simp_all add: py_from_def py_clamp_def min_def)

lemma py_upto_nat [simp]: "py_upto xs (int n) = take n xs"
  by (cases "n \<le> length xs") (simp_all add: py_upto_def py_clamp_def min_def)

lemma py_from_nonneg: "0 \<le> i \<Longrightarrow> py_from xs i = drop (nat i) xs"
  by (metis int_nat_eq py_from_nat)

lemma py_upto_nonneg: "0 \<le> i \<Longrightarrow> py_upto xs i = take (nat i) xs"
  by (metis int_nat_eq py_upto_nat)

lemma py_from_length: "length (py_from xs i) \<le> length xs"
  by (simp add: py_from_def)

lemma py_clamp_le: "py_clamp n i \<le> n"
  by (auto simp: py_clamp_def)

section \<open>Characters\<close>

abbreviation char_code :: "char \<Rightarrow> int" where
  "char_code \<equiv> of_char"

abbreviation newline_char :: char where
  "newline_char \<equiv> CHR 0x0A"

abbreviation backslash_char :: char where
  "backslash_char \<equiv> CHR 0x5C"

text \<open>\<open>str.isspace\<close> and the \<open>\s\<close> of \<open>re\<close>, for the code points below 256.\<close>

definition is_space :: "char \<Rightarrow> bool" where
  "is_space c =
     (let n = char_code c
      in 9 \<le> n \<and> n \<le> 13 \<or> 28 \<le> n \<and> n \<le> 32 \<or> n = 133 \<or> n = 160)"

definition is_digit :: "char \<Rightarrow> bool" where
  "is_digit c = (let n = char_code c in 48 \<le> n \<and> n \<le> 57)"

definition is_upper :: "char \<Rightarrow> bool" where
  "is_upper c = (let n = char_code c in 65 \<le> n \<and> n \<le> 90)"

definition is_lower :: "char \<Rightarrow> bool" where
  "is_lower c = (let n = char_code c in 97 \<le> n \<and> n \<le> 122)"

text \<open>The \<open>\w\<close> of \<open>re\<close>: letters, digits, the underscore, and the alphanumeric Latin-1 characters.\<close>

definition is_word :: "char \<Rightarrow> bool" where
  "is_word c =
     (let n = char_code c
      in is_digit c \<or> is_upper c \<or> is_lower c \<or> n = 95 \<or>
         n \<in> {170, 178, 179, 181, 185, 186, 188, 189, 190} \<or>
         192 \<le> n \<and> n \<noteq> 215 \<and> n \<noteq> 247)"

text \<open>\<open>str.isdigit\<close>, which also holds for the superscripts one, two and three.\<close>

definition py_isdigit :: "string \<Rightarrow> bool" where
  "py_isdigit s = (s \<noteq> [] \<and> list_all (\<lambda>c. is_digit c \<or> char_code c \<in> {178, 179, 185 :: int}) s)"

text \<open>Membership in \<open>string.whitespace\<close>, the ASCII white space.\<close>

definition in_whitespace :: "char \<Rightarrow> bool" where
  "in_whitespace c = (let n = char_code c in 9 \<le> n \<and> n \<le> 13 \<or> n = 32)"

text \<open>\<open>str.lower\<close>; below 256 every lower-case counterpart is below 256 too.\<close>

definition lower_char :: "char \<Rightarrow> char" where
  "lower_char c =
     (let n = char_code c
      in if 65 \<le> n \<and> n \<le> 90 \<or> 192 \<le> n \<and> n \<le> 222 \<and> n \<noteq> 215
         then char_of (n + 32) else c)"

definition py_lower :: "string \<Rightarrow> string" where
  "py_lower s = map lower_char s"

text \<open>\<open>str.upper\<close> of an ASCII character (the linter upper-cases ASCII text only).\<close>

definition upper_char :: "char \<Rightarrow> char" where
  "upper_char c = (if is_lower c then char_of (char_code c - 32) else c)"

definition py_upper :: "string \<Rightarrow> string" where
  "py_upper s = map upper_char s"

section \<open>Searching and replacing\<close>

fun startswith :: "'a list \<Rightarrow> 'a list \<Rightarrow> bool" where
  "startswith s [] = True"
| "startswith [] (p # ps) = False"
| "startswith (c # s) (p # ps) = (c = p \<and> startswith s ps)"

definition endswith :: "'a list \<Rightarrow> 'a list \<Rightarrow> bool" where
  "endswith s p = startswith (rev s) (rev p)"

lemma startswith_iff: "startswith s p \<longleftrightarrow> (\<exists>t. s = p @ t)"
  by (induction s p rule: startswith.induct) auto

lemma startswith_append [simp]: "startswith (p @ t) p"
  by (auto simp: startswith_iff)

lemma startswith_length: "startswith s p \<Longrightarrow> length p \<le> length s"
  by (auto simp: startswith_iff)

lemma startswith_drop: "startswith s p \<Longrightarrow> s = p @ drop (length p) s"
  by (auto simp: startswith_iff)

lemma endswith_iff: "endswith s p \<longleftrightarrow> (\<exists>t. s = t @ p)"
  unfolding endswith_def startswith_iff
  by (metis rev_append rev_rev_ident)

lemma endswith_append [simp]: "endswith (t @ p) p"
  by (auto simp: endswith_iff)

text \<open>\<open>s.find(sub)\<close>: the index of the first occurrence, or -1.\<close>

fun find_at :: "'a list \<Rightarrow> 'a list \<Rightarrow> int \<Rightarrow> int" where
  "find_at [] sub i = (if sub = [] then i else -1)"
| "find_at (c # s) sub i = (if startswith (c # s) sub then i else find_at s sub (i + 1))"

definition py_find :: "'a list \<Rightarrow> 'a list \<Rightarrow> int" where
  "py_find s sub = find_at s sub 0"

text \<open>\<open>s.find(sub, start)\<close> for a start that is not negative.\<close>

definition py_find_from :: "'a list \<Rightarrow> 'a list \<Rightarrow> nat \<Rightarrow> int" where
  "py_find_from s sub start =
     (if length s < start then -1 else find_at (drop start s) sub (int start))"

text \<open>\<open>s.rfind(sub)\<close>: the index of the last occurrence, or -1.\<close>

definition py_rfind :: "'a list \<Rightarrow> 'a list \<Rightarrow> int" where
  "py_rfind s sub =
     (let i = py_find (rev s) (rev sub)
      in if i < 0 then -1 else int (length s) - int (length sub) - i)"

definition py_in :: "'a list \<Rightarrow> 'a list \<Rightarrow> bool" where
  "py_in sub s = (py_find s sub \<ge> 0)"

lemma find_at_cases:
  "find_at s sub i = -1 \<and> (\<forall>a b. s \<noteq> a @ sub @ b) \<or>
   (\<exists>a b. s = a @ sub @ b \<and> find_at s sub i = i + int (length a) \<and>
          (\<forall>a' b'. s = a' @ sub @ b' \<longrightarrow> length a \<le> length a'))"
proof (induction s sub i rule: find_at.induct)
  case (1 sub i)
  then show ?case by auto
next
  case (2 c s sub i)
  show ?case
  proof (cases "startswith (c # s) sub")
    case True
    then obtain t where "c # s = [] @ sub @ t" by (auto simp: startswith_iff)
    moreover have "find_at (c # s) sub i = i + int (length [])" using True by simp
    ultimately show ?thesis by (metis le0 list.size(3))
  next
    case False
    then have no: "\<And>b. c # s \<noteq> sub @ b" by (auto simp: startswith_iff)
    from "2.IH"[OF False] show ?thesis
    proof (elim disjE exE conjE)
      assume f: "find_at s sub (i + 1) = -1" and n: "\<forall>a b. s \<noteq> a @ sub @ b"
      have "c # s \<noteq> a @ sub @ b" for a b
        using no n by (cases a) auto
      with f False show ?thesis by simp
    next
      fix a b
      assume s: "s = a @ sub @ b" and f: "find_at s sub (i + 1) = i + 1 + int (length a)"
        and m: "\<forall>a' b'. s = a' @ sub @ b' \<longrightarrow> length a \<le> length a'"
      have "length (c # a) \<le> length a'" if "c # s = a' @ sub @ b'" for a' b'
        using no m that by (cases a') auto
      moreover have "c # s = (c # a) @ sub @ b" using s by simp
      ultimately show ?thesis using f False
        by (intro disjI2 exI[of _ "c # a"] exI[of _ b]) auto
    qed
  qed
qed

lemma py_find_cases:
  obtains (absent) "py_find s sub = -1" and "\<And>a b. s \<noteq> a @ sub @ b"
  | (found) a b where "s = a @ sub @ b" and "py_find s sub = int (length a)"
      and "\<And>a' b'. s = a' @ sub @ b' \<Longrightarrow> length a \<le> length a'"
  using find_at_cases[of s sub 0] by (auto simp: py_find_def)

lemma py_find_nonneg_iff: "0 \<le> py_find s sub \<longleftrightarrow> (\<exists>a b. s = a @ sub @ b)"
  by (cases s sub rule: py_find_cases) auto

lemma py_find_ge: "-1 \<le> py_find s sub"
  by (cases s sub rule: py_find_cases) auto

lemma py_find_neg: "py_find s sub < 0 \<longleftrightarrow> py_find s sub = -1"
  by (cases s sub rule: py_find_cases) auto

lemma py_find_split:
  "0 \<le> py_find s sub \<Longrightarrow>
   s = take (nat (py_find s sub)) s @ sub @ drop (nat (py_find s sub) + length sub) s"
  by (cases s sub rule: py_find_cases) auto

lemma py_find_bound: "0 \<le> py_find s sub \<Longrightarrow> py_find s sub + int (length sub) \<le> int (length s)"
  by (cases s sub rule: py_find_cases) auto

lemma split_at_first:
  assumes "a @ x # b = c @ y # d" and "P x" and "P y" and "\<forall>z \<in> set a. \<not> P z" and "\<forall>z \<in> set c. \<not> P z"
  shows "a = c \<and> x = y \<and> b = d"
  using assms by (auto simp: append_eq_append_conv2 append_eq_Cons_conv Cons_eq_append_conv)

lemma py_find_char:
  assumes "c \<notin> set a"
  shows "py_find (a @ c # b) [c] = int (length a)"
proof (cases "a @ c # b" "[c]" rule: py_find_cases)
  case absent
  then show ?thesis by (metis append_Cons append_Nil)
next
  case (found a' b')
  have "\<not> length a' < length a"
  proof
    assume l: "length a' < length a"
    have "(a @ c # b) ! length a' = c" using found(1) by simp
    then have "a ! length a' = c" using l by (simp add: nth_append)
    with l assms show False by (metis nth_mem)
  qed
  with found(3)[of a b] have "length a' = length a" by simp
  with found(2) show ?thesis by simp
qed

lemma py_in_iff: "py_in sub s \<longleftrightarrow> (\<exists>a b. s = a @ sub @ b)"
  by (simp add: py_in_def py_find_nonneg_iff)

text \<open>
  \<open>s.count(sub)\<close> and \<open>s.replace(old, new)\<close> scan from the left and do not let
  occurrences overlap; the last argument counts the characters of an occurrence that are
  still to be skipped.  The linter never passes an empty \<open>sub\<close>.
\<close>

fun count_skip :: "'a list \<Rightarrow> 'a list \<Rightarrow> nat \<Rightarrow> nat" where
  "count_skip [] sub k = 0"
| "count_skip (c # s) sub (Suc k) = count_skip s sub k"
| "count_skip (c # s) sub 0 =
     (if startswith (c # s) sub then Suc (count_skip s sub (length sub - 1))
      else count_skip s sub 0)"

definition py_count :: "'a list \<Rightarrow> 'a list \<Rightarrow> int" where
  "py_count s sub = int (count_skip s sub 0)"

fun replace_skip :: "'a list \<Rightarrow> 'a list \<Rightarrow> 'a list \<Rightarrow> nat \<Rightarrow> 'a list" where
  "replace_skip [] old new k = []"
| "replace_skip (c # s) old new (Suc k) = replace_skip s old new k"
| "replace_skip (c # s) old new 0 =
     (if startswith (c # s) old then new @ replace_skip s old new (length old - 1)
      else c # replace_skip s old new 0)"

definition py_replace :: "'a list \<Rightarrow> 'a list \<Rightarrow> 'a list \<Rightarrow> 'a list" where
  "py_replace s old new = replace_skip s old new 0"

lemma py_count_char: "py_count s [c] = int (count_list s c)"
proof -
  have "count_skip s [c] 0 = count_list s c"
    by (induction s) auto
  then show ?thesis by (simp add: py_count_def)
qed

lemma py_count_nonneg [simp]: "0 \<le> py_count s sub"
  by (simp add: py_count_def)

lemma py_replace_char: "py_replace s [a] [b] = map (\<lambda>c. if c = a then b else c) s"
proof -
  have "replace_skip s [a] [b] 0 = map (\<lambda>c. if c = a then b else c) s"
    by (induction s) auto
  then show ?thesis by (simp add: py_replace_def)
qed

lemma py_find_from_bound:
  "0 \<le> py_find_from s sub n \<Longrightarrow> py_find_from s sub n + int (length sub) \<le> int (length s)"
proof -
  assume a: "0 \<le> py_find_from s sub n"
  then have n: "n \<le> length s" "py_find_from s sub n = find_at (drop n s) sub (int n)"
    by (auto simp: py_find_from_def split: if_splits)
  with find_at_cases[of "drop n s" sub "int n"] a obtain u v where
    "drop n s = u @ sub @ v" "find_at (drop n s) sub (int n) = int n + int (length u)" by auto
  moreover from this(1) have "length s - n = length u + length sub + length v"
    by (metis add.assoc length_append length_drop)
  ultimately show ?thesis using n by simp
qed

lemma py_rfind_bounds:
  assumes "sub \<noteq> []" and "s \<noteq> []"
  shows "-1 \<le> py_rfind s sub" and "py_rfind s sub < int (length s)"
proof -
  have "0 < length sub" "0 < length s" using assms by auto
  then show "-1 \<le> py_rfind s sub" "py_rfind s sub < int (length s)"
    using py_find_bound[of "rev s" "rev sub"] by (auto simp: py_rfind_def Let_def simp del: length_greater_0_conv)
qed

lemma py_find_char_bounds: "c \<in> set s \<Longrightarrow> 0 \<le> py_find s [c] \<and> py_find s [c] < int (length s)"
  using py_find_bound[of s "[c]"] py_find_nonneg_iff[of s "[c]"] by (auto simp: in_set_conv_decomp)

lemma py_nth_minus_one: "xs \<noteq> [] \<Longrightarrow> -1 \<le> i \<Longrightarrow> i < int (length xs) \<Longrightarrow> \<exists>x. py_nth xs i = Inr x"
  by (cases xs) (auto simp: py_nth_def Let_def)

lemma py_from_index: "0 \<le> e \<Longrightarrow> 0 \<le> x \<Longrightarrow> x < int (length (py_from s e)) \<Longrightarrow> x + e < int (length s)"
  by (simp add: py_from_nonneg)

section \<open>White space, splitting and joining\<close>

definition py_lstrip :: "string \<Rightarrow> string" where
  "py_lstrip s = dropWhile is_space s"

definition py_rstrip :: "string \<Rightarrow> string" where
  "py_rstrip s = rev (dropWhile is_space (rev s))"

definition py_strip :: "string \<Rightarrow> string" where
  "py_strip s = py_rstrip (py_lstrip s)"

definition py_isspace :: "string \<Rightarrow> bool" where
  "py_isspace s = (s \<noteq> [] \<and> list_all is_space s)"

text \<open>\<open>s.lstrip(chars)\<close>, \<open>s.rstrip(chars)\<close> and \<open>s.strip(chars)\<close>.\<close>

definition py_lstrip_chars :: "string \<Rightarrow> string \<Rightarrow> string" where
  "py_lstrip_chars s cs = dropWhile (\<lambda>c. c \<in> set cs) s"

definition py_rstrip_chars :: "string \<Rightarrow> string \<Rightarrow> string" where
  "py_rstrip_chars s cs = rev (dropWhile (\<lambda>c. c \<in> set cs) (rev s))"

definition py_strip_chars :: "string \<Rightarrow> string \<Rightarrow> string" where
  "py_strip_chars s cs = py_rstrip_chars (py_lstrip_chars s cs) cs"

text \<open>\<open>s.split(sep)\<close> for a non-empty separator: always at least one piece.\<close>

fun split_skip :: "'a list \<Rightarrow> 'a list \<Rightarrow> 'a list \<Rightarrow> nat \<Rightarrow> 'a list list" where
  "split_skip [] sep acc k = [rev acc]"
| "split_skip (c # s) sep acc (Suc k) = split_skip s sep acc k"
| "split_skip (c # s) sep acc 0 =
     (if startswith (c # s) sep then rev acc # split_skip s sep [] (length sep - 1)
      else split_skip s sep (c # acc) 0)"

definition py_split :: "'a list \<Rightarrow> 'a list \<Rightarrow> 'a list list" where
  "py_split s sep = split_skip s sep [] 0"

lemma split_skip_nonempty [simp]: "split_skip s sep acc k \<noteq> []"
  by (induction s sep acc k rule: split_skip.induct) auto

lemma py_split_nonempty [simp]: "py_split s sep \<noteq> []"
  by (simp add: py_split_def)

text \<open>\<open>s.split()\<close>: the maximal runs of characters that are not white space.\<close>

fun words_acc :: "string \<Rightarrow> string \<Rightarrow> string list" where
  "words_acc [] acc = (if acc = [] then [] else [rev acc])"
| "words_acc (c # s) acc =
     (if is_space c then (if acc = [] then words_acc s [] else rev acc # words_acc s [])
      else words_acc s (c # acc))"

definition py_words :: "string \<Rightarrow> string list" where
  "py_words s = words_acc s []"

text \<open>\<open>sep.join(xs)\<close>.\<close>

fun py_join :: "'a list \<Rightarrow> 'a list list \<Rightarrow> 'a list" where
  "py_join sep [] = []"
| "py_join sep [x] = x"
| "py_join sep (x # y # xs) = x @ sep @ py_join sep (y # xs)"

lemma split_skip_char_Cons:
  "split_skip (x # xs) [c] acc 0 =
     (if x = c then rev acc # split_skip xs [c] [] 0 else split_skip xs [c] (x # acc) 0)"
  by auto

lemma py_join_split_char: "py_join [c] (split_skip s [c] acc 0) = rev acc @ s"
proof (induction s arbitrary: acc)
  case Nil
  then show ?case by simp
next
  case (Cons x xs)
  obtain y ys where y: "split_skip xs [c] [] 0 = y # ys"
    by (metis neq_Nil_conv split_skip_nonempty)
  show ?case
    using Cons.IH[of "[]"] Cons.IH[of "x # acc"] y by (auto simp: split_skip_char_Cons)
qed

text \<open>Splitting at a character and joining with it again gives the string back.\<close>

lemma py_join_py_split: "py_join [c] (py_split s [c]) = s"
  by (simp add: py_split_def py_join_split_char)

lemma set_split_skip_char: "t \<in> set (split_skip s [c] acc 0) \<Longrightarrow> c \<notin> set acc \<Longrightarrow> c \<notin> set t"
proof (induction s arbitrary: acc)
  case Nil
  then show ?case by simp
next
  case (Cons x xs)
  show ?case
  proof (cases "x = c")
    case True
    with Cons.prems have "t = rev acc \<or> t \<in> set (split_skip xs [c] [] 0)"
      by (simp add: split_skip_char_Cons)
    with Cons.IH[of "[]"] Cons.prems(2) show ?thesis by auto
  next
    case False
    with Cons.prems Cons.IH[of "x # acc"] show ?thesis
      by (simp add: split_skip_char_Cons)
  qed
qed

lemma py_split_no_sep: "t \<in> set (py_split s [c]) \<Longrightarrow> c \<notin> set t"
  by (auto simp: py_split_def dest: set_split_skip_char)

section \<open>Numbers\<close>

text \<open>\<open>'%d' % n\<close>.\<close>

definition digit_char :: "nat \<Rightarrow> char" where
  "digit_char n = char_of (48 + n)"

fun show_nat :: "nat \<Rightarrow> string" where
  "show_nat n = (if n < 10 then [digit_char n] else show_nat (n div 10) @ [digit_char (n mod 10)])"

declare show_nat.simps [simp del]

definition show_int :: "int \<Rightarrow> string" where
  "show_int i = (if i < 0 then ''-'' @ show_nat (nat (- i)) else show_nat (nat i))"

text \<open>\<open>range(a, b)\<close> for two integers.\<close>

definition py_range :: "int \<Rightarrow> int \<Rightarrow> int list" where
  "py_range a b = map (\<lambda>k. a + int k) [0..<nat (b - a)]"

lemma set_py_range: "i \<in> set (py_range a b) \<longleftrightarrow> a \<le> i \<and> i < b"
proof
  assume "i \<in> set (py_range a b)"
  then show "a \<le> i \<and> i < b" by (auto simp: py_range_def)
next
  assume h: "a \<le> i \<and> i < b"
  then have "i = a + int (nat (i - a))" "nat (i - a) \<in> {0..<nat (b - a)}" by auto
  then show "i \<in> set (py_range a b)"
    unfolding py_range_def set_map set_upt by (rule image_eqI)
qed

text \<open>\<open>range(a, b, -1)\<close>: from \<open>a\<close> down to, and without, \<open>b\<close>.\<close>

definition py_range_down :: "int \<Rightarrow> int \<Rightarrow> int list" where
  "py_range_down a b = map (\<lambda>k. a - int k) [0..<nat (a - b)]"

lemma set_py_range_down: "i \<in> set (py_range_down a b) \<longleftrightarrow> b < i \<and> i \<le> a"
proof
  assume "i \<in> set (py_range_down a b)"
  then show "b < i \<and> i \<le> a" by (auto simp: py_range_down_def)
next
  assume h: "b < i \<and> i \<le> a"
  then have "i = a - int (nat (a - i))" "nat (a - i) \<in> {0..<nat (a - b)}" by auto
  then show "i \<in> set (py_range_down a b)"
    unfolding py_range_down_def set_map set_upt by (rule image_eqI)
qed

text \<open>
  A loop over the indices of a list that stops at the first element with a property:
  the index, or \<open>None\<close> when the loop runs to its end.
\<close>

fun py_find_index :: "('a \<Rightarrow> bool) \<Rightarrow> 'a list \<Rightarrow> int list \<Rightarrow> int option py" where
  "py_find_index P xs [] = Inr None"
| "py_find_index P xs (i # is) =
     py_bind (py_nth xs i) (\<lambda>x. if P x then Inr (Some i) else py_find_index P xs is)"

lemma py_find_index_in_range:
  "(\<And>i. i \<in> set is \<Longrightarrow> 0 \<le> i \<and> i < int (length xs)) \<Longrightarrow>
   py_find_index P xs is = Inr (find (\<lambda>i. P (xs ! nat i)) is)"
  by (induction "is") (auto simp: py_nth_in_range)

text \<open>Counting through an enumerated list: \<open>enumerate(xs)\<close> with \<open>int\<close> indices.\<close>

definition py_enumerate :: "'a list \<Rightarrow> (int \<times> 'a) list" where
  "py_enumerate xs = map (\<lambda>(n, x). (int n, x)) (enumerate 0 xs)"

end
