(* ===== verification/Tables.thy ===== *)
theory Tables
  imports Prelude
begin

text \<open>
  The constant tables of \<open>cpplint.py\<close>: the error categories, the default filters, the names
  of the standard C++ headers, and the header kinds and sections of the include-order check.
\<close>

definition ERROR_CATEGORIES :: "string list" where
  "ERROR_CATEGORIES =
    [''build/class'', ''build/c++11'', ''build/c++14'', ''build/c++tr1'', ''build/deprecated'',
     ''build/endif_comment'', ''build/explicit_make_pair'', ''build/forward_decl'',
     ''build/header_guard'', ''build/include'', ''build/include_subdir'',
     ''build/include_alpha'', ''build/include_order'', ''build/include_what_you_use'',
     ''build/namespaces_literals'', ''build/namespaces'', ''build/printf_format'',
     ''build/storage_class'', ''legal/copyright'', ''readability/alt_tokens'',
     ''readability/braces'', ''readability/casting'', ''readability/check'',
     ''readability/constructors'', ''readability/fn_size'', ''readability/inheritance'',
     ''readability/multiline_comment'', ''readability/multiline_string'',
     ''readability/namespace'', ''readability/nolint'', ''readability/nul'',
     ''readability/strings'', ''readability/todo'', ''readability/utf8'', ''runtime/arrays'',
     ''runtime/casting'', ''runtime/explicit'', ''runtime/int'', ''runtime/init'',
     ''runtime/invalid_increment'', ''runtime/member_string_references'', ''runtime/memset'',
     ''runtime/indentation_namespace'', ''runtime/operator'', ''runtime/printf'',
     ''runtime/printf_format'', ''runtime/references'', ''runtime/string'',
     ''runtime/threadsafe_fn'', ''runtime/vlog'', ''whitespace/blank_line'',
     ''whitespace/braces'', ''whitespace/comma'', ''whitespace/comments'',
     ''whitespace/empty_conditional_body'', ''whitespace/empty_if_body'',
     ''whitespace/empty_loop_body'', ''whitespace/end_of_line'', ''whitespace/ending_newline'',
     ''whitespace/forcolon'', ''whitespace/indent'', ''whitespace/line_length'',
     ''whitespace/newline'', ''whitespace/operators'', ''whitespace/parens'',
     ''whitespace/semicolon'', ''whitespace/tab'', ''whitespace/todo'']"

definition LEGACY_ERROR_CATEGORIES :: "string list" where
  "LEGACY_ERROR_CATEGORIES = [''readability/streams'', ''readability/function'']"

definition DEFAULT_FILTERS :: "string list" where
  "DEFAULT_FILTERS = [''-build/include_alpha'']"

definition DEFAULT_C_SUPPRESSED_CATEGORIES :: "string list" where
  "DEFAULT_C_SUPPRESSED_CATEGORIES = [''readability/casting'']"

definition DEFAULT_KERNEL_SUPPRESSED_CATEGORIES :: "string list" where
  "DEFAULT_KERNEL_SUPPRESSED_CATEGORIES = [''whitespace/tab'']"

definition CPP_HEADERS :: "string list" where
  "CPP_HEADERS =
    [''algobase.h'', ''algo.h'', ''alloc.h'', ''builtinbuf.h'', ''bvector.h'', ''complex.h'',
     ''defalloc.h'', ''deque.h'', ''editbuf.h'', ''fstream.h'', ''function.h'', ''hash_map'',
     ''hash_map.h'', ''hash_set'', ''hash_set.h'', ''hashtable.h'', ''heap.h'', ''indstream.h'',
     ''iomanip.h'', ''iostream.h'', ''istream.h'', ''iterator.h'', ''list.h'', ''map.h'',
     ''multimap.h'', ''multiset.h'', ''ostream.h'', ''pair.h'', ''parsestream.h'',
     ''pfstream.h'', ''procbuf.h'', ''pthread_alloc'', ''pthread_alloc.h'', ''rope'',
     ''rope.h'', ''ropeimpl.h'', ''set.h'', ''slist'', ''slist.h'', ''stack.h'',
     ''stdiostream.h'', ''stl_alloc.h'', ''stl_relops.h'', ''streambuf.h'', ''stream.h'',
     ''strfile.h'', ''strstream.h'', ''tempbuf.h'', ''tree.h'', ''type_traits.h'', ''vector.h'',
     ''algorithm'', ''array'', ''atomic'', ''bitset'', ''chrono'', ''codecvt'', ''complex'',
     ''condition_variable'', ''deque'', ''exception'', ''forward_list'', ''fstream'',
     ''functional'', ''future'', ''initializer_list'', ''iomanip'', ''ios'', ''iosfwd'',
     ''iostream'', ''istream'', ''iterator'', ''limits'', ''list'', ''locale'', ''map'',
     ''memory'', ''mutex'', ''new'', ''numeric'', ''ostream'', ''queue'', ''random'', ''ratio'',
     ''regex'', ''scoped_allocator'', ''set'', ''sstream'', ''stack'', ''stdexcept'',
     ''streambuf'', ''string'', ''strstream'', ''system_error'', ''thread'', ''tuple'',
     ''typeindex'', ''typeinfo'', ''type_traits'', ''unordered_map'', ''unordered_set'',
     ''utility'', ''valarray'', ''vector'', ''shared_mutex'', ''any'', ''charconv'',
     ''codecvt'', ''execution'', ''filesystem'', ''memory_resource'', ''optional'',
     ''string_view'', ''variant'', ''cassert'', ''ccomplex'', ''cctype'', ''cerrno'', ''cfenv'',
     ''cfloat'', ''cinttypes'', ''ciso646'', ''climits'', ''clocale'', ''cmath'', ''csetjmp'',
     ''csignal'', ''cstdalign'', ''cstdarg'', ''cstdbool'', ''cstddef'', ''cstdint'',
     ''cstdio'', ''cstdlib'', ''cstring'', ''ctgmath'', ''ctime'', ''cuchar'', ''cwchar'',
     ''cwctype'']"

text \<open>The constants \<open>_C_SYS_HEADER\<close> to \<open>_OTHER_HEADER\<close>.\<close>

datatype header_type =
    C_SYS_HEADER
  | CPP_SYS_HEADER
  | LIKELY_MY_HEADER
  | POSSIBLE_MY_HEADER
  | OTHER_HEADER

text \<open>The constants \<open>_NO_ASM\<close> to \<open>_BLOCK_ASM\<close>.\<close>

datatype asm_state = NO_ASM | INSIDE_ASM | END_ASM | BLOCK_ASM

end
