(* ===== verification/Regex_Engine.thy ===== *)
theory Regex_Engine
  imports Prelude
begin

text \<open>
  The part of Python's \<open>re\<close> module that the linter relies on: the abstract syntax of
  patterns, and the backtracking matcher.  \<open>rmatch\<close> explores the alternatives in the
  order in which \<open>re\<close> does (greedy before lazy, left before right) and hands every
  intermediate state to a continuation; it returns the first state that the continuation
  accepts.  \<open>runs\<close> is the reference: the list of all the states a pattern can lead to, in
  order of preference.  \<open>rmatch_runs\<close> relates the two, so that proofs use \<open>runs\<close> and
  evaluation uses \<open>rmatch\<close>.

  Repetition stops when an iteration consumes nothing.  All repeated subpatterns of the
  linter consume at least one character, where this is exactly what \<open>re\<close> does.
\<close>

section \<open>Patterns\<close>

datatype cset =
    CChar char
  | CRange char char
  | CSpace bool
  | CWord bool
  | CDigit bool

fun in_cset :: "char \<Rightarrow> cset \<Rightarrow> bool" where
  "in_cset c (CChar d) = (c = d)"
| "in_cset c (CRange a b) = (char_code a \<le> char_code c \<and> char_code c \<le> char_code b)"
| "in_cset c (CSpace p) = (is_space c = p)"
| "in_cset c (CWord p) = (is_word c = p)"
| "in_cset c (CDigit p) = (is_digit c = p)"

datatype re =
    REps
  | RSet bool "cset list"
  | RAny
  | RSeq re re
  | RAlt re re
  | RStar bool re
  | RGroup nat re
  | RRef nat
  | RBol
  | REol
  | RWordB
  | RLook bool re

abbreviation RLit :: "char \<Rightarrow> re" where
  "RLit c \<equiv> RSet True [CChar c]"

definition set_accepts :: "bool \<Rightarrow> cset list \<Rightarrow> char \<Rightarrow> bool" where
  "set_accepts p cs c = (list_ex (in_cset c) cs = p)"

section \<open>Match states\<close>

text \<open>
  A state of the matcher: the text before the current position (reversed), the text after
  it, and the groups captured so far, the most recent first, with start and text.
\<close>

type_synonym captures = "(nat \<times> nat \<times> string) list"

datatype mstate = MS (lft: string) (rgt: string) (caps: captures)

fun advance :: "(char \<Rightarrow> bool) \<Rightarrow> mstate \<Rightarrow> mstate option" where
  "advance p (MS l [] cs) = None"
| "advance p (MS l (c # r) cs) = (if p c then Some (MS (c # l) r cs) else None)"

text \<open>The text consumed between two states, and the capture of a group.\<close>

definition consumed :: "mstate \<Rightarrow> mstate \<Rightarrow> string" where
  "consumed s s' = rev (take (length (lft s') - length (lft s)) (lft s'))"

definition capture :: "nat \<Rightarrow> mstate \<Rightarrow> mstate \<Rightarrow> mstate" where
  "capture n s s' = MS (lft s') (rgt s') ((n, length (lft s), consumed s s') # caps s')"

text \<open>The text of a back reference, matched literally.\<close>

fun advance_text :: "string \<Rightarrow> mstate \<Rightarrow> mstate option" where
  "advance_text [] s = Some s"
| "advance_text (c # t) s = (case advance (\<lambda>d. d = c) s of None \<Rightarrow> None | Some s' \<Rightarrow> advance_text t s')"

definition at_bol :: "mstate \<Rightarrow> bool" where
  "at_bol s = (lft s = [])"

definition at_eol :: "mstate \<Rightarrow> bool" where
  "at_eol s = (rgt s = [] \<or> rgt s = [newline_char])"

definition head_is_word :: "string \<Rightarrow> bool" where
  "head_is_word s = (case s of [] \<Rightarrow> False | c # _ \<Rightarrow> is_word c)"

definition at_word_boundary :: "mstate \<Rightarrow> bool" where
  "at_word_boundary s = (head_is_word (lft s) \<noteq> head_is_word (rgt s))"

section \<open>The backtracking matcher\<close>

fun or_else :: "'a option \<Rightarrow> 'a option \<Rightarrow> 'a option" where
  "or_else (Some x) y = Some x"
| "or_else None y = y"

function rmatch :: "re \<Rightarrow> (mstate \<Rightarrow> mstate option) \<Rightarrow> mstate \<Rightarrow> mstate option" where
  "rmatch REps k s = k s"
| "rmatch (RSet p cs) k s =
     (case advance (set_accepts p cs) s of None \<Rightarrow> None | Some s' \<Rightarrow> k s')"
| "rmatch RAny k s =
     (case advance (\<lambda>c. c \<noteq> newline_char) s of None \<Rightarrow> None | Some s' \<Rightarrow> k s')"
| "rmatch (RSeq r1 r2) k s = rmatch r1 (\<lambda>s'. rmatch r2 k s') s"
| "rmatch (RAlt r1 r2) k s = (case rmatch r1 k s of Some x \<Rightarrow> Some x | None \<Rightarrow> rmatch r2 k s)"
| "rmatch (RStar g r) k s =
     (if g
      then (case rmatch r (\<lambda>s'. if length (rgt s') < length (rgt s)
                                then rmatch (RStar g r) k s' else None) s of
              Some x \<Rightarrow> Some x
            | None \<Rightarrow> k s)
      else (case k s of
              Some x \<Rightarrow> Some x
            | None \<Rightarrow> rmatch r (\<lambda>s'. if length (rgt s') < length (rgt s)
                                  then rmatch (RStar g r) k s' else None) s))"
| "rmatch (RGroup n r) k s = rmatch r (\<lambda>s'. k (capture n s s')) s"
| "rmatch (RRef n) k s =
     (case map_of (caps s) n of
        None \<Rightarrow> None
      | Some (b, t) \<Rightarrow> (case advance_text t s of None \<Rightarrow> None | Some s' \<Rightarrow> k s'))"
| "rmatch RBol k s = (if at_bol s then k s else None)"
| "rmatch REol k s = (if at_eol s then k s else None)"
| "rmatch RWordB k s = (if at_word_boundary s then k s else None)"
| "rmatch (RLook p r) k s =
     (case rmatch r Some s of
        Some s' \<Rightarrow> if p then k (MS (lft s) (rgt s) (caps s')) else None
      | None \<Rightarrow> if p then None else k s)"
  by pat_completeness auto
termination
  by (relation "measures [\<lambda>(r, k, s). size r, \<lambda>(r, k, s). length (rgt s)]") auto

section \<open>The reference: all outcomes in order of preference\<close>

fun of_option :: "'a option \<Rightarrow> 'a list" where
  "of_option None = []"
| "of_option (Some x) = [x]"

lemma set_of_option [simp]: "x \<in> set (of_option y) \<longleftrightarrow> y = Some x"
  by (cases y) auto

function runs :: "re \<Rightarrow> mstate \<Rightarrow> mstate list" where
  "runs REps s = [s]"
| "runs (RSet p cs) s = of_option (advance (set_accepts p cs) s)"
| "runs RAny s = of_option (advance (\<lambda>c. c \<noteq> newline_char) s)"
| "runs (RSeq r1 r2) s = concat (map (runs r2) (runs r1 s))"
| "runs (RAlt r1 r2) s = runs r1 s @ runs r2 s"
| "runs (RStar g r) s =
     (let more = concat (map (\<lambda>s'. if length (rgt s') < length (rgt s)
                                     then runs (RStar g r) s' else []) (runs r s))
      in if g then more @ [s] else s # more)"
| "runs (RGroup n r) s = map (capture n s) (runs r s)"
| "runs (RRef n) s =
     (case map_of (caps s) n of None \<Rightarrow> [] | Some (b, t) \<Rightarrow> of_option (advance_text t s))"
| "runs RBol s = (if at_bol s then [s] else [])"
| "runs REol s = (if at_eol s then [s] else [])"
| "runs RWordB s = (if at_word_boundary s then [s] else [])"
| "runs (RLook p r) s =
     (case runs r s of
        s' # _ \<Rightarrow> if p then [MS (lft s) (rgt s) (caps s')] else []
      | [] \<Rightarrow> if p then [] else [s])"
  by pat_completeness auto
termination
  by (relation "measures [\<lambda>(r, s). size r, \<lambda>(r, s). length (rgt s)]") auto

declare rmatch.simps(6) [simp del] runs.simps(6) [simp del]

fun first_of :: "('a \<Rightarrow> 'b option) \<Rightarrow> 'a list \<Rightarrow> 'b option" where
  "first_of k [] = None"
| "first_of k (x # xs) = (case k x of Some y \<Rightarrow> Some y | None \<Rightarrow> first_of k xs)"

lemma first_of_append:
  "first_of k (xs @ ys) = (case first_of k xs of Some y \<Rightarrow> Some y | None \<Rightarrow> first_of k ys)"
  by (induction xs) (auto split: option.splits)

lemma first_of_concat_map:
  "first_of k (concat (map f xs)) = first_of (\<lambda>x. first_of k (f x)) xs"
  by (induction xs) (auto simp: first_of_append split: option.splits)

lemma first_of_map: "first_of k (map f xs) = first_of (\<lambda>x. k (f x)) xs"
  by (induction xs) (auto split: option.splits)

lemma first_of_of_option: "first_of k (of_option x) = (case x of None \<Rightarrow> None | Some y \<Rightarrow> k y)"
  by (cases x) (auto split: option.splits)

lemma first_of_Some: "first_of Some xs = (case xs of [] \<Rightarrow> None | x # _ \<Rightarrow> Some x)"
  by (cases xs) auto

lemma first_of_cong: "(\<And>x. x \<in> set xs \<Longrightarrow> k x = k' x) \<Longrightarrow> first_of k xs = first_of k' xs"
  by (induction xs) (auto split: option.splits)

lemma first_of_None_iff: "first_of k xs = None \<longleftrightarrow> (\<forall>x \<in> set xs. k x = None)"
  by (induction xs) (auto split: option.splits)

lemma first_of_SomeD: "first_of k xs = Some y \<Longrightarrow> \<exists>x \<in> set xs. k x = Some y"
  by (induction xs) (auto split: option.splits)

text \<open>
  The matcher tries the outcomes of the pattern in order and returns the first one that
  the continuation accepts.
\<close>

lemma rmatch_runs: "rmatch r k s = first_of k (runs r s)"
proof (induction r s arbitrary: k rule: runs.induct)
  case (6 g r s)
  have loop: "(if length (rgt s') < length (rgt s) then rmatch (RStar g r) k s' else None) =
     first_of k (if length (rgt s') < length (rgt s) then runs (RStar g r) s' else [])"
    if "s' \<in> set (runs r s)" for s'
    using 6(2)[OF that] by simp
  have "rmatch r (\<lambda>s'. if length (rgt s') < length (rgt s)
                        then rmatch (RStar g r) k s' else None) s =
    first_of k (concat (map (\<lambda>s'. if length (rgt s') < length (rgt s)
                                  then runs (RStar g r) s' else []) (runs r s)))"
    by (subst 6(1), subst first_of_concat_map, rule first_of_cong, rule loop)
  then show ?case
    by (simp add: rmatch.simps(6) runs.simps(6) Let_def first_of_append
          option.case_eq_if)
next
  case (4 r1 r2 s)
  then show ?case
    by (auto simp: first_of_concat_map intro!: first_of_cong)
next
  case (12 p r s)
  then show ?case by (auto simp: first_of_Some split: list.splits option.splits)
qed (auto simp: first_of_append first_of_map first_of_of_option split: option.splits)

section \<open>What an outcome says about the text\<close>

text \<open>
  The text of a state; matching moves the position to the right and leaves the text alone.
\<close>

definition mtext :: "mstate \<Rightarrow> string" where
  "mtext s = rev (lft s) @ rgt s"

lemma advance_Some:
  "advance p s = Some s' \<longleftrightarrow>
   (\<exists>c. p c \<and> rgt s = c # rgt s' \<and> lft s' = c # lft s \<and> caps s' = caps s)"
  by (cases s; cases s'; cases "rgt s") auto

lemma advance_text_Some:
  "advance_text t s = Some s' \<longleftrightarrow>
   rgt s = t @ rgt s' \<and> lft s' = rev t @ lft s \<and> caps s' = caps s"
proof (induction t arbitrary: s)
  case Nil
  then show ?case by (cases s; cases s') auto
next
  case (Cons c t)
  show ?case
  proof (cases "advance (\<lambda>d. d = c) s")
    case None
    then have "\<And>x. rgt s \<noteq> c # x" by (cases s; cases "rgt s") auto
    with None show ?thesis by auto
  next
    case (Some s1)
    then have "rgt s = c # rgt s1" "lft s1 = c # lft s" "caps s1 = caps s"
      by (auto simp: advance_Some)
    with Some Cons.IH[of s1] show ?thesis by auto
  qed
qed

lemma runs_grow:
  "s' \<in> set (runs r s) \<Longrightarrow> \<exists>w. lft s' = rev w @ lft s \<and> rgt s = w @ rgt s'"
proof (induction r s arbitrary: s' rule: runs.induct)
  case (2 p cs s)
  then show ?case
    by (cases "advance (set_accepts p cs) s") (auto simp: advance_Some intro: exI[of _ "[_]"])
next
  case (3 s)
  then show ?case
    by (cases "advance (\<lambda>c. c \<noteq> newline_char) s") (auto simp: advance_Some intro: exI[of _ "[_]"])
next
  case (4 r1 r2 s)
  then obtain s1 where s1: "s1 \<in> set (runs r1 s)" "s' \<in> set (runs r2 s1)" by auto
  from 4(1)[of s1] 4(2)[of s1 s'] s1 obtain w w' where
    "lft s1 = rev w @ lft s" "rgt s = w @ rgt s1"
    "lft s' = rev w' @ lft s1" "rgt s1 = w' @ rgt s'" by blast
  then show ?case by (intro exI[of _ "w @ w'"]) simp
next
  case (6 g r s)
  from 6(3) consider "s' = s"
    | s1 where "s1 \<in> set (runs r s)" "length (rgt s1) < length (rgt s)"
        "s' \<in> set (runs (RStar g r) s1)"
    by (auto simp: runs.simps(6)[of g r s] Let_def split: if_splits)
  then show ?case
  proof cases
    case 1
    then show ?thesis by auto
  next
    case (2 s1)
    from 6(1)[OF 2(1)] 6(2)[OF 2(1,2,3)] obtain w w' where
      "lft s1 = rev w @ lft s" "rgt s = w @ rgt s1"
      "lft s' = rev w' @ lft s1" "rgt s1 = w' @ rgt s'" by blast
    then show ?thesis by (intro exI[of _ "w @ w'"]) simp
  qed
next
  case (7 n r s)
  then obtain s1 where s1: "s1 \<in> set (runs r s)" "s' = capture n s s1" by auto
  from 7(1)[OF s1(1)] s1(2) show ?case by (auto simp: capture_def)
next
  case (8 n s)
  then obtain b t where "advance_text t s = Some s'"
    by (auto split: option.splits)
  then show ?case by (auto simp: advance_text_Some)
next
  case (12 p r s)
  then show ?case by (auto split: list.splits if_splits)
qed (auto split: if_splits)

lemma runs_mtext: "s' \<in> set (runs r s) \<Longrightarrow> mtext s' = mtext s"
  by (drule runs_grow) (auto simp: mtext_def)

lemma runs_consumed: "s' \<in> set (runs r s) \<Longrightarrow> rgt s = consumed s s' @ rgt s'"
  by (drule runs_grow) (auto simp: consumed_def)

lemma rmatch_Some_runs: "rmatch r Some s = Some s' \<Longrightarrow> s' \<in> set (runs r s)"
  by (auto simp: rmatch_runs first_of_Some split: list.splits)

lemma rmatch_None_iff: "rmatch r Some s = None \<longleftrightarrow> runs r s = []"
  by (auto simp: rmatch_runs first_of_Some split: list.splits)

end
