(* ===== verification/Regex_Syntax.thy ===== *)
theory Regex_Syntax
  imports Regex_Engine
begin

text \<open>
  The pattern language of Python's \<open>re\<close> module, as far as the linter's patterns use it:
  \<open>re_compile\<close> turns the text of a pattern into the abstract syntax of
  \<open>Regex_Engine\<close>, or \<open>None\<close> where \<open>re.compile\<close> would raise \<open>re.error\<close> (and for
  constructs that no pattern of the linter contains).  A pattern is first cut into tokens
  and then parsed with an explicit stack of open groups, so no fuel is needed.

  Isabelle's string literals cannot hold a backslash.  In the text of a pattern given to
  \<open>rx\<close>, a backquote stands for it; no pattern of the linter contains a backquote.
\<close>

definition rx :: "string \<Rightarrow> string" where
  "rx s = map (\<lambda>c. if c = CHR ''`'' then backslash_char else c) s"

section \<open>Tokens\<close>

datatype gkind = GCap | GNon | GLook bool

datatype rtok =
    TAtom re
  | TOpen gkind
  | TClose
  | TBar
  | TQuant nat "nat option" bool

definition escape_set :: "char \<Rightarrow> cset option" where
  "escape_set e =
     (if e = CHR ''s'' then Some (CSpace True)
      else if e = CHR ''S'' then Some (CSpace False)
      else if e = CHR ''w'' then Some (CWord True)
      else if e = CHR ''W'' then Some (CWord False)
      else if e = CHR ''d'' then Some (CDigit True)
      else if e = CHR ''D'' then Some (CDigit False)
      else None)"

text \<open>The character that an escape other than a class stands for; other letters are errors.\<close>

definition escape_char :: "char \<Rightarrow> char option" where
  "escape_char e =
     (if e = CHR ''n'' then Some newline_char
      else if e = CHR ''r'' then Some (CHR 0x0D)
      else if e = CHR ''t'' then Some (CHR 0x09)
      else if is_upper e \<or> is_lower e \<or> is_digit e then None
      else Some e)"

definition escape_atom :: "char \<Rightarrow> re option" where
  "escape_atom e =
     (case escape_set e of
        Some k \<Rightarrow> Some (RSet True [k])
      | None \<Rightarrow>
          if e = CHR ''b'' then Some RWordB
          else if is_digit e \<and> e \<noteq> CHR ''0'' then Some (RRef (nat (char_code e - 48)))
          else map_option RLit (escape_char e))"

text \<open>The members of a character class, up to the closing bracket.\<close>

fun class_items :: "string \<Rightarrow> cset list \<Rightarrow> (cset list \<times> string) option" where
  "class_items [] acc = None"
| "class_items (c # cs) acc =
     (if c = CHR '']'' then Some (rev acc, cs)
      else if c = backslash_char then
        (case cs of
           [] \<Rightarrow> None
         | e # cs' \<Rightarrow>
             (case escape_set e of
                Some k \<Rightarrow> class_items cs' (k # acc)
              | None \<Rightarrow>
                  (case escape_char e of
                     Some d \<Rightarrow> class_items cs' (CChar d # acc)
                   | None \<Rightarrow> None)))
      else
        (case cs of
           h # e # cs' \<Rightarrow>
             if h = CHR ''-'' \<and> e \<noteq> CHR '']''
             then class_items cs' (CRange c e # acc)
             else class_items cs (CChar c # acc)
         | _ \<Rightarrow> class_items cs (CChar c # acc)))"

text \<open>A class after its opening bracket: the negation mark, and a literal bracket in first place.\<close>

definition char_class :: "string \<Rightarrow> (re \<times> string) option" where
  "char_class cs =
     (let neg = startswith cs ''^'';
          body = (if neg then tl cs else cs)
      in map_option (\<lambda>(items, rest). (RSet (\<not> neg) items, rest))
           (if startswith body '']'' then class_items (tl body) [CChar (CHR '']'')]
            else class_items body []))"

fun read_nat :: "string \<Rightarrow> nat \<Rightarrow> nat" where
  "read_nat [] n = n"
| "read_nat (c # cs) n = read_nat cs (10 * n + nat (char_code c - 48))"

text \<open>\<open>{m}\<close>, \<open>{m,n}\<close> after the opening brace; any other brace is an ordinary character.\<close>

definition brace_quant :: "string \<Rightarrow> (nat \<times> nat option \<times> string) option" where
  "brace_quant cs =
     (let lo = takeWhile is_digit cs; rest = dropWhile is_digit cs
      in case rest of
           [] \<Rightarrow> None
         | c # rest' \<Rightarrow>
             if c = CHR '','' then
               (let hi = takeWhile is_digit rest'; rest'' = dropWhile is_digit rest'
                in if startswith rest'' ''}''
                   then Some (read_nat lo 0, if hi = [] then None else Some (read_nat hi 0),
                              tl rest'')
                   else None)
             else if c = CHR ''}'' \<and> lo \<noteq> [] then
               Some (read_nat lo 0, Some (read_nat lo 0), rest')
             else None)"

text \<open>A quantifier followed by a question mark is lazy.\<close>

definition quant_token :: "nat \<Rightarrow> nat option \<Rightarrow> string \<Rightarrow> rtok \<times> string" where
  "quant_token lo hi rest =
     (if startswith rest ''?'' then (TQuant lo hi False, tl rest) else (TQuant lo hi True, rest))"

definition group_token :: "string \<Rightarrow> (rtok \<times> string) option" where
  "group_token rest =
     (if startswith rest ''?:'' then Some (TOpen GNon, drop 2 rest)
      else if startswith rest ''?='' then Some (TOpen (GLook True), drop 2 rest)
      else if startswith rest ''?!'' then Some (TOpen (GLook False), drop 2 rest)
      else if startswith rest ''?'' then None
      else Some (TOpen GCap, rest))"

definition next_token :: "char \<Rightarrow> string \<Rightarrow> (rtok \<times> string) option" where
  "next_token c rest =
     (if c = backslash_char then
        (case rest of
           [] \<Rightarrow> None
         | e # rest' \<Rightarrow> map_option (\<lambda>r. (TAtom r, rest')) (escape_atom e))
      else if c = CHR ''['' then map_option (\<lambda>(r, rest'). (TAtom r, rest')) (char_class rest)
      else if c = CHR ''('' then group_token rest
      else if c = CHR '')'' then Some (TClose, rest)
      else if c = CHR ''|'' then Some (TBar, rest)
      else if c = CHR ''*'' then Some (quant_token 0 None rest)
      else if c = CHR ''+'' then Some (quant_token 1 None rest)
      else if c = CHR ''?'' then Some (quant_token 0 (Some 1) rest)
      else if c = CHR ''{'' then
        (case brace_quant rest of
           Some (lo, hi, rest') \<Rightarrow> Some (quant_token lo hi rest')
         | None \<Rightarrow> Some (TAtom (RLit c), rest))
      else if c = CHR ''.'' then Some (TAtom RAny, rest)
      else if c = CHR ''^'' then Some (TAtom RBol, rest)
      else if c = CHR ''$'' then Some (TAtom REol, rest)
      else Some (TAtom (RLit c), rest))"

text \<open>Every token consumes text; the test only serves the termination proof.\<close>

function tokens :: "string \<Rightarrow> rtok list option" where
  "tokens [] = Some []"
| "tokens (c # cs) =
     (case next_token c cs of
        None \<Rightarrow> None
      | Some (t, rest) \<Rightarrow>
          if length rest \<le> length cs then map_option (\<lambda>ts. t # ts) (tokens rest) else None)"
  by pat_completeness auto
termination
  by (relation "measure length") auto

section \<open>Parsing\<close>

text \<open>
  An open group: its kind, its number, the alternatives finished so far and the atoms of
  the current alternative (last first).
\<close>

datatype frame = Frame gkind nat "re option" "re list"

fun seq_of :: "re list \<Rightarrow> re" where
  "seq_of [] = REps"
| "seq_of (r # rs) = foldl (\<lambda>acc x. RSeq x acc) r rs"

fun alt_of :: "re option \<Rightarrow> re list \<Rightarrow> re" where
  "alt_of None rs = seq_of rs"
| "alt_of (Some a) rs = RAlt a (seq_of rs)"

fun optionals :: "nat \<Rightarrow> bool \<Rightarrow> re \<Rightarrow> re" where
  "optionals 0 g r = REps"
| "optionals (Suc n) g r =
     (if g then RAlt (RSeq r (optionals n g r)) REps
      else RAlt REps (RSeq r (optionals n g r)))"

fun copies :: "nat \<Rightarrow> re \<Rightarrow> re \<Rightarrow> re" where
  "copies 0 r rest = rest"
| "copies (Suc n) r rest = RSeq r (copies n r rest)"

definition repeat :: "nat \<Rightarrow> nat option \<Rightarrow> bool \<Rightarrow> re \<Rightarrow> re" where
  "repeat lo hi g r =
     copies lo r (case hi of None \<Rightarrow> RStar g r | Some h \<Rightarrow> optionals (h - lo) g r)"

fun close_group :: "gkind \<Rightarrow> nat \<Rightarrow> re \<Rightarrow> re" where
  "close_group GCap n r = RGroup n r"
| "close_group GNon n r = r"
| "close_group (GLook p) n r = RLook p r"

fun parse :: "rtok list \<Rightarrow> nat \<Rightarrow> frame list \<Rightarrow> re option" where
  "parse [] n [Frame k i alts atoms] = Some (alt_of alts atoms)"
| "parse [] n fs = None"
| "parse (t # ts) n [] = None"
| "parse (TAtom r # ts) n (Frame k i alts atoms # fs) =
     parse ts n (Frame k i alts (r # atoms) # fs)"
| "parse (TOpen k' # ts) n fs =
     parse ts (if k' = GCap then n + 1 else n) (Frame k' n None [] # fs)"
| "parse (TBar # ts) n (Frame k i alts atoms # fs) =
     parse ts n (Frame k i (Some (alt_of alts atoms)) [] # fs)"
| "parse (TClose # ts) n (Frame k i alts atoms # fs) =
     (case fs of
        [] \<Rightarrow> None
      | Frame k' i' alts' atoms' # fs' \<Rightarrow>
          parse ts n (Frame k' i' alts' (close_group k i (alt_of alts atoms) # atoms') # fs'))"
| "parse (TQuant lo hi g # ts) n (Frame k i alts atoms # fs) =
     (case atoms of
        [] \<Rightarrow> None
      | r # atoms' \<Rightarrow> parse ts n (Frame k i alts (repeat lo hi g r # atoms') # fs))"

text \<open>\<open>re.IGNORECASE\<close>, for patterns without ranges of letters.\<close>

fun icase_item :: "cset \<Rightarrow> cset list" where
  "icase_item (CChar c) = [CChar c, CChar (lower_char c), CChar (upper_char c)]"
| "icase_item k = [k]"

fun icase :: "re \<Rightarrow> re" where
  "icase (RSet p cs) = RSet p (concat (map icase_item cs))"
| "icase (RSeq r1 r2) = RSeq (icase r1) (icase r2)"
| "icase (RAlt r1 r2) = RAlt (icase r1) (icase r2)"
| "icase (RStar g r) = RStar g (icase r)"
| "icase (RGroup n r) = RGroup n (icase r)"
| "icase (RLook p r) = RLook p (icase r)"
| "icase r = r"

definition re_parse :: "string \<Rightarrow> re option" where
  "re_parse pat =
     (case tokens pat of
        None \<Rightarrow> None
      | Some ts \<Rightarrow> parse ts 1 [Frame GNon 0 None []])"

definition re_compile :: "string \<Rightarrow> re option" where
  "re_compile pat =
     (if startswith pat ''(?i)'' then map_option icase (re_parse (drop 4 pat)) else re_parse pat)"

section \<open>\<open>re.escape\<close>\<close>

definition special_chars :: "int list" where
  "special_chars =
     [9, 10, 11, 12, 13, 32, 35, 36, 38, 40, 41, 42, 43, 45, 46, 63, 91, 92, 93, 94, 123, 124,
      125, 126]"

definition re_escape :: "string \<Rightarrow> string" where
  "re_escape s =
     concat (map (\<lambda>c. if char_code c \<in> set special_chars then [backslash_char, c] else [c]) s)"

text \<open>Escaped text is tokenized into its own characters, one atom each.\<close>

definition plain_char :: "char \<Rightarrow> bool" where
  "plain_char c \<longleftrightarrow> c \<notin> set [backslash_char, CHR ''['', CHR ''('', CHR '')'', CHR ''|'', CHR ''*'',
     CHR ''+'', CHR ''?'', CHR ''{'', CHR ''.'', CHR ''^'', CHR ''$'']"

lemma next_token_plain: "plain_char c \<Longrightarrow> next_token c cs = Some (TAtom (RLit c), cs)"
  by (auto simp: next_token_def plain_char_def)

lemma special_chars_escape:
  "\<forall>n \<in> set special_chars. escape_atom (char_of n) = Some (RLit (char_of n))"
  by code_simp

lemma special_char_escape: "char_code c \<in> set special_chars \<Longrightarrow> escape_atom c = Some (RLit c)"
  using special_chars_escape by fastforce

lemma metachars_special:
  "\<forall>c \<in> set [backslash_char, CHR ''['', CHR ''('', CHR '')'', CHR ''|'', CHR ''*'',
     CHR ''+'', CHR ''?'', CHR ''{'', CHR ''.'', CHR ''^'', CHR ''$'']. char_code c \<in> set special_chars"
  by code_simp

lemma not_special_plain: "char_code c \<notin> set special_chars \<Longrightarrow> plain_char c"
  using metachars_special by (auto simp: plain_char_def)

lemma tokens_re_escape: "tokens (re_escape s) = Some (map (\<lambda>c. TAtom (RLit c)) s)"
proof (induction s)
  case Nil
  then show ?case by (simp add: re_escape_def)
next
  case (Cons c s)
  show ?case
  proof (cases "char_code c \<in> set special_chars")
    case True
    then have "re_escape (c # s) = backslash_char # c # re_escape s"
      by (simp add: re_escape_def)
    moreover have "next_token backslash_char (c # re_escape s) = Some (TAtom (RLit c), re_escape s)"
      by (simp add: next_token_def special_char_escape[OF True])
    ultimately show ?thesis using Cons.IH by simp
  next
    case False
    then have "re_escape (c # s) = c # re_escape s"
      by (simp add: re_escape_def)
    with Cons.IH show ?thesis by (simp add: next_token_plain[OF not_special_plain[OF False]])
  qed
qed

lemma parse_atoms:
  "parse (map TAtom rs) n [Frame k i alts atoms] = Some (alt_of alts (rev rs @ atoms))"
  by (induction rs arbitrary: atoms) auto

lemma seq_of_rev_Cons: "rs \<noteq> [] \<Longrightarrow> seq_of (rev (r # rs)) = RSeq r (seq_of (rev rs))"
  by (cases "rev rs") auto

text \<open>The pattern of an escaped text is the sequence of its characters.\<close>

lemma re_compile_escape: "re_compile (re_escape s) = Some (seq_of (rev (map RLit s)))"
proof -
  have "re_parse (re_escape s) = Some (seq_of (rev (map RLit s)))"
    using parse_atoms[of "map RLit s" 1 GNon 0 None "[]"]
    by (simp add: re_parse_def tokens_re_escape comp_def)
  moreover have "\<not> startswith (re_escape s) ''(?i)''"
    by (cases s) (auto simp: re_escape_def special_chars_def)
  ultimately show ?thesis by (simp add: re_compile_def)
qed

lemma set_accepts_lit: "set_accepts True [CChar c] = (\<lambda>d. d = c)"
  by (rule ext) (simp add: set_accepts_def)

lemma runs_RLit: "runs (RLit c) s = of_option (advance (\<lambda>d. d = c) s)"
  by (simp add: set_accepts_lit)

lemma runs_literal: "runs (seq_of (rev (map RLit t))) s = of_option (advance_text t s)"
proof (induction t arbitrary: s)
  case Nil
  then show ?case by simp
next
  case (Cons c t)
  show ?case
  proof (cases t)
    case Nil
    then show ?thesis
      by (cases "advance (\<lambda>d. d = c) s") (simp_all add: set_accepts_lit)
  next
    case (Cons d u)
    have "seq_of (rev (map RLit (c # t))) = RSeq (RLit c) (seq_of (rev (map RLit t)))"
      using seq_of_rev_Cons[of "map RLit t" "RLit c"] Cons by simp
    then show ?thesis
      using Cons.IH by (cases "advance (\<lambda>d. d = c) s") (simp_all add: set_accepts_lit)
  qed
qed

end
