(* ===== verification/Regex.thy ===== *)
theory Regex
  imports Regex_Syntax
begin

text \<open>
  Match objects and the entry points of \<open>re\<close> that \<open>cpplint.py\<close> uses: \<open>Match\<close>, \<open>Search\<close>
  and \<open>ReplaceAll\<close> (with the cache of compiled patterns that they share), \<open>re.sub\<close>,
  \<open>finditer\<close>, \<open>findall\<close>.  The lemmas say where the matched text and the groups lie in the
  subject, which is what the proofs of the components use.
\<close>

section \<open>Match objects\<close>

text \<open>The text before, inside and after the match, and the groups.\<close>

datatype pmatch = PM (m_pre: string) (m_text: string) (m_post: string) (m_caps: captures)

definition m_start :: "pmatch \<Rightarrow> int" where
  "m_start m = int (length (m_pre m))"

definition m_end :: "pmatch \<Rightarrow> int" where
  "m_end m = int (length (m_pre m) + length (m_text m))"

text \<open>\<open>m.group(n)\<close>, with \<open>None\<close> for a group that took no part in the match.\<close>

definition group :: "pmatch \<Rightarrow> nat \<Rightarrow> string option" where
  "group m n = (if n = 0 then Some (m_text m) else map_option snd (map_of (m_caps m) n))"

text \<open>A group that takes part in every match of its pattern, as a string.\<close>

definition grp :: "pmatch \<Rightarrow> nat \<Rightarrow> string" where
  "grp m n = (case group m n of Some t \<Rightarrow> t | None \<Rightarrow> [])"

text \<open>\<open>m.start(n)\<close> for a group; -1 when it took no part.\<close>

definition m_start_of :: "pmatch \<Rightarrow> nat \<Rightarrow> int" where
  "m_start_of m n = (case map_of (m_caps m) n of Some (b, t) \<Rightarrow> int b | None \<Rightarrow> -1)"

definition match_of :: "string \<Rightarrow> string \<Rightarrow> mstate \<Rightarrow> pmatch" where
  "match_of l r s' = PM (rev l) (consumed (MS l r []) s') (rgt s') (caps s')"

section \<open>Matching at a position and searching\<close>

definition match_at :: "re \<Rightarrow> string \<Rightarrow> string \<Rightarrow> pmatch option" where
  "match_at r l s = map_option (match_of l s) (rmatch r Some (MS l s []))"

fun search_at :: "re \<Rightarrow> string \<Rightarrow> string \<Rightarrow> pmatch option" where
  "search_at r l [] = match_at r l []"
| "search_at r l (c # s) =
     (case match_at r l (c # s) of
        Some m \<Rightarrow> Some m
      | None \<Rightarrow> search_at r (c # l) s)"

definition Match :: "string \<Rightarrow> string \<Rightarrow> pmatch option" where
  "Match pattern s =
     (case re_compile pattern of None \<Rightarrow> None | Some r \<Rightarrow> match_at r [] s)"

definition Search :: "string \<Rightarrow> string \<Rightarrow> pmatch option" where
  "Search pattern s =
     (case re_compile pattern of None \<Rightarrow> None | Some r \<Rightarrow> search_at r [] s)"

abbreviation Matches :: "string \<Rightarrow> string \<Rightarrow> bool" where
  "Matches pattern s \<equiv> Match pattern s \<noteq> None"

abbreviation Finds :: "string \<Rightarrow> string \<Rightarrow> bool" where
  "Finds pattern s \<equiv> Search pattern s \<noteq> None"

text \<open>
  All matches from left to right.  After a match that consumed text the scan goes on behind
  it; after an empty match it goes on one character later.  The text passed over between two
  matches is kept with each match.
\<close>

function scan :: "re \<Rightarrow> string \<Rightarrow> string \<Rightarrow> string \<Rightarrow> (string \<times> pmatch) list \<times> string" where
  "scan r l skipped s =
     (case match_at r l s of
        Some m \<Rightarrow>
          if m_text m \<noteq> [] \<and> length (m_post m) < length s
          then (let (ms, rest) = scan r (rev (m_text m) @ l) [] (m_post m)
                in ((rev skipped, m) # ms, rest))
          else (case s of
                  [] \<Rightarrow> ([(rev skipped, m)], [])
                | c # s' \<Rightarrow> (let (ms, rest) = scan r (c # l) [c] s' in ((rev skipped, m) # ms, rest)))
      | None \<Rightarrow>
          (case s of
             [] \<Rightarrow> ([], rev skipped)
           | c # s' \<Rightarrow> scan r (c # l) (c # skipped) s'))"
  by pat_completeness auto
termination
  by (relation "measure (\<lambda>(r, l, skipped, s). length s)") auto

declare scan.simps [simp del]

definition finditer_re :: "re \<Rightarrow> string \<Rightarrow> pmatch list" where
  "finditer_re r s = map snd (fst (scan r [] [] s))"

definition sub_re :: "re \<Rightarrow> (pmatch \<Rightarrow> string) \<Rightarrow> string \<Rightarrow> string" where
  "sub_re r f s =
     (let (ms, rest) = scan r [] [] s in concat (map (\<lambda>(skipped, m). skipped @ f m) ms) @ rest)"

definition finditer :: "string \<Rightarrow> string \<Rightarrow> pmatch list" where
  "finditer pattern s = (case re_compile pattern of None \<Rightarrow> [] | Some r \<Rightarrow> finditer_re r s)"

text \<open>\<open>re.sub(pattern, f, s)\<close>, with the replacement as a function of the match.\<close>

definition re_sub :: "string \<Rightarrow> (pmatch \<Rightarrow> string) \<Rightarrow> string \<Rightarrow> string" where
  "re_sub pattern f s = (case re_compile pattern of None \<Rightarrow> s | Some r \<Rightarrow> sub_re r f s)"

definition ReplaceAll :: "string \<Rightarrow> string \<Rightarrow> string \<Rightarrow> string" where
  "ReplaceAll pattern rep s = re_sub pattern (\<lambda>_. rep) s"

section \<open>The cache of compiled patterns\<close>

text \<open>
  \<open>_regexp_compile_cache\<close> maps the text of a pattern to its compiled form.  The functions
  look the pattern up, compile it when it is missing, and store the result.
\<close>

type_synonym regexp_cache = "string \<rightharpoonup> re"

definition cached_compile :: "regexp_cache \<Rightarrow> string \<Rightarrow> (re \<times> regexp_cache) py" where
  "cached_compile cache pattern =
     (case cache pattern of
        Some r \<Rightarrow> Inr (r, cache)
      | None \<Rightarrow>
          (case re_compile pattern of
             None \<Rightarrow> Inl (ValueError pattern)
           | Some r \<Rightarrow> Inr (r, cache(pattern \<mapsto> r))))"

definition Match_cached ::
  "regexp_cache \<Rightarrow> string \<Rightarrow> string \<Rightarrow> (pmatch option \<times> regexp_cache) py" where
  "Match_cached cache pattern s =
     py_bind (cached_compile cache pattern) (\<lambda>(r, cache'). Inr (match_at r [] s, cache'))"

definition Search_cached ::
  "regexp_cache \<Rightarrow> string \<Rightarrow> string \<Rightarrow> (pmatch option \<times> regexp_cache) py" where
  "Search_cached cache pattern s =
     py_bind (cached_compile cache pattern) (\<lambda>(r, cache'). Inr (search_at r [] s, cache'))"

definition ReplaceAll_cached ::
  "regexp_cache \<Rightarrow> string \<Rightarrow> string \<Rightarrow> string \<Rightarrow> (string \<times> regexp_cache) py" where
  "ReplaceAll_cached cache pattern rep s =
     py_bind (cached_compile cache pattern) (\<lambda>(r, cache'). Inr (sub_re r (\<lambda>_. rep) s, cache'))"

definition cache_ok :: "regexp_cache \<Rightarrow> bool" where
  "cache_ok cache \<longleftrightarrow> (\<forall>p r. cache p = Some r \<longrightarrow> re_compile p = Some r)"

lemma cached_compile_ok:
  assumes "cache_ok cache" and "re_compile p = Some r"
  shows "\<exists>cache'. cached_compile cache p = Inr (r, cache') \<and> cache_ok cache'"
proof (cases "cache p")
  case None
  have "cache_ok (cache(p \<mapsto> r))" using assms by (auto simp: cache_ok_def)
  with None assms(2) show ?thesis by (simp add: cached_compile_def)
next
  case (Some r')
  with assms show ?thesis by (auto simp: cached_compile_def cache_ok_def)
qed

section \<open>Where the match and the groups lie\<close>

lemma match_at_split:
  assumes "match_at r l s = Some m"
  shows "m_pre m = rev l" and "s = m_text m @ m_post m"
proof -
  obtain s' where s': "rmatch r Some (MS l s []) = Some s'" and m: "m = match_of l s s'"
    using assms by (auto simp: match_at_def)
  have "rgt (MS l s []) = consumed (MS l s []) s' @ rgt s'"
    using rmatch_Some_runs[OF s'] by (rule runs_consumed)
  with m show "m_pre m = rev l" "s = m_text m @ m_post m"
    by (simp_all add: match_of_def)
qed

lemma search_at_split:
  "search_at r l s = Some m \<Longrightarrow> rev l @ s = m_pre m @ m_text m @ m_post m"
proof (induction r l s rule: search_at.induct)
  case (1 r l)
  then show ?case using match_at_split[of r l "[]" m] by auto
next
  case (2 r l c s)
  then show ?case
    using match_at_split[of r l "c # s" m] by (auto split: option.splits)
qed

lemma Match_split: "Match p s = Some m \<Longrightarrow> m_pre m = [] \<and> s = m_text m @ m_post m"
  using match_at_split[of _ "[]" s m] by (auto simp: Match_def split: option.splits)

lemma Search_split: "Search p s = Some m \<Longrightarrow> s = m_pre m @ m_text m @ m_post m"
  using search_at_split[of _ "[]" s m] by (auto simp: Search_def split: option.splits)

lemma search_at_None_iff:
  "search_at r l s = None \<longleftrightarrow>
   (\<forall>a b. s = a @ b \<longrightarrow> match_at r (rev a @ l) b = None)"
proof (induction r l s rule: search_at.induct)
  case (1 r l)
  then show ?case by simp
next
  case (2 r l c s)
  have "(\<forall>a b. c # s = a @ b \<longrightarrow> match_at r (rev a @ l) b = None) \<longleftrightarrow>
      match_at r l (c # s) = None \<and> (\<forall>a b. s = a @ b \<longrightarrow> match_at r (rev a @ c # l) b = None)"
    (is "?L \<longleftrightarrow> ?R")
  proof
    assume L: ?L
    have "match_at r (rev a @ c # l) b = None" if "s = a @ b" for a b
      using L[rule_format, of "c # a" b] that by simp
    then show ?R using L[rule_format, of "[]" "c # s"] by simp
  next
    assume R: ?R
    show ?L
    proof (intro allI impI)
      fix a b
      assume "c # s = a @ b"
      with R show "match_at r (rev a @ l) b = None" by (cases a) auto
    qed
  qed
  with "2.IH" show ?case by (auto split: option.splits)
qed

text \<open>Where a pattern matches depends on its outcomes only: \<open>Search\<close> fails when there are none.\<close>

lemma match_at_None_iff: "match_at r l s = None \<longleftrightarrow> runs r (MS l s []) = []"
  by (simp add: match_at_def rmatch_None_iff)

lemma Matches_iff:
  "re_compile p = Some r \<Longrightarrow> Matches p s \<longleftrightarrow> runs r (MS [] s []) \<noteq> []"
  by (simp add: Match_def match_at_None_iff)

lemma Finds_iff:
  "re_compile p = Some r \<Longrightarrow>
   Finds p s \<longleftrightarrow> (\<exists>a b. s = a @ b \<and> runs r (MS (rev a) b []) \<noteq> [])"
  by (auto simp: Search_def search_at_None_iff match_at_None_iff)

lemma Match_SomeE:
  assumes "Match p s = Some m" and "re_compile p = Some r"
  obtains s' where "s' \<in> set (runs r (MS [] s []))" and "m = match_of [] s s'"
  using assms by (auto simp: Match_def match_at_def dest: rmatch_Some_runs)

text \<open>An escaped text matches itself and nothing else.\<close>

lemma advance_text_MS: "advance_text t (MS l s cs) = (if startswith s t then Some (MS (rev t @ l) (drop (length t) s) cs) else None)"
proof (cases "advance_text t (MS l s cs)")
  case None
  have "\<not> startswith s t"
  proof
    assume "startswith s t"
    then obtain u where "s = t @ u" by (auto simp: startswith_iff)
    then have "advance_text t (MS l s cs) = Some (MS (rev t @ l) u cs)"
      by (simp add: advance_text_Some)
    with None show False by simp
  qed
  with None show ?thesis by simp
next
  case (Some s')
  then show ?thesis by (cases s') (auto simp: advance_text_Some)
qed

lemma Matches_re_escape: "Matches (re_escape t) s \<longleftrightarrow> startswith s t"
proof -
  have "Matches (re_escape t) s \<longleftrightarrow> of_option (advance_text t (MS [] s [])) \<noteq> []"
    by (simp only: Matches_iff[OF re_compile_escape] runs_literal)
  then show ?thesis by (simp add: advance_text_MS)
qed

lemma Finds_re_escape: "Finds (re_escape t) s \<longleftrightarrow> py_in t s"
proof -
  have "Finds (re_escape t) s \<longleftrightarrow>
      (\<exists>a b. s = a @ b \<and> of_option (advance_text t (MS (rev a) b [])) \<noteq> [])"
    by (simp only: Finds_iff[OF re_compile_escape] runs_literal)
  then show ?thesis
    by (auto simp: advance_text_MS py_in_iff startswith_iff split: if_splits)
qed

text \<open>Replacing nothing leaves the text as it is.\<close>

lemma scan_concat:
  "scan r l skipped s = (ms, rest) \<Longrightarrow> ms = [] \<Longrightarrow> rest = rev skipped @ s"
proof (induction r l skipped s arbitrary: ms rest rule: scan.induct)
  case (1 r l skipped s)
  show ?case
  proof (cases "match_at r l s")
    case None
    show ?thesis
    proof (cases s)
      case Nil
      with None 1(4) show ?thesis by (simp add: scan.simps[of r l skipped "[]"])
    next
      case (Cons c s')
      with None 1(4) have "scan r (c # l) (c # skipped) s' = (ms, rest)"
        by (simp add: scan.simps[of r l skipped "c # s'"])
      from 1(1)[OF None Cons this 1(5)] Cons show ?thesis by simp
    qed
  next
    case (Some m)
    with 1(4,5) show ?thesis
      by (auto simp: scan.simps[of r l skipped s] Let_def split: if_splits list.splits prod.splits)
  qed
qed


section \<open>Decomposing an outcome\<close>

text \<open>
  Membership in \<open>runs\<close>, pattern by pattern; \<open>runs_mem\<close> unfolds an outcome of a sequence into
  its intermediate states.
\<close>

lemma set_runs_Seq: "s' \<in> set (runs (RSeq a b) s) \<longleftrightarrow> (\<exists>s1 \<in> set (runs a s). s' \<in> set (runs b s1))"
  by auto

lemma set_runs_Alt: "s' \<in> set (runs (RAlt a b) s) \<longleftrightarrow> s' \<in> set (runs a s) \<or> s' \<in> set (runs b s)"
  by auto

lemma set_runs_Group: "s' \<in> set (runs (RGroup n r) s) \<longleftrightarrow> (\<exists>s1 \<in> set (runs r s). s' = capture n s s1)"
  by auto

lemma set_runs_Set:
  "s' \<in> set (runs (RSet p cs) s) \<longleftrightarrow>
   (\<exists>c. set_accepts p cs c \<and> rgt s = c # rgt s' \<and> lft s' = c # lft s \<and> caps s' = caps s)"
  by (auto simp: advance_Some)

lemma set_runs_Bol: "s' \<in> set (runs RBol s) \<longleftrightarrow> s' = s \<and> at_bol s"
  by auto

lemma set_runs_Eol: "s' \<in> set (runs REol s) \<longleftrightarrow> s' = s \<and> at_eol s"
  by auto

lemma set_runs_WordB: "s' \<in> set (runs RWordB s) \<longleftrightarrow> s' = s \<and> at_word_boundary s"
  by auto

lemmas runs_mem =
  set_runs_Seq set_runs_Alt set_runs_Group set_runs_Set set_runs_Bol set_runs_Eol set_runs_WordB

lemma bex_runs_Bol: "(\<exists>s1 \<in> set (runs RBol s). P s1) \<longleftrightarrow> at_bol s \<and> P s"
  by auto

lemma bex_runs_Eol: "(\<exists>s1 \<in> set (runs REol s). P s1) \<longleftrightarrow> at_eol s \<and> P s"
  by auto

lemma bex_runs_WordB: "(\<exists>s1 \<in> set (runs RWordB s). P s1) \<longleftrightarrow> at_word_boundary s \<and> P s"
  by auto

lemmas runs_chain = set_runs_Seq bex_runs_Bol bex_runs_Eol bex_runs_WordB
  set_runs_Bol set_runs_Eol set_runs_WordB

text \<open>The least number of characters that a pattern consumes.\<close>

fun min_len :: "re \<Rightarrow> nat" where
  "min_len (RSet p cs) = 1"
| "min_len RAny = 1"
| "min_len (RSeq a b) = min_len a + min_len b"
| "min_len (RAlt a b) = min (min_len a) (min_len b)"
| "min_len (RGroup n r) = min_len r"
| "min_len r = 0"

lemma runs_min_len: "s' \<in> set (runs r s) \<Longrightarrow> length (rgt s') + min_len r \<le> length (rgt s)"
proof (induction r arbitrary: s s')
  case (RSet p cs)
  then show ?case by (auto simp: advance_Some)
next
  case RAny
  then show ?case by (auto simp: advance_Some)
next
  case (RSeq a b)
  then obtain s1 where s1: "s1 \<in> set (runs a s)" "s' \<in> set (runs b s1)" by auto
  from RSeq.IH(1)[OF s1(1)] RSeq.IH(2)[OF s1(2)] show ?case by simp
next
  case (RAlt a b)
  then show ?case by (auto dest!: RAlt.IH)
next
  case (RGroup n r)
  then show ?case by (auto simp: capture_def dest!: RGroup.IH)
next
  case (RStar g r)
  then show ?case using runs_grow[OF RStar.prems] by auto
next
  case (RRef n)
  then show ?case using runs_grow[OF RRef.prems] by auto
next
  case (RLook p r)
  then show ?case using runs_grow[OF RLook.prems] by auto
qed (auto split: if_splits)

text \<open>A pattern without groups leaves the captures alone.\<close>

fun no_groups :: "re \<Rightarrow> bool" where
  "no_groups (RSeq a b) = (no_groups a \<and> no_groups b)"
| "no_groups (RAlt a b) = (no_groups a \<and> no_groups b)"
| "no_groups (RStar g r) = no_groups r"
| "no_groups (RGroup n r) = False"
| "no_groups (RLook p r) = no_groups r"
| "no_groups r = True"

lemma runs_caps: "s' \<in> set (runs r s) \<Longrightarrow> no_groups r \<Longrightarrow> caps s' = caps s"
proof (induction r s arbitrary: s' rule: runs.induct)
  case (2 p cs s)
  then show ?case by (auto simp: advance_Some)
next
  case (3 s)
  then show ?case by (auto simp: advance_Some)
next
  case (4 r1 r2 s)
  then obtain s1 where s1: "s1 \<in> set (runs r1 s)" "s' \<in> set (runs r2 s1)" by auto
  with 4(1)[of s1] 4(2)[of s1 s'] 4(4) show ?case by simp
next
  case (6 g r s)
  from 6(3) consider "s' = s"
    | s1 where "s1 \<in> set (runs r s)" "length (rgt s1) < length (rgt s)"
        "s' \<in> set (runs (RStar g r) s1)"
    by (auto simp: runs.simps(6)[of g r s] Let_def split: if_splits)
  then show ?case
  proof cases
    case 1
    then show ?thesis by simp
  next
    case (2 s1)
    with 6(1)[of s1] 6(2)[OF 2(1,2,3)] 6(4) show ?thesis by simp
  qed
next
  case (8 n s)
  then show ?case by (auto split: option.splits simp: advance_text_Some)
next
  case (12 p r s)
  then show ?case by (auto split: list.splits if_splits)
qed (auto split: if_splits)

lemma runs_step:
  "s' \<in> set (runs r s) \<Longrightarrow> no_groups r \<Longrightarrow>
   \<exists>w. s' = MS (rev w @ lft s) (rgt s') (caps s) \<and> rgt s = w @ rgt s'"
  using runs_grow[of s' r s] runs_caps[of s' r s] by (metis mstate.collapse)

lemma capture_MS:
  "capture n (MS l r cs) (MS (rev w @ l) r' cs') = MS (rev w @ l) r' ((n, length l, w) # cs')"
  by (simp add: capture_def consumed_def)

text \<open>A group around a pattern without groups records the text that it consumed.\<close>

lemma runs_group_step:
  assumes "s' \<in> set (runs (RGroup n r) s)" and "no_groups r"
  shows "\<exists>w. s' = MS (rev w @ lft s) (rgt s') ((n, length (lft s), w) # caps s) \<and> rgt s = w @ rgt s'"
proof -
  from assms(1) obtain s1 where s1: "s1 \<in> set (runs r s)" "s' = capture n s s1" by auto
  from runs_step[OF s1(1) assms(2)] obtain w where
    w: "s1 = MS (rev w @ lft s) (rgt s1) (caps s)" "rgt s = w @ rgt s1" by blast
  have "s' = MS (rev w @ lft s) (rgt s1) ((n, length (lft s), w) # caps s)"
    using s1(2) w(1) capture_MS[of n "lft s" "rgt s" "caps s" w "rgt s1" "caps s"]
    by (metis mstate.collapse)
  with w(2) show ?thesis by auto
qed

text \<open>Repetition of a character class: any prefix of the longest run of accepted characters.\<close>

lemma set_runs_star_class:
  "s' \<in> set (runs (RStar g (RSet p cs)) (MS l s c)) \<longleftrightarrow>
   (\<exists>w v. s = w @ v \<and> list_all (set_accepts p cs) w \<and> s' = MS (rev w @ l) v c)"
proof (induction s arbitrary: l)
  case Nil
  then show ?case by (auto simp: runs.simps(6) Let_def)
next
  case (Cons a s)
  have unfold: "s' \<in> set (runs (RStar g (RSet p cs)) (MS l (a # s) c)) \<longleftrightarrow>
      s' = MS l (a # s) c \<or>
      (set_accepts p cs a \<and> s' \<in> set (runs (RStar g (RSet p cs)) (MS (a # l) s c)))"
    by (auto simp: runs.simps(6)[of g _ "MS l (a # s) c"] Let_def)
  have "(\<exists>w v. a # s = w @ v \<and> list_all (set_accepts p cs) w \<and> s' = MS (rev w @ l) v c) \<longleftrightarrow>
      s' = MS l (a # s) c \<or>
      (set_accepts p cs a \<and> (\<exists>w v. s = w @ v \<and> list_all (set_accepts p cs) w \<and>
         s' = MS (rev w @ a # l) v c))" (is "?L \<longleftrightarrow> ?R")
  proof
    assume ?L
    then obtain w v where w: "a # s = w @ v" "list_all (set_accepts p cs) w" "s' = MS (rev w @ l) v c"
      by blast
    then show ?R by (cases w) auto
  next
    assume ?R
    then show ?L
    proof
      assume "s' = MS l (a # s) c"
      then show ?L by (intro exI[of _ "[]"] exI[of _ "a # s"]) simp
    next
      assume "set_accepts p cs a \<and> (\<exists>w v. s = w @ v \<and> list_all (set_accepts p cs) w \<and>
         s' = MS (rev w @ a # l) v c)"
      then obtain w v where "set_accepts p cs a" "s = w @ v" "list_all (set_accepts p cs) w"
        "s' = MS (rev w @ a # l) v c" by blast
      then show ?L by (intro exI[of _ "a # w"] exI[of _ v]) simp
    qed
  qed
  with unfold Cons.IH[of "a # l"] show ?case by simp
qed

text \<open>The greedy repetition of a class tries the longest run first.\<close>

lemma hd_runs_star_class:
  "\<exists>rest. runs (RStar True (RSet p cs)) (MS l s c) =
     MS (rev (takeWhile (set_accepts p cs) s) @ l) (dropWhile (set_accepts p cs) s) c # rest"
proof (induction s arbitrary: l)
  case Nil
  then show ?case by (simp add: runs.simps(6) Let_def)
next
  case (Cons a s)
  obtain rest where "runs (RStar True (RSet p cs)) (MS (a # l) s c) =
     MS (rev (takeWhile (set_accepts p cs) s) @ a # l) (dropWhile (set_accepts p cs) s) c # rest"
    using Cons.IH by blast
  then show ?case
    by (simp add: runs.simps(6)[of True _ "MS l (a # s) c"] Let_def)
qed

lemma grp_match_of: "n \<noteq> 0 \<Longrightarrow> map_of (caps s') n = Some (b, t) \<Longrightarrow> grp (match_of l s s') n = t"
  by (simp add: grp_def group_def match_of_def)

text \<open>
  Symbolic evaluation of a pattern: \<open>simp only: runs_eval\<close> turns ``some outcome of the pattern
  satisfies \<open>P\<close>'' into a statement about how the subject is cut.
\<close>

lemma bex_runs_Seq: "(\<exists>s1 \<in> set (runs (RSeq a b) s). P s1) \<longleftrightarrow> (\<exists>s1 \<in> set (runs a s). \<exists>s2 \<in> set (runs b s1). P s2)"
  by auto

lemma bex_runs_Alt: "(\<exists>s1 \<in> set (runs (RAlt a b) s). P s1) \<longleftrightarrow>
    (\<exists>s1 \<in> set (runs a s). P s1) \<or> (\<exists>s1 \<in> set (runs b s). P s1)"
  by auto

lemma bex_runs_Group: "(\<exists>s1 \<in> set (runs (RGroup n r) s). P s1) \<longleftrightarrow> (\<exists>s1 \<in> set (runs r s). P (capture n s s1))"
  by auto

lemma bex_runs_Set: "(\<exists>s1 \<in> set (runs (RSet p cs) (MS l s c)). P s1) \<longleftrightarrow>
    (\<exists>a v. s = a # v \<and> set_accepts p cs a \<and> P (MS (a # l) v c))"
  by (cases s) auto

lemma bex_runs_Any: "(\<exists>s1 \<in> set (runs RAny (MS l s c)). P s1) \<longleftrightarrow>
    (\<exists>a v. s = a # v \<and> a \<noteq> newline_char \<and> P (MS (a # l) v c))"
  by (cases s) auto

lemma bex_runs_star_class: "(\<exists>s1 \<in> set (runs (RStar g (RSet p cs)) (MS l s c)). P s1) \<longleftrightarrow>
    (\<exists>w v. s = w @ v \<and> list_all (set_accepts p cs) w \<and> P (MS (rev w @ l) v c))"
  unfolding Bex_def set_runs_star_class by blast

lemma runs_Any_as_Set: "runs RAny s = runs (RSet False [CChar newline_char]) s"
proof -
  have "(\<lambda>c. c \<noteq> newline_char) = set_accepts False [CChar newline_char]"
    by (rule ext) (simp add: set_accepts_def)
  then show ?thesis by simp
qed

lemma runs_star_cong:
  assumes "\<And>s. runs a s = runs b s"
  shows "runs (RStar g a) s = runs (RStar g b) s"
proof (induction "length (rgt s)" arbitrary: s rule: less_induct)
  case less
  have "map (\<lambda>s'. if length (rgt s') < length (rgt s) then runs (RStar g a) s' else []) (runs a s) =
      map (\<lambda>s'. if length (rgt s') < length (rgt s) then runs (RStar g b) s' else []) (runs b s)"
    unfolding assms by (rule map_cong[OF refl]) (use less in simp)
  then show ?case unfolding runs.simps(6)[of g a s] runs.simps(6)[of g b s] by presburger
qed

lemma not_newline_class: "list_all (set_accepts False [CChar newline_char]) w \<longleftrightarrow> newline_char \<notin> set w"
  by (induction w) (auto simp: set_accepts_def)

lemma bex_runs_star_any: "(\<exists>s1 \<in> set (runs (RStar g RAny) (MS l s c)). P s1) \<longleftrightarrow>
    (\<exists>w v. s = w @ v \<and> newline_char \<notin> set w \<and> P (MS (rev w @ l) v c))"
  unfolding runs_star_cong[of RAny "RSet False [CChar newline_char]", OF runs_Any_as_Set] bex_runs_star_class
    not_newline_class by (rule refl)

lemma bex_runs_atoms:
  "(\<exists>s1 \<in> set (runs REps s). P s1) \<longleftrightarrow> P s"
  "(\<exists>s1 \<in> set (runs RBol s). P s1) \<longleftrightarrow> at_bol s \<and> P s"
  "(\<exists>s1 \<in> set (runs REol s). P s1) \<longleftrightarrow> at_eol s \<and> P s"
  "(\<exists>s1 \<in> set (runs RWordB s). P s1) \<longleftrightarrow> at_word_boundary s \<and> P s"
  by auto

lemmas runs_bex = bex_runs_Seq bex_runs_Alt bex_runs_Group bex_runs_Set bex_runs_Any bex_runs_star_class
  bex_runs_star_any bex_runs_atoms

lemma runs_nonempty: "runs r s \<noteq> [] \<longleftrightarrow> (\<exists>s1 \<in> set (runs r s). True)"
  by (cases "runs r s") auto

lemma set_runs_bex: "s' \<in> set (runs r s) \<longleftrightarrow> (\<exists>s1 \<in> set (runs r s). s1 = s')"
  by auto


lemmas runs_eval = runs_bex capture_def mstate.sel consumed_def at_bol_def at_eol_def

lemma Match_SomeD:
  "Match p s = Some m \<Longrightarrow> re_compile p = Some r \<Longrightarrow>
   \<exists>s1 \<in> set (runs r (MS [] s [])). m = match_of [] s s1"
  by (auto elim: Match_SomeE)

lemma Matches_bex:
  "re_compile p = Some r \<Longrightarrow> Matches p s \<longleftrightarrow> (\<exists>s1 \<in> set (runs r (MS [] s [])). True)"
  by (simp only: Matches_iff runs_nonempty)

lemma group_match_of [simp]:
  "group (match_of l s (MS a b c)) n = (if n = 0 then Some (consumed (MS l s []) (MS a b c)) else map_option snd (map_of c n))"
  by (simp add: group_def match_of_def)

lemma grp_match_of_MS [simp]:
  "n \<noteq> 0 \<Longrightarrow> grp (match_of l s (MS a b c)) n = (case map_of c n of Some (i, t) \<Rightarrow> t | None \<Rightarrow> [])"
  by (auto simp: grp_def split: option.splits)

text \<open>On text without a newline, \<open>(.*)$\<close> takes everything.\<close>

lemma dot_star_rest [simp]:
  "newline_char \<notin> set t \<Longrightarrow>
   \<exists>w v. t = w @ v \<and> newline_char \<notin> set w \<and> (v = [] \<or> v = [newline_char])"
  by (intro exI[of _ t] exI[of _ "[]"]) simp

text \<open>
  A pattern that ends in a group and \<open>$\<close>: the group is shorter than the text by at least the length
  that the rest of the pattern needs.
\<close>

fun last_group :: "nat \<Rightarrow> re \<Rightarrow> nat option" where
  "last_group n (RSeq a b) =
     (case a of
        RGroup m r \<Rightarrow> if b = REol then (if m = n then Some 0 else None)
                      else map_option (\<lambda>k. min_len a + k) (last_group n b)
      | _ \<Rightarrow> map_option (\<lambda>k. min_len a + k) (last_group n b))"
| "last_group n r = None"

lemma last_group_bound:
  "last_group n r = Some k \<Longrightarrow> s' \<in> set (runs r s) \<Longrightarrow>
   \<exists>b t. map_of (caps s') n = Some (b, t) \<and> length t + k \<le> length (rgt s)"
proof (induction r arbitrary: s s' k)
  case (RSeq a b)
  then obtain s1 where s1: "s1 \<in> set (runs a s)" "s' \<in> set (runs b s1)" by auto
  show ?case
  proof (cases "\<exists>m r. a = RGroup m r \<and> b = REol")
    case True
    then obtain m r where ab: "a = RGroup m r" "b = REol" by blast
    with RSeq.prems(1) have m: "m = n" "k = 0" by (auto split: if_splits)
    from s1 ab m obtain s0 where s0: "s0 \<in> set (runs r s)" "s' = capture n s s0" by (auto split: if_splits)
    from runs_consumed[OF s0(1)] have "length (consumed s s0) \<le> length (rgt s)" by (metis le_add1 length_append)
    with s0(2) m(2) show ?thesis by (simp add: capture_def)
  next
    case False
    with RSeq.prems(1) obtain k' where k': "last_group n b = Some k'" "k = min_len a + k'"
      by (cases a) (auto split: if_splits)
    from RSeq.IH(2)[OF k'(1) s1(2)] runs_min_len[OF s1(1)] k'(2) show ?thesis by fastforce
  qed
qed simp_all

definition ends_in_group :: "string \<Rightarrow> nat \<Rightarrow> bool" where
  "ends_in_group p n =
     (case re_compile p of None \<Rightarrow> False
      | Some r \<Rightarrow> (case last_group n r of None \<Rightarrow> False | Some k \<Rightarrow> 0 < k \<and> 0 < n))"

lemma ends_in_group_shorter:
  "ends_in_group p n \<Longrightarrow> Match p s = Some m \<Longrightarrow> length (grp m n) < length s"
proof -
  assume "ends_in_group p n" and m: "Match p s = Some m"
  then obtain r k where r: "re_compile p = Some r" "last_group n r = Some k" "0 < k" "0 < n"
    by (auto simp: ends_in_group_def split: option.splits)
  from Match_SomeE[OF m r(1)] obtain s' where s': "s' \<in> set (runs r (MS [] s []))" "m = match_of [] s s'" by blast
  from last_group_bound[OF r(2) s'(1)] r(3,4) s'(2) show ?thesis by (auto simp: grp_match_of)
qed

lemma match_min_len:
  assumes "re_compile p = Some r" and "Match p s = Some m"
  shows "min_len r \<le> length (grp m 0)"
proof -
  from Match_SomeE[OF assms(2,1)] obtain s' where s': "s' \<in> set (runs r (MS [] s []))" "m = match_of [] s s'" by blast
  from runs_min_len[OF s'(1)] runs_consumed[OF s'(1)] s'(2) show ?thesis
    by (metis (no_types, lifting) add_le_cancel_left add.commute grp_def group_match_of length_append mstate.collapse mstate.sel(2) option.case(2))
qed

text \<open>
  A pattern that begins with a group: when the rest of it needs a character, the group ends inside
  the text.
\<close>

definition group_then_more :: "string \<Rightarrow> bool" where
  "group_then_more p =
     (case re_compile p of
        Some (RSeq RBol (RSeq (RGroup n a) b)) \<Rightarrow> n = 1 \<and> 0 < min_len b \<and> no_groups b
      | _ \<Rightarrow> False)"

lemma group_then_more_shorter:
  assumes "group_then_more p" and "Match p s = Some m"
  shows "length (grp m 1) < length s"
proof -
  from assms(1) obtain a b where r: "re_compile p = Some (RSeq RBol (RSeq (RGroup 1 a) b))" "0 < min_len b" "no_groups b"
    by (auto simp: group_then_more_def split: option.splits re.splits)
  from Match_SomeE[OF assms(2) r(1)] obtain s' where
    s': "s' \<in> set (runs (RSeq RBol (RSeq (RGroup 1 a) b)) (MS [] s []))" "m = match_of [] s s'" by blast
  then obtain s1 where s1: "s1 \<in> set (runs a (MS [] s []))" "s' \<in> set (runs b (capture 1 (MS [] s []) s1))"
    by (auto split: if_splits)
  have caps: "map_of (caps s') 1 = Some (0, consumed (MS [] s []) s1)"
    using runs_caps[OF s1(2) r(3)] by (simp add: capture_def)
  have "rgt (capture 1 (MS [] s []) s1) = rgt s1" by (simp add: capture_def)
  then have "min_len b \<le> length (rgt s1)" using runs_min_len[OF s1(2)] by simp
  with r(2) have "0 < length (rgt s1)" by linarith
  moreover have "s = consumed (MS [] s []) s1 @ rgt s1" using runs_consumed[OF s1(1)] by simp
  ultimately have "length (consumed (MS [] s []) s1) < length s"
    by (metis length_append less_add_same_cancel1)
  with caps s'(2) show ?thesis by (simp add: grp_match_of)
qed

section \<open>Groups with finitely many texts\<close>

text \<open>The texts of a pattern made of characters, sequences and alternatives.\<close>

fun texts :: "re \<Rightarrow> string list option" where
  "texts (RSet p cs) = (case cs of [CChar c] \<Rightarrow> if p then Some [[c]] else None | _ \<Rightarrow> None)"
| "texts (RSeq a b) =
     (case texts a of None \<Rightarrow> None
      | Some us \<Rightarrow> (case texts b of None \<Rightarrow> None | Some vs \<Rightarrow> Some (concat (map (\<lambda>u. map ((@) u) vs) us))))"
| "texts (RAlt a b) =
     (case texts a of None \<Rightarrow> None
      | Some us \<Rightarrow> (case texts b of None \<Rightarrow> None | Some vs \<Rightarrow> Some (us @ vs)))"
| "texts r = None"

lemma consumed_of: "lft s' = rev w @ lft s \<Longrightarrow> consumed s s' = w"
  by (simp add: consumed_def)

lemma consumed_trans:
  "s1 \<in> set (runs a s) \<Longrightarrow> s2 \<in> set (runs b s1) \<Longrightarrow> consumed s s2 = consumed s s1 @ consumed s1 s2"
  using runs_grow[of s1 a s] runs_grow[of s2 b s1] by (auto simp: consumed_of)

lemma texts_consumed: "texts r = Some ts \<Longrightarrow> s' \<in> set (runs r s) \<Longrightarrow> consumed s s' \<in> set ts"
proof (induction r arbitrary: s s' ts)
  case (RSet p cs)
  then show ?case
    by (auto simp: advance_Some set_accepts_def consumed_def split: list.splits cset.splits if_splits)
next
  case (RSeq a b)
  from RSeq.prems(2) obtain s1 where s1: "s1 \<in> set (runs a s)" "s' \<in> set (runs b s1)" by auto
  from RSeq.prems(1) obtain us vs where "texts a = Some us" "texts b = Some vs"
    "ts = concat (map (\<lambda>u. map ((@) u) vs) us)" by (auto split: option.splits)
  with RSeq.IH(1)[OF _ s1(1)] RSeq.IH(2)[OF _ s1(2)] show ?case by (auto simp: consumed_trans[OF s1])
next
  case (RAlt a b)
  then show ?case by (auto split: option.splits)
qed simp_all

fun free_of :: "nat \<Rightarrow> re \<Rightarrow> bool" where
  "free_of n (RSeq a b) = (free_of n a \<and> free_of n b)"
| "free_of n (RAlt a b) = (free_of n a \<and> free_of n b)"
| "free_of n (RStar g r) = free_of n r"
| "free_of n (RGroup m r) = (m \<noteq> n \<and> free_of n r)"
| "free_of n (RLook p r) = free_of n r"
| "free_of n r = True"

lemma runs_free: "s' \<in> set (runs r s) \<Longrightarrow> free_of n r \<Longrightarrow> map_of (caps s') n = map_of (caps s) n"
proof (induction r s arbitrary: s' rule: runs.induct)
  case (4 r1 r2 s)
  then obtain s1 where "s1 \<in> set (runs r1 s)" "s' \<in> set (runs r2 s1)" by auto
  with 4 show ?case by simp
next
  case (6 g r s)
  from 6(3) consider "s' = s"
    | s1 where "s1 \<in> set (runs r s)" "length (rgt s1) < length (rgt s)" "s' \<in> set (runs (RStar g r) s1)"
    by (auto simp: runs.simps(6)[of g r s] Let_def split: if_splits)
  then show ?case using 6(1,2,4) by cases auto
next
  case (7 m r s)
  then show ?case by (auto simp: capture_def)
next
  case (8 m s)
  then show ?case by (auto simp: advance_text_Some split: option.splits)
next
  case (12 p r s)
  show ?case
  proof (cases "runs r s")
    case (Cons a as)
    then show ?thesis using 12(1)[of a] 12(2,3) by (auto split: if_splits)
  qed (use 12 in \<open>auto split: if_splits\<close>)
qed (auto simp: advance_Some split: if_splits)

text \<open>The texts that group \<open>n\<close> of a sequence can take; the group occurs in every match.\<close>

fun group_texts :: "nat \<Rightarrow> re \<Rightarrow> string list option" where
  "group_texts n (RSeq a b) =
     (case a of
        RGroup m r \<Rightarrow> if m = n \<and> free_of n b then texts r else group_texts n b
      | _ \<Rightarrow> group_texts n b)"
| "group_texts n r = None"

lemma group_texts_caps:
  "group_texts n r = Some ts \<Longrightarrow> s' \<in> set (runs r s) \<Longrightarrow> \<exists>b t. map_of (caps s') n = Some (b, t) \<and> t \<in> set ts"
proof (induction r arbitrary: s s')
  case (RSeq a b)
  from RSeq.prems(2) obtain s1 where s1: "s1 \<in> set (runs a s)" "s' \<in> set (runs b s1)" by auto
  show ?case
  proof (cases "\<exists>r. a = RGroup n r \<and> free_of n b")
    case True
    then obtain r where r: "a = RGroup n r" "free_of n b" by blast
    with s1(1) obtain s0 where s0: "s0 \<in> set (runs r s)" "s1 = capture n s s0" by auto
    have "texts r = Some ts" using RSeq.prems(1) r by simp
    from texts_consumed[OF this s0(1)] runs_free[OF s1(2) r(2)] s0(2) show ?thesis
      by (simp add: capture_def)
  next
    case False
    then have "group_texts n b = Some ts" using RSeq.prems(1) by (auto split: re.splits if_splits)
    from RSeq.IH(2)[OF this s1(2)] show ?thesis .
  qed
qed simp_all

lemma match_at_group_texts:
  assumes "match_at r l s = Some m" and "group_texts n r = Some ts" and "n \<noteq> 0"
  shows "grp m n \<in> set ts"
proof -
  obtain s' where s': "rmatch r Some (MS l s []) = Some s'" "m = match_of l s s'"
    using assms(1) by (auto simp: match_at_def)
  from group_texts_caps[OF assms(2) rmatch_Some_runs[OF s'(1)]] s'(2) assms(3) show ?thesis
    by (auto simp: grp_match_of)
qed

lemma Match_group_texts:
  "Match p s = Some m \<Longrightarrow> re_compile p = Some r \<Longrightarrow> group_texts n r = Some ts \<Longrightarrow> n \<noteq> 0 \<Longrightarrow> grp m n \<in> set ts"
  by (auto simp: Match_def intro: match_at_group_texts)

lemma scan_match_at:
  "m \<in> snd ` set (fst (scan r l skipped s)) \<Longrightarrow> \<exists>l' s'. match_at r l' s' = Some m"
proof (induction r l skipped s rule: scan.induct)
  case (1 r l skipped s)
  show ?case
  proof (cases "match_at r l s")
    case None
    with 1(1)[OF None] 1(4) show ?thesis
      by (subst (asm) scan.simps) (auto split: list.splits)
  next
    case (Some m')
    show ?thesis
    proof (cases "m = m'")
      case False
      with 1(2)[OF Some] 1(3)[OF Some] 1(4) Some show ?thesis
        by (subst (asm) (2) scan.simps) (auto simp: Let_def split: if_splits list.splits prod.splits)
    qed (use Some in blast)
  qed
qed

lemma finditer_group_texts:
  "m \<in> set (finditer p s) \<Longrightarrow> re_compile p = Some r \<Longrightarrow> group_texts n r = Some ts \<Longrightarrow> n \<noteq> 0 \<Longrightarrow> grp m n \<in> set ts"
  by (auto simp: finditer_def finditer_re_def intro: match_at_group_texts dest!: scan_match_at[OF imageI])

text \<open>A pattern that ends with a fixed character: the character occurs in the text.\<close>

fun last_char :: "re \<Rightarrow> char option" where
  "last_char (RSet p cs) = (case cs of [CChar c] \<Rightarrow> if p then Some c else None | _ \<Rightarrow> None)"
| "last_char (RSeq a b) = last_char b"
| "last_char (RGroup n r) = last_char r"
| "last_char r = None"

lemma last_char_lft: "last_char r = Some c \<Longrightarrow> s' \<in> set (runs r s) \<Longrightarrow> \<exists>w. lft s' = c # w"
proof (induction r arbitrary: s s')
  case (RSet p cs)
  then show ?case by (auto simp: advance_Some set_accepts_def split: list.splits cset.splits if_splits)
next
  case (RGroup n r)
  then show ?case by (fastforce simp: capture_def)
qed auto

definition ends_with_char :: "string \<Rightarrow> char \<Rightarrow> bool" where
  "ends_with_char p c = (case re_compile p of None \<Rightarrow> False | Some r \<Rightarrow> last_char r = Some c)"

lemma match_at_last_char:
  assumes "match_at r l s = Some m" and "last_char r = Some c"
  shows "c \<in> set (m_pre m @ m_text m)"
proof -
  obtain s' where s': "rmatch r Some (MS l s []) = Some s'" "m = match_of l s s'"
    using assms(1) by (auto simp: match_at_def)
  from rmatch_Some_runs[OF s'(1)] last_char_lft[OF assms(2)] obtain w where w: "lft s' = c # w" by blast
  from runs_grow[OF rmatch_Some_runs[OF s'(1)]] obtain v where "lft s' = rev v @ l" by auto
  with s'(2) have "m_pre m @ m_text m = rev (lft s')" by (simp add: match_of_def consumed_of)
  with w show ?thesis by simp
qed

lemma Match_last_char: "ends_with_char p c \<Longrightarrow> Match p s = Some m \<Longrightarrow> c \<in> set s"
  using match_at_last_char[of _ "[]" s m c] Match_split[of p s m]
  by (auto simp: Match_def ends_with_char_def split: option.splits)

lemma search_at_match_at: "search_at r l s = Some m \<Longrightarrow> \<exists>l' s'. match_at r l' s' = Some m"
  by (induction r l s rule: search_at.induct) (auto split: option.splits)

lemma Search_last_char: "ends_with_char p c \<Longrightarrow> Search p s = Some m \<Longrightarrow> c \<in> set s"
  using match_at_last_char[of _ _ _ m c] Search_split[of p s m]
  by (fastforce simp: Search_def ends_with_char_def split: option.splits dest!: search_at_match_at)

text \<open>A match found by \<open>Search\<close> is as long as the pattern needs.\<close>

definition needs :: "string \<Rightarrow> nat \<Rightarrow> bool" where
  "needs p n = (case re_compile p of None \<Rightarrow> False | Some r \<Rightarrow> n \<le> min_len r)"

lemma Search_length: "needs p n \<Longrightarrow> Search p s = Some m \<Longrightarrow> n \<le> length (m_text m)"
proof -
  assume "needs p n" and s: "Search p s = Some m"
  then obtain r where r: "re_compile p = Some r" "n \<le> min_len r" by (auto simp: needs_def split: option.splits)
  from s r(1) have "search_at r [] s = Some m" by (simp add: Search_def)
  from search_at_match_at[OF this] obtain l' s1 where "match_at r l' s1 = Some m" by blast
  then obtain s' where s': "rmatch r Some (MS l' s1 []) = Some s'" "m = match_of l' s1 s'"
    by (auto simp: match_at_def)
  from runs_min_len[OF rmatch_Some_runs[OF s'(1)]] runs_consumed[OF rmatch_Some_runs[OF s'(1)]] s'(2) r(2)
  show ?thesis by (metis add_le_cancel_left add.commute length_append match_of_def mstate.sel(2) order_trans pmatch.sel(2))
qed

end
