(* ===== verification/Lint_State.thy ===== *)
theory Lint_State
  imports Tables Regex "HOL-Library.List_Lexorder"
begin

text \<open>
  The state that outlives a file: the object \<open>_cpplint_state\<close> of class \<open>_CppLintState\<close> with
  its filters and error counts, and the other module-level variables.  A \<^emph>\<open>world\<close> bundles
  all of them with the text written to the two output streams.

  A Python \<open>set\<close> of file extensions is a list without duplicates, in the order in which the
  set would be iterated.
\<close>

record lint_state =
  verbose_level :: int
  error_count :: int
  filters :: "string list"
  filters_backup :: "string list"
  counting :: string
  errors_by_category :: "(string \<times> int) list"
  quiet :: bool
  output_format :: string
  junit_errors :: "string list"
  junit_failures :: "(string \<times> lineno \<times> string \<times> string \<times> int) list"

record world =
  cpplint_state :: lint_state
  error_suppressions :: "string option \<rightharpoonup> int set"
  global_error_suppressions :: "string \<rightharpoonup> bool"
  valid_extensions :: "string list"
  hpp_headers :: "string list"
  root_flag :: "string option"
  repository_flag :: "string option"
  excludes :: "string list"
  quiet_flag :: bool
  line_length :: int
  stdout :: string
  stderr :: string

definition CppLintState_init :: lint_state where
  "CppLintState_init =
     \<lparr>verbose_level = 1, error_count = 0, filters = DEFAULT_FILTERS,
      filters_backup = DEFAULT_FILTERS, counting = ''total'', errors_by_category = [],
      quiet = False, output_format = ''emacs'', junit_errors = [], junit_failures = []\<rparr>"

text \<open>The module as it is after it has been loaded.\<close>

definition initial_world :: world where
  "initial_world =
     \<lparr>cpplint_state = CppLintState_init, error_suppressions = Map.empty,
      global_error_suppressions = Map.empty, valid_extensions = [], hpp_headers = [],
      root_flag = None, repository_flag = None, excludes = [], quiet_flag = False,
      line_length = 80, stdout = [], stderr = []\<rparr>"

section \<open>Setters\<close>

definition SetOutputFormat :: "string \<Rightarrow> lint_state \<Rightarrow> lint_state" where
  "SetOutputFormat fmt st = st\<lparr>output_format := fmt\<rparr>"

definition SetQuiet :: "bool \<Rightarrow> lint_state \<Rightarrow> bool \<times> lint_state" where
  "SetQuiet q st = (let last_quiet = quiet st in (last_quiet, st\<lparr>quiet := q\<rparr>))"

definition SetVerboseLevel :: "int \<Rightarrow> lint_state \<Rightarrow> int \<times> lint_state" where
  "SetVerboseLevel level st =
     (let last_verbose_level = verbose_level st in (last_verbose_level, st\<lparr>verbose_level := level\<rparr>))"

definition SetCountingStyle :: "string \<Rightarrow> lint_state \<Rightarrow> lint_state" where
  "SetCountingStyle counting_style st = st\<lparr>counting := counting_style\<rparr>"

section \<open>Filters\<close>

definition signed_filter :: "string \<Rightarrow> bool" where
  "signed_filter filt = (startswith filt ''+'' \<or> startswith filt ''-'')"

text \<open>
  \<open>AddFilters\<close> first appends the stripped non-empty pieces and then complains about the first
  filter without a sign; the filters stay appended when the error is raised.
\<close>

definition AddFilters :: "string \<Rightarrow> lint_state \<Rightarrow> lint_state py" where
  "AddFilters fs st =
     (let clean = filter (\<lambda>f. f \<noteq> []) (map py_strip (py_split fs '',''));
          st' = st\<lparr>filters := filters st @ clean\<rparr>
      in case find (\<lambda>f. \<not> signed_filter f) (filters st') of
           Some filt \<Rightarrow>
             Inl (ValueError (''Every filter in --filters must start with + or - ('' @ filt
                              @ '' does not)''))
         | None \<Rightarrow> Inr st')"

definition SetFilters :: "string \<Rightarrow> lint_state \<Rightarrow> lint_state py" where
  "SetFilters fs st = AddFilters fs (st\<lparr>filters := DEFAULT_FILTERS\<rparr>)"

definition BackupFilters :: "lint_state \<Rightarrow> lint_state" where
  "BackupFilters st = st\<lparr>filters_backup := filters st\<rparr>"

definition RestoreFilters :: "lint_state \<Rightarrow> lint_state" where
  "RestoreFilters st = st\<lparr>filters := filters_backup st\<rparr>"

section \<open>Error counts\<close>

definition ResetErrorCounts :: "lint_state \<Rightarrow> lint_state" where
  "ResetErrorCounts st = st\<lparr>error_count := 0, errors_by_category := []\<rparr>"

definition bump_category :: "string \<Rightarrow> (string \<times> int) list \<Rightarrow> (string \<times> int) list" where
  "bump_category category m =
     (let m' = (if map_of m category = None then AList.update category 0 m else m)
      in AList.update category (the (map_of m' category) + 1) m')"

definition IncrementErrorCount :: "string \<Rightarrow> lint_state \<Rightarrow> lint_state" where
  "IncrementErrorCount category st =
     (let st' = st\<lparr>error_count := error_count st + 1\<rparr>
      in if counting st' \<in> {''toplevel'', ''detailed''} then
           (let category' = (if counting st' \<noteq> ''detailed'' then hd (py_split category ''/'')
                             else category)
            in st'\<lparr>errors_by_category := bump_category category' (errors_by_category st')\<rparr>)
         else st')"

section \<open>Printing\<close>

definition PrintInfo :: "string \<Rightarrow> world \<Rightarrow> world" where
  "PrintInfo message w =
     (if \<not> quiet_flag w \<and> output_format (cpplint_state w) \<noteq> ''junit''
      then w\<lparr>stdout := stdout w @ message\<rparr> else w)"

definition PrintError :: "string \<Rightarrow> world \<Rightarrow> world" where
  "PrintError message w =
     (if output_format (cpplint_state w) = ''junit''
      then w\<lparr>cpplint_state := (cpplint_state w)
               \<lparr>junit_errors := junit_errors (cpplint_state w) @ [message]\<rparr>\<rparr>
      else w\<lparr>stderr := stderr w @ message\<rparr>)"

definition AddJUnitFailure ::
  "string \<Rightarrow> lineno \<Rightarrow> string \<Rightarrow> string \<Rightarrow> int \<Rightarrow> lint_state \<Rightarrow> lint_state" where
  "AddJUnitFailure filename linenum message category confidence st =
     st\<lparr>junit_failures :=
          junit_failures st @ [(filename, linenum, message, category, confidence)]\<rparr>"

definition PrintErrorCounts :: "world \<Rightarrow> world" where
  "PrintErrorCounts w =
     (let w1 = foldl (\<lambda>w (category, n).
                  PrintInfo (''Category '' @ [CHR 0x27] @ category @ [CHR 0x27] @ '' errors found: ''
                             @ show_int n @ [newline_char]) w)
                w (sort_key fst (errors_by_category (cpplint_state w)))
      in if error_count (cpplint_state w1) > 0
         then PrintInfo (''Total errors found: '' @ show_int (error_count (cpplint_state w1))
                         @ [newline_char]) w1
         else w1)"

section \<open>The module-level wrappers\<close>

definition on_state :: "(lint_state \<Rightarrow> lint_state) \<Rightarrow> world \<Rightarrow> world" where
  "on_state f w = w\<lparr>cpplint_state := f (cpplint_state w)\<rparr>"

definition OutputFormat_global :: "world \<Rightarrow> string" where
  "OutputFormat_global w = output_format (cpplint_state w)"

definition SetOutputFormat_global :: "string \<Rightarrow> world \<Rightarrow> world" where
  "SetOutputFormat_global fmt = on_state (SetOutputFormat fmt)"

definition Quiet_global :: "world \<Rightarrow> bool" where
  "Quiet_global w = quiet (cpplint_state w)"

definition SetQuiet_global :: "bool \<Rightarrow> world \<Rightarrow> bool \<times> world" where
  "SetQuiet_global q w =
     (let (last_quiet, st) = SetQuiet q (cpplint_state w) in (last_quiet, w\<lparr>cpplint_state := st\<rparr>))"

definition VerboseLevel_global :: "world \<Rightarrow> int" where
  "VerboseLevel_global w = verbose_level (cpplint_state w)"

definition SetVerboseLevel_global :: "int \<Rightarrow> world \<Rightarrow> int \<times> world" where
  "SetVerboseLevel_global level w =
     (let (last_level, st) = SetVerboseLevel level (cpplint_state w)
      in (last_level, w\<lparr>cpplint_state := st\<rparr>))"

definition SetCountingStyle_global :: "string \<Rightarrow> world \<Rightarrow> world" where
  "SetCountingStyle_global style = on_state (SetCountingStyle style)"

definition Filters_global :: "world \<Rightarrow> string list" where
  "Filters_global w = filters (cpplint_state w)"

definition SetFilters_global :: "string \<Rightarrow> world \<Rightarrow> world py" where
  "SetFilters_global fs w =
     py_bind (SetFilters fs (cpplint_state w)) (\<lambda>st. Inr (w\<lparr>cpplint_state := st\<rparr>))"

definition AddFilters_global :: "string \<Rightarrow> world \<Rightarrow> world py" where
  "AddFilters_global fs w =
     py_bind (AddFilters fs (cpplint_state w)) (\<lambda>st. Inr (w\<lparr>cpplint_state := st\<rparr>))"

definition BackupFilters_global :: "world \<Rightarrow> world" where
  "BackupFilters_global = on_state BackupFilters"

definition RestoreFilters_global :: "world \<Rightarrow> world" where
  "RestoreFilters_global = on_state RestoreFilters"


section \<open>What the operations guarantee\<close>

definition filters_ok :: "lint_state \<Rightarrow> bool" where
  "filters_ok st \<longleftrightarrow> list_all signed_filter (filters st)"

lemma filters_ok_init: "filters_ok CppLintState_init"
  by (simp add: filters_ok_def CppLintState_init_def DEFAULT_FILTERS_def signed_filter_def)

lemma AddFilters_ok: "AddFilters fs st = Inr st' \<Longrightarrow> filters_ok st'"
  by (auto simp: AddFilters_def Let_def filters_ok_def find_None_iff list_all_iff
      split: option.splits)

lemma AddFilters_appends:
  "AddFilters fs st = Inr st' \<Longrightarrow>
   st' = st\<lparr>filters := filters st @ filter (\<lambda>f. f \<noteq> []) (map py_strip (py_split fs '',''))\<rparr>"
  by (auto simp: AddFilters_def Let_def split: option.splits)

lemma SetFilters_ok: "SetFilters fs st = Inr st' \<Longrightarrow> filters_ok st'"
  by (auto simp: SetFilters_def dest: AddFilters_ok)

text \<open>The key under which an error is counted.\<close>

definition count_key :: "string \<Rightarrow> string \<Rightarrow> string" where
  "count_key style category = (if style = ''detailed'' then category else hd (py_split category ''/''))"

lemma map_of_AList_update: "map_of (AList.update k v m) = (map_of m)(k \<mapsto> v)"
  by (rule update_conv')

lemma bump_category_lookup:
  "map_of (bump_category c m) k =
     (if k = c then Some (case map_of m c of None \<Rightarrow> 1 | Some n \<Rightarrow> n + 1) else map_of m k)"
  by (auto simp: bump_category_def Let_def map_of_AList_update split: option.splits)

text \<open>Counting a sequence of categories one by one counts the occurrences of each key.\<close>

lemma IncrementErrorCount_fields [simp]:
  "counting (IncrementErrorCount c st) = counting st"
  "error_count (IncrementErrorCount c st) = error_count st + 1"
  "filters (IncrementErrorCount c st) = filters st"
  "filters_backup (IncrementErrorCount c st) = filters_backup st"
  "verbose_level (IncrementErrorCount c st) = verbose_level st"
  "output_format (IncrementErrorCount c st) = output_format st"
  "quiet (IncrementErrorCount c st) = quiet st"
  by (auto simp: IncrementErrorCount_def Let_def)

lemma IncrementErrorCount_categories:
  "counting st \<in> {''toplevel'', ''detailed''} \<Longrightarrow>
   errors_by_category (IncrementErrorCount c st) =
   bump_category (count_key (counting st) c) (errors_by_category st)"
  by (auto simp: IncrementErrorCount_def Let_def count_key_def)

definition lookup_count :: "(string \<times> int) list \<Rightarrow> string \<Rightarrow> int" where
  "lookup_count m k = (case map_of m k of None \<Rightarrow> 0 | Some n \<Rightarrow> n)"

lemma lookup_count_bump:
  "lookup_count (bump_category c m) k = lookup_count m k + (if k = c then 1 else 0)"
  by (auto simp: lookup_count_def bump_category_lookup split: option.splits)

lemma fold_IncrementErrorCount:
  assumes "counting st \<in> {''toplevel'', ''detailed''}"
  shows "error_count (fold IncrementErrorCount cs st) = error_count st + int (length cs)"
    and "lookup_count (errors_by_category (fold IncrementErrorCount cs st)) k =
         lookup_count (errors_by_category st) k
         + int (length (filter (\<lambda>c. count_key (counting st) c = k) cs))"
  using assms
proof (induction cs arbitrary: st)
  case Nil
  case 1 then show ?case by simp
  case 2 then show ?case by simp
next
  case (Cons c cs)
  case 1
  then show ?case using Cons.IH(1)[of "IncrementErrorCount c st"] by simp
  case 2
  then show ?case using Cons.IH(2)[of "IncrementErrorCount c st"]
    by (auto simp: IncrementErrorCount_categories lookup_count_bump)
qed

lemma BackupRestore:
  "filters (RestoreFilters (BackupFilters st)) = filters st"
  by (simp add: RestoreFilters_def BackupFilters_def)

end
