(* ===== verification/Reporting.thy ===== *)
theory Reporting
  imports Lint_State
begin

text \<open>
  From a call of the \<open>error\<close> callback to a line of output: the NOLINT comments that
  suppress errors, the decision whether an error is printed, and \<open>Error\<close> itself.  Also the
  file extensions that the command line and the configuration files set.
\<close>

section \<open>File extensions\<close>

definition strip_pieces :: "string \<Rightarrow> string list" where
  "strip_pieces val = remdups (map py_strip (py_split val '',''))"

definition ProcessHppHeadersOption :: "string \<Rightarrow> world \<Rightarrow> world" where
  "ProcessHppHeadersOption val w = w\<lparr>hpp_headers := strip_pieces val\<rparr>"

definition ProcessExtensionsOption :: "string \<Rightarrow> world \<Rightarrow> world" where
  "ProcessExtensionsOption val w = w\<lparr>valid_extensions := strip_pieces val\<rparr>"

definition GetHeaderExtensions :: "world \<Rightarrow> string list" where
  "GetHeaderExtensions w =
     (if hpp_headers w \<noteq> [] then hpp_headers w
      else if valid_extensions w \<noteq> [] then filter (\<lambda>h. py_in ''h'' h) (valid_extensions w)
      else [''h'', ''hh'', ''hpp'', ''hxx'', ''h++'', ''cuh''])"

definition IsHeaderExtension :: "world \<Rightarrow> string \<Rightarrow> bool" where
  "IsHeaderExtension w file_extension = (file_extension \<in> set (GetHeaderExtensions w))"

definition set_union :: "'a list \<Rightarrow> 'a list \<Rightarrow> 'a list" where
  "set_union xs ys = xs @ filter (\<lambda>y. y \<notin> set xs) ys"

definition GetAllExtensions :: "world \<Rightarrow> string list" where
  "GetAllExtensions w =
     set_union (GetHeaderExtensions w)
       (if valid_extensions w \<noteq> [] then valid_extensions w
        else [''c'', ''cc'', ''cpp'', ''cxx'', ''c++'', ''cu''])"

definition GetNonHeaderExtensions :: "world \<Rightarrow> string list" where
  "GetNonHeaderExtensions w =
     filter (\<lambda>e. e \<notin> set (GetHeaderExtensions w)) (GetAllExtensions w)"

definition IsSourceExtension :: "world \<Rightarrow> string \<Rightarrow> bool" where
  "IsSourceExtension w s = (s \<in> set (GetNonHeaderExtensions w))"

section \<open>NOLINT comments\<close>

definition SEARCH_C_FILE :: string where
  \<open>SEARCH_C_FILE =
     rx ''`b(?:LINT_C_FILE|vim?:`s*.*(`s*|:)filetype=c(`s*|:|$))''\<close>

definition SEARCH_KERNEL_FILE :: string where
  \<open>SEARCH_KERNEL_FILE = rx ''`b(?:LINT_KERNEL_FILE)''\<close>

definition NOLINT_PATTERN :: string where
  \<open>NOLINT_PATTERN = rx ''`bNOLINT(NEXTLINE)?`b(`([^)]+`))?''\<close>

definition suppressed_lines :: "(string option \<rightharpoonup> int set) \<Rightarrow> string option \<Rightarrow> int set" where
  "suppressed_lines m key = (case m key of None \<Rightarrow> {} | Some ls \<Rightarrow> ls)"

text \<open>\<open>_error_suppressions.setdefault(key, set()).add(line)\<close>\<close>

definition suppress :: "string option \<Rightarrow> int \<Rightarrow> world \<Rightarrow> world" where
  "suppress key line w =
     w\<lparr>error_suppressions :=
         (error_suppressions w)(key \<mapsto> insert line (suppressed_lines (error_suppressions w) key))\<rparr>"

definition ParseNolintSuppressions ::
  "world error_fn \<Rightarrow> string \<Rightarrow> string \<Rightarrow> int \<Rightarrow> world \<Rightarrow> world py" where
  "ParseNolintSuppressions error filename raw_line linenum w =
     (case Search NOLINT_PATTERN raw_line of
        None \<Rightarrow> Inr w
      | Some matched \<Rightarrow>
          (let suppressed_line = (if group matched 1 \<noteq> None then linenum + 1 else linenum)
           in case group matched 2 of
                None \<Rightarrow> Inr (suppress None suppressed_line w)
              | Some category \<Rightarrow>
                  if category = ''(*)'' then Inr (suppress None suppressed_line w)
                  else if startswith category ''('' \<and> endswith category '')'' then
                    (let category' = py_slice category 1 (-1)
                     in if category' \<in> set ERROR_CATEGORIES
                        then Inr (suppress (Some category') suppressed_line w)
                        else if category' \<notin> set LEGACY_ERROR_CATEGORIES
                        then error filename (Some linenum) ''readability/nolint'' 5
                               (''Unknown NOLINT error category: '' @ category') w
                        else Inr w)
                  else Inr w))"

definition suppress_globally :: "string list \<Rightarrow> world \<Rightarrow> world" where
  "suppress_globally categories w =
     w\<lparr>global_error_suppressions :=
         fold (\<lambda>c m. m(c \<mapsto> True)) categories (global_error_suppressions w)\<rparr>"

definition ProcessGlobalSuppresions :: "string list \<Rightarrow> world \<Rightarrow> world" where
  "ProcessGlobalSuppresions lines w =
     fold (\<lambda>line w.
        let w1 = (if Finds SEARCH_C_FILE line
                  then suppress_globally DEFAULT_C_SUPPRESSED_CATEGORIES w else w)
        in if Finds SEARCH_KERNEL_FILE line
           then suppress_globally DEFAULT_KERNEL_SUPPRESSED_CATEGORIES w1 else w1) lines w"

definition ResetNolintSuppressions :: "world \<Rightarrow> world" where
  "ResetNolintSuppressions w =
     w\<lparr>error_suppressions := Map.empty, global_error_suppressions := Map.empty\<rparr>"

definition IsErrorSuppressedByNolint :: "world \<Rightarrow> string \<Rightarrow> lineno \<Rightarrow> bool" where
  "IsErrorSuppressedByNolint w category linenum =
     ((case global_error_suppressions w category of None \<Rightarrow> False | Some b \<Rightarrow> b) \<or>
      (case linenum of
         None \<Rightarrow> False
       | Some l \<Rightarrow> l \<in> suppressed_lines (error_suppressions w) (Some category) \<or>
                  l \<in> suppressed_lines (error_suppressions w) None))"

section \<open>Printing an error\<close>

text \<open>The loop over the filters; the assertion fails on a filter without a sign.\<close>

fun filter_loop :: "string \<Rightarrow> string list \<Rightarrow> bool \<Rightarrow> bool py" where
  "filter_loop category [] is_filtered = Inr is_filtered"
| "filter_loop category (f # fs) is_filtered =
     (if startswith f ''-'' then
        filter_loop category fs (if startswith category (tl f) then True else is_filtered)
      else if startswith f ''+'' then
        filter_loop category fs (if startswith category (tl f) then False else is_filtered)
      else Inl AssertionError)"

definition ShouldPrintError :: "string \<Rightarrow> int \<Rightarrow> lineno \<Rightarrow> world \<Rightarrow> bool py" where
  "ShouldPrintError category confidence linenum w =
     (if IsErrorSuppressedByNolint w category linenum then Inr False
      else if confidence < verbose_level (cpplint_state w) then Inr False
      else py_bind (filter_loop category (Filters_global w) False) (\<lambda>b. Inr (\<not> b)))"

definition show_lineno :: "lineno \<Rightarrow> string" where
  "show_lineno linenum = (case linenum of None \<Rightarrow> ''None'' | Some l \<Rightarrow> show_int l)"

definition Error :: "world error_fn" where
  "Error filename linenum category confidence message w =
     py_bind (ShouldPrintError category confidence linenum w) (\<lambda>shown.
       if shown then
         (let w1 = on_state (IncrementErrorCount category) w;
              fmt = output_format (cpplint_state w1)
          in Inr
            (if fmt = ''vs7'' then
               PrintError (filename @ ''('' @ show_lineno linenum @ ''): error cpplint: ['' @ category
                 @ ''] '' @ message @ '' ['' @ show_int confidence @ '']'' @ [newline_char]) w1
             else if fmt = ''eclipse'' then
               w1\<lparr>stderr := stderr w1 @ filename @ '':'' @ show_lineno linenum @ '': warning: ''
                 @ message @ ''  ['' @ category @ ''] ['' @ show_int confidence @ '']''
                 @ [newline_char]\<rparr>
             else if fmt = ''junit'' then
               on_state (AddJUnitFailure filename linenum message category confidence) w1
             else
               w1\<lparr>stderr := stderr w1 @ filename @ '':'' @ show_lineno linenum @ '':  ''
                 @ message @ ''  ['' @ category @ ''] ['' @ show_int confidence @ '']''
                 @ [newline_char]\<rparr>))
       else Inr w)"


section \<open>Lemmas\<close>

text \<open>The last filter whose prefix fits the category decides.\<close>

definition last_match :: "string \<Rightarrow> string list \<Rightarrow> string option" where
  "last_match category fs = find (\<lambda>f. startswith category (tl f)) (rev fs)"

lemma find_append: "find p (xs @ ys) = (case find p xs of Some x \<Rightarrow> Some x | None \<Rightarrow> find p ys)"
  by (induction xs) auto

lemma last_match_Nil [simp]: "last_match category [] = None"
  by (simp add: last_match_def)

lemma last_match_Cons:
  "last_match category (f # fs) =
     (case last_match category fs of
        Some g \<Rightarrow> Some g
      | None \<Rightarrow> if startswith category (tl f) then Some f else None)"
  by (simp add: last_match_def find_append split: option.splits)

lemma signed_exclusive: "startswith f ''+'' \<Longrightarrow> \<not> startswith f ''-''"
  by (auto simp: startswith_iff)

lemma filter_loop_last_match:
  "list_all signed_filter fs \<Longrightarrow>
   filter_loop category fs b =
     Inr (case last_match category fs of None \<Rightarrow> b | Some f \<Rightarrow> startswith f ''-'')"
  by (induction fs arbitrary: b)
     (auto simp: last_match_Cons signed_filter_def dest: signed_exclusive split: option.splits)

lemma suppressed_lines_suppress:
  "suppressed_lines (error_suppressions (suppress k l w)) k' =
     (if k' = k then insert l (suppressed_lines (error_suppressions w) k)
      else suppressed_lines (error_suppressions w) k')"
  by (auto simp: suppress_def suppressed_lines_def)

lemma suppress_global [simp]:
  "global_error_suppressions (suppress k l w) = global_error_suppressions w"
  by (simp add: suppress_def)

lemma IsErrorSuppressed_suppress:
  "IsErrorSuppressedByNolint (suppress k l w) category linenum \<longleftrightarrow>
   IsErrorSuppressedByNolint w category linenum \<or>
   (linenum = Some l \<and> (k = None \<or> k = Some category))"
  by (cases linenum) (auto simp: IsErrorSuppressedByNolint_def suppressed_lines_suppress)

lemma ShouldPrintError_eq:
  assumes "filters_ok (cpplint_state w)"
  shows "ShouldPrintError category confidence linenum w =
     Inr (\<not> IsErrorSuppressedByNolint w category linenum \<and>
          verbose_level (cpplint_state w) \<le> confidence \<and>
          (case last_match category (filters (cpplint_state w)) of
             None \<Rightarrow> True | Some f \<Rightarrow> \<not> startswith f ''-''))"
  using assms
  by (auto simp: ShouldPrintError_def Filters_global_def filters_ok_def filter_loop_last_match
      split: option.splits)

definition error_line :: "string \<Rightarrow> lineno \<Rightarrow> string \<Rightarrow> int \<Rightarrow> string \<Rightarrow> string" where
  "error_line filename linenum category confidence message =
     filename @ '':'' @ show_lineno linenum @ '':  '' @ message @ ''  ['' @ category @ ''] [''
     @ show_int confidence @ '']'' @ [newline_char]"

lemma PrintError_frame [simp]:
  "error_suppressions (PrintError m w) = error_suppressions w"
  "global_error_suppressions (PrintError m w) = global_error_suppressions w"
  "error_count (cpplint_state (PrintError m w)) = error_count (cpplint_state w)"
  "filters (cpplint_state (PrintError m w)) = filters (cpplint_state w)"
  "filters_backup (cpplint_state (PrintError m w)) = filters_backup (cpplint_state w)"
  by (auto simp: PrintError_def)

lemma on_state_frame [simp]:
  "error_suppressions (on_state f w) = error_suppressions w"
  "global_error_suppressions (on_state f w) = global_error_suppressions w"
  "cpplint_state (on_state f w) = f (cpplint_state w)"
  "stdout (on_state f w) = stdout w"
  "stderr (on_state f w) = stderr w"
  by (auto simp: on_state_def)

lemma AddJUnitFailure_frame [simp]:
  "error_count (AddJUnitFailure fn l m c k st) = error_count st"
  "filters (AddJUnitFailure fn l m c k st) = filters st"
  "filters_backup (AddJUnitFailure fn l m c k st) = filters_backup st"
  by (auto simp: AddJUnitFailure_def)

text \<open>An error touches neither the suppressions nor the filters.\<close>

lemma Error_frame:
  "Error filename linenum category confidence message w = Inr w' \<Longrightarrow>
   error_suppressions w' = error_suppressions w \<and>
   global_error_suppressions w' = global_error_suppressions w \<and>
   filters (cpplint_state w') = filters (cpplint_state w) \<and>
   filters_backup (cpplint_state w') = filters_backup (cpplint_state w)"
  by (auto simp: Error_def py_bind_eq_Inr Let_def split: if_splits)

lemma Error_not_shown:
  "ShouldPrintError category confidence linenum w = Inr False \<Longrightarrow>
   Error filename linenum category confidence message w = Inr w"
  by (simp add: Error_def)

lemma Error_shown:
  "ShouldPrintError category confidence linenum w = Inr True \<Longrightarrow>
   \<exists>w'. Error filename linenum category confidence message w = Inr w' \<and>
        error_count (cpplint_state w') = error_count (cpplint_state w) + 1 \<and>
        (output_format (cpplint_state w) = ''emacs'' \<longrightarrow>
           stderr w' = stderr w @ error_line filename linenum category confidence message)"
  by (simp add: Error_def Let_def error_line_def)

section \<open>Properties\<close>

text \<open>C11: the decision of \<open>_ShouldPrintError\<close>.  With filters that \<open>SetFilters\<close> accepts, the
  assertion in the loop never fails, and an error is printed exactly when no NOLINT comment or
  global suppression covers it, its confidence reaches the verbosity, and the last filter
  whose prefix fits the category (if there is one) is not a minus filter.\<close>

theorem ShouldPrintError_last_filter_wins:
  assumes "filters_ok (cpplint_state w)"
  shows "ShouldPrintError category confidence linenum w =
     Inr (\<not> IsErrorSuppressedByNolint w category linenum \<and>
          verbose_level (cpplint_state w) \<le> confidence \<and>
          (case find (\<lambda>f. startswith category (tl f)) (rev (filters (cpplint_state w))) of
             None \<Rightarrow> True | Some f \<Rightarrow> \<not> startswith f ''-''))"
  using ShouldPrintError_eq[OF assms] by (simp add: last_match_def)

theorem ShouldPrintError_last_filter_wins_witness:
  "\<exists>w. SetFilters_global ''-whitespace,+whitespace/tab'' initial_world = Inr w \<and>
       filters_ok (cpplint_state w) \<and>
       ShouldPrintError ''whitespace/tab'' 1 (Some 3) w = Inr True \<and>
       ShouldPrintError ''whitespace/indent'' 5 (Some 3) w = Inr False"
proof -
  let ?st = "CppLintState_init\<lparr>filters := [''-build/include_alpha'', ''-whitespace'', ''+whitespace/tab'']\<rparr>"
  let ?w = "initial_world\<lparr>cpplint_state := ?st\<rparr>"
  have "SetFilters ''-whitespace,+whitespace/tab'' CppLintState_init = Inr ?st"
    by code_simp
  then have s: "SetFilters_global ''-whitespace,+whitespace/tab'' initial_world = Inr ?w"
    by (simp add: SetFilters_global_def initial_world_def)
  have ok: "filters_ok (cpplint_state ?w)"
    by (simp add: filters_ok_def signed_filter_def)
  have "ShouldPrintError ''whitespace/tab'' 1 (Some 3) ?w = Inr True"
    unfolding ShouldPrintError_last_filter_wins[OF ok] by code_simp
  moreover have "ShouldPrintError ''whitespace/indent'' 5 (Some 3) ?w = Inr False"
    unfolding ShouldPrintError_last_filter_wins[OF ok] by code_simp
  ultimately show ?thesis using s ok by blast
qed



text \<open>C29: the scope of a NOLINT comment.  A comment that names a known category suppresses that
  category on its own line (with NEXTLINE: on the next line); one without a category, or with
  a star, suppresses every category there; nothing else changes.\<close>

theorem ParseNolint_scope:
  assumes "Search NOLINT_PATTERN raw_line = Some m"
    and "group m 2 = None \<or> group m 2 = Some ''(*)'' \<or>
         (\<exists>c \<in> set ERROR_CATEGORIES. group m 2 = Some (''('' @ c @ '')''))"
  shows "\<exists>w'. ParseNolintSuppressions error filename raw_line linenum w = Inr w' \<and>
     (\<forall>category line. IsErrorSuppressedByNolint w' category line \<longleftrightarrow>
        IsErrorSuppressedByNolint w category line \<or>
        (line = Some (if group m 1 \<noteq> None then linenum + 1 else linenum) \<and>
         group m 2 \<in> {None, Some ''(*)'', Some (''('' @ category @ '')'')}))"
proof -
  let ?l = "if group m 1 \<noteq> None then linenum + 1 else linenum"
  have star: "''*'' \<notin> set ERROR_CATEGORIES" by code_simp
  have slice: "py_slice (''('' @ c @ '')'') 1 (-1) = c" for c :: string
    by (simp add: py_slice_def py_clamp_def)
  from assms(2) consider "group m 2 = None" | "group m 2 = Some ''(*)''"
    | c where "c \<in> set ERROR_CATEGORIES" "group m 2 = Some (''('' @ c @ '')'')"
    by (elim disjE bexE)
  then show ?thesis
  proof cases
    case 1
    with assms(1) have "ParseNolintSuppressions error filename raw_line linenum w =
        Inr (suppress None ?l w)" by (simp add: ParseNolintSuppressions_def Let_def)
    with 1 show ?thesis by (simp add: IsErrorSuppressed_suppress)
  next
    case 2
    with assms(1) have "ParseNolintSuppressions error filename raw_line linenum w =
        Inr (suppress None ?l w)" by (simp add: ParseNolintSuppressions_def Let_def)
    with 2 show ?thesis by (simp add: IsErrorSuppressed_suppress)
  next
    case (3 c)
    have "startswith (''('' @ c @ '')'') ''(''" "endswith (''('' @ c @ '')'') '')''"
      using endswith_append[of "''('' @ c" "'')''"] by simp_all
    moreover have "''('' @ c @ '')'' \<noteq> ''(*)''" using 3 star by auto
    ultimately have "ParseNolintSuppressions error filename raw_line linenum w =
        Inr (suppress (Some c) ?l w)"
      using assms(1) 3 slice[of c] by (simp add: ParseNolintSuppressions_def Let_def)
    with 3 star show ?thesis by (auto simp: IsErrorSuppressed_suppress)
  qed
qed

theorem ParseNolint_scope_witness:
  "\<exists>w'. ParseNolintSuppressions Error ''a.cc'' ''long x;  // NOLINT(runtime/int)'' 7 initial_world = Inr w' \<and>
     IsErrorSuppressedByNolint w' ''runtime/int'' (Some 7) \<and>
     \<not> IsErrorSuppressedByNolint w' ''runtime/int'' (Some 8) \<and>
     \<not> IsErrorSuppressedByNolint w' ''runtime/vlog'' (Some 7)"
proof -
  let ?line = "''long x;  // NOLINT(runtime/int)''"
  let ?m = "the (Search NOLINT_PATTERN ?line)"
  have s: "Search NOLINT_PATTERN ?line = Some ?m" by code_simp
  have g2: "group ?m 2 = Some (''('' @ ''runtime/int'' @ '')'')" by code_simp
  have g1: "group ?m 1 = None" by code_simp
  have c: "''runtime/int'' \<in> set ERROR_CATEGORIES" by code_simp
  have none: "\<not> IsErrorSuppressedByNolint initial_world c l" for c l
    by (simp add: IsErrorSuppressedByNolint_def initial_world_def suppressed_lines_def split: option.splits)
  have h: "group ?m 2 = None \<or> group ?m 2 = Some ''(*)'' \<or>
         (\<exists>c \<in> set ERROR_CATEGORIES. group ?m 2 = Some (''('' @ c @ '')''))"
    using g2 c by blast
  obtain w' where w': "ParseNolintSuppressions Error ''a.cc'' ?line 7 initial_world = Inr w'"
    and eq: "\<And>category line. IsErrorSuppressedByNolint w' category line \<longleftrightarrow>
        IsErrorSuppressedByNolint initial_world category line \<or>
        (line = Some (if group ?m 1 \<noteq> None then 7 + 1 else 7) \<and>
         group ?m 2 \<in> {None, Some ''(*)'', Some (''('' @ category @ '')'')})"
    using ParseNolint_scope[OF s h, of Error "''a.cc''" 7 initial_world] by auto
  show ?thesis using w' by (simp add: eq g1 g2 none del: One_nat_def)
qed

text \<open>Header and source extensions.  Whatever extensions and header extensions are set, the
  allowed extensions are split into header extensions and the others, without overlap, and
  every extension given by \<open>--extensions\<close> is allowed.\<close>

theorem extensions_partition:
  "set (GetHeaderExtensions w) \<union> set (GetNonHeaderExtensions w) = set (GetAllExtensions w) \<and>
   set (GetHeaderExtensions w) \<inter> set (GetNonHeaderExtensions w) = {} \<and>
   set (valid_extensions w) \<subseteq> set (GetAllExtensions w)"
  by (auto simp: GetNonHeaderExtensions_def GetAllExtensions_def set_union_def)

text \<open>C30: the statistics by category.  After the counts are reset, counting any sequence of
  errors in the style \<open>toplevel\<close> or \<open>detailed\<close> leaves the total equal to the length of the
  sequence, and the count of every key equal to the number of errors with that key: the
  category itself, or its part before the slash.\<close>

theorem error_counts_by_category:
  assumes "counting st = ''toplevel'' \<or> counting st = ''detailed''"
  shows "error_count (fold IncrementErrorCount cs (ResetErrorCounts st)) = int (length cs) \<and>
     (\<forall>k. lookup_count (errors_by_category (fold IncrementErrorCount cs (ResetErrorCounts st))) k =
          int (length (filter (\<lambda>c. count_key (counting st) c = k) cs)))"
  using fold_IncrementErrorCount[of "ResetErrorCounts st" cs] assms
  by (auto simp: ResetErrorCounts_def lookup_count_def)

theorem error_counts_by_category_witness:
  "lookup_count (errors_by_category (fold IncrementErrorCount
      [''runtime/int'', ''build/include'', ''runtime/vlog'']
      (ResetErrorCounts (SetCountingStyle ''toplevel'' CppLintState_init)))) ''runtime'' = 2"
proof -
  let ?st = "SetCountingStyle ''toplevel'' CppLintState_init"
  have c: "counting ?st = ''toplevel'' \<or> counting ?st = ''detailed''"
    by (simp add: SetCountingStyle_def)
  have "int (length (filter (\<lambda>c. count_key (counting ?st) c = ''runtime'')
      [''runtime/int'', ''build/include'', ''runtime/vlog''])) = 2"
    by code_simp
  with error_counts_by_category[OF c, of "[''runtime/int'', ''build/include'', ''runtime/vlog'']"]
  show ?thesis by simp
qed

end
