(* ===== verification/Cleansing.thy ===== *)
theory Cleansing
  imports Regex
begin

text \<open>
  The preprocessing of a file: raw strings, comments and string literals are removed line by
  line, so that the checks see the code only (\<open>CleanseRawStrings\<close> to \<open>CleansedLines\<close>).
  Lines keep their numbers: every pass maps the list of lines to a list of the same length.
\<close>

section \<open>Patterns\<close>

definition CLEANSE_LINE_ESCAPES :: string where
  \<open>CLEANSE_LINE_ESCAPES = rx ''``([abfnrtv?"```']|`d+|x[0-9a-fA-F]+)''\<close>

definition C_COMMENTS :: string where
  \<open>C_COMMENTS = rx ''/`*(?:[^*]|`*(?!/))*`*/''\<close>

definition CLEANSE_LINE_C_COMMENTS :: string where
  \<open>CLEANSE_LINE_C_COMMENTS =
     rx ''(`s*'' @ C_COMMENTS @ rx ''`s*$|'' @ C_COMMENTS @ rx ''`s+|'' @
     rx ''`s+'' @ C_COMMENTS @ rx ''(?=`W)|'' @ C_COMMENTS @ '')''\<close>

definition RE_PATTERN_INCLUDE :: string where
  \<open>RE_PATTERN_INCLUDE = rx ''^`s*#`s*include`s*([<"])([^>"]*)[>"].*$''\<close>

definition RAW_STRING_START :: string where
  \<open>RAW_STRING_START = rx ''^(.*?)`b(?:R|u8R|uR|UR|LR)"([^`s``()]*)`((.*)$''\<close>

definition INSIDE_COMMENT :: string where
  \<open>INSIDE_COMMENT = rx ''^([^`'"]|`'(``.|[^`'])*`'|"(``.|[^"])*")*//''\<close>

definition LEADING_SPACE :: string where
  \<open>LEADING_SPACE = rx ''^(`s*)`S''\<close>

definition FIRST_QUOTE :: string where
  \<open>FIRST_QUOTE = rx ''^([^`'"]*)([`'"])(.*)$''\<close>

definition DIGITS_AT_END :: string where
  \<open>DIGITS_AT_END = rx ''`b(?:0[bBxX]?|[1-9])[0-9a-fA-F]*$''\<close>

definition NUMBER_LITERAL :: string where
  \<open>NUMBER_LITERAL = rx ''^((?:`'?[0-9a-zA-Z_])*)(.*)$''\<close>

section \<open>Raw strings\<close>

definition IsCppString :: "string \<Rightarrow> bool" where
  \<open>IsCppString line =
     (let line' = py_replace line [backslash_char, backslash_char] ''XX''
      in odd (py_count line' ''"'' - py_count line' [backslash_char, CHR 0x22]
              - py_count line' [CHR 0x27, CHR 0x22, CHR 0x27]))\<close>

lemma RAW_STRING_START_compiled:
  \<open>re_compile RAW_STRING_START =
     Some (RSeq RBol (RSeq (RGroup 1 (RStar False RAny)) (RSeq RWordB
       (RSeq (RAlt (RAlt (RAlt (RAlt (RLit (CHR ''R''))
            (RSeq (RLit (CHR ''u'')) (RSeq (RLit (CHR ''8'')) (RLit (CHR ''R'')))))
            (RSeq (RLit (CHR ''u'')) (RLit (CHR ''R''))))
            (RSeq (RLit (CHR ''U'')) (RLit (CHR ''R''))))
            (RSeq (RLit (CHR ''L'')) (RLit (CHR ''R''))))
       (RSeq (RLit (CHR 0x22))
       (RSeq (RGroup 2 (RStar True (RSet False [CSpace True, CChar backslash_char, CChar (CHR ''(''), CChar (CHR '')'')])))
       (RSeq (RLit (CHR ''('')) (RSeq (RGroup 3 (RStar True RAny)) REol))))))))\<close>
  by code_simp

text \<open>
  How a line with the start of a raw string is cut: the text before it, the encoding prefix,
  the delimiter, and the rest of the line.
\<close>

lemma RAW_STRING_START_split:
  assumes "Match RAW_STRING_START line = Some m"
  shows "\<exists>prefix e. line = grp m 1 @ prefix @ CHR 0x22 # grp m 2 @ CHR ''('' # grp m 3 @ e \<and>
           prefix \<noteq> [] \<and> (e = [] \<or> e = [newline_char])"
proof -
  let ?enc = "RAlt (RAlt (RAlt (RAlt (RLit (CHR ''R''))
            (RSeq (RLit (CHR ''u'')) (RSeq (RLit (CHR ''8'')) (RLit (CHR ''R'')))))
            (RSeq (RLit (CHR ''u'')) (RLit (CHR ''R''))))
            (RSeq (RLit (CHR ''U'')) (RLit (CHR ''R''))))
            (RSeq (RLit (CHR ''L'')) (RLit (CHR ''R'')))"
  obtain s' where run: "s' \<in> set (runs (RSeq RBol (RSeq (RGroup 1 (RStar False RAny)) (RSeq RWordB
       (RSeq ?enc (RSeq (RLit (CHR 0x22))
       (RSeq (RGroup 2 (RStar True (RSet False [CSpace True, CChar backslash_char, CChar (CHR ''(''), CChar (CHR '')'')])))
       (RSeq (RLit (CHR ''('')) (RSeq (RGroup 3 (RStar True RAny)) REol)))))))) (MS [] line []))"
    and m: "m = match_of [] line s'"
    by (rule Match_SomeE[OF assms RAW_STRING_START_compiled])
  from run obtain s1 s2 s3 s4 s5 where
    s1: "s1 \<in> set (runs (RGroup 1 (RStar False RAny)) (MS [] line []))" and
    s2: "s2 \<in> set (runs ?enc s1)" and
    s3: "s3 \<in> set (runs (RLit (CHR 0x22)) s2)" and
    s4: "s4 \<in> set (runs (RGroup 2 (RStar True (RSet False [CSpace True, CChar backslash_char,
           CChar (CHR ''(''), CChar (CHR '')'')]))) s3)" and
    s5: "s5 \<in> set (runs (RLit (CHR ''('')) s4)" and
    s6: "s' \<in> set (runs (RGroup 3 (RStar True RAny)) s5)" and e: "at_eol s'"
    by (simp only: runs_chain) blast
  obtain w1 where w1: "s1 = MS (rev w1) (rgt s1) [(1, 0, w1)]" "line = w1 @ rgt s1"
    using runs_group_step[OF s1] by auto
  obtain p where p: "s2 = MS (rev p @ lft s1) (rgt s2) (caps s1)" "rgt s1 = p @ rgt s2"
    using runs_step[OF s2] by auto
  have pne: "p \<noteq> []" using runs_min_len[OF s2] p(2) by auto
  have q3: "rgt s2 = CHR 0x22 # rgt s3" "caps s3 = caps s2" "lft s3 = CHR 0x22 # lft s2"
    using s3 by (auto simp: advance_Some set_accepts_lit)
  obtain w2 where w2: "s4 = MS (rev w2 @ lft s3) (rgt s4) ((2, length (lft s3), w2) # caps s3)"
      "rgt s3 = w2 @ rgt s4"
    using runs_group_step[OF s4] by auto
  have q5: "rgt s4 = CHR ''('' # rgt s5" "caps s5 = caps s4" "lft s5 = CHR ''('' # lft s4"
    using s5 by (auto simp: advance_Some set_accepts_lit)
  obtain w3 where w3: "s' = MS (rev w3 @ lft s5) (rgt s') ((3, length (lft s5), w3) # caps s5)"
      "rgt s5 = w3 @ rgt s'"
    using runs_group_step[OF s6] by auto
  have caps: "caps s' = [(3, length (lft s5), w3), (2, length (lft s3), w2), (1, 0, w1)]"
    using w1(1) p(1) q3(2) w2(1) q5(2) w3(1) by (metis mstate.sel(3))
  have "grp m 1 = w1" "grp m 2 = w2" "grp m 3 = w3"
    unfolding m by (rule grp_match_of; simp add: caps)+
  moreover have "line = w1 @ p @ CHR 0x22 # w2 @ CHR ''('' # w3 @ rgt s'"
    using w1(2) p(2) q3(1) w2(2) q5(1) w3(2) by simp
  moreover have "rgt s' = [] \<or> rgt s' = [newline_char]" using e by (simp add: at_eol_def)
  ultimately show ?thesis using pne by blast
qed

lemma RAW_STRING_START_shorter:
  "Match RAW_STRING_START line = Some m \<Longrightarrow>
   length (grp m 1) + length (grp m 2) + length (grp m 3) + 3 \<le> length line"
proof -
  assume "Match RAW_STRING_START line = Some m"
  from RAW_STRING_START_split[OF this] obtain prefix e where
    L: "line = grp m 1 @ prefix @ CHR 0x22 # grp m 2 @ CHR ''('' # grp m 3 @ e" and "prefix \<noteq> []"
    by blast
  have "1 \<le> length prefix" using \<open>prefix \<noteq> []\<close> by (cases prefix) auto
  then show ?thesis using arg_cong[OF L, of length] by simp
qed

text \<open>
  The inner loop of \<open>CleanseRawStrings\<close>: replace raw strings that end on the line, until none
  starts (or the one that starts lies in a \<open>//\<close> comment) or one does not end on the line.
  The result is the line and the delimiter that is still open.
\<close>

function replace_raw_strings :: "string \<Rightarrow> string \<times> string option" where
  "replace_raw_strings line =
     (case Match RAW_STRING_START line of
        None \<Rightarrow> (line, None)
      | Some matched \<Rightarrow>
          if Matches INSIDE_COMMENT (grp matched 1) then (line, None)
          else
            (let delimiter = '')'' @ grp matched 2 @ [CHR 0x22];
                 end_pos = py_find (grp matched 3) delimiter
             in if end_pos \<ge> 0
                then replace_raw_strings
                       (grp matched 1 @ [CHR 0x22, CHR 0x22]
                        @ py_from (grp matched 3) (end_pos + int (length delimiter)))
                else (grp matched 1 @ [CHR 0x22, CHR 0x22], Some delimiter)))"
  by pat_completeness auto
termination
proof (relation "measure length", goal_cases)
  case 1
  show ?case by simp
next
  case (2 line m delimiter end_pos)
  have b: "end_pos + int (length delimiter) \<le> int (length (grp m 3))"
    using py_find_bound[of "grp m 3" delimiter] 2 by simp
  have d: "length delimiter = length (grp m 2) + 2" using 2 by simp
  have "length (py_from (grp m 3) (end_pos + int (length delimiter))) + length (grp m 2) + 2
      \<le> length (grp m 3)"
    using b d 2 by (simp add: py_from_nonneg)
  with RAW_STRING_START_shorter[OF 2(1)] show ?case by simp
qed

declare replace_raw_strings.simps [simp del]

text \<open>One line of the outer loop, with the delimiter that is open before it.\<close>

definition cleanse_raw_line :: "string option \<Rightarrow> string \<Rightarrow> (string \<times> string option) py" where
  "cleanse_raw_line delimiter line =
     (case delimiter of
        None \<Rightarrow> Inr (replace_raw_strings line)
      | Some d \<Rightarrow>
          (let end_pos = py_find line d
           in if end_pos \<ge> 0 then
                (case Match LEADING_SPACE line of
                   None \<Rightarrow> Inl AttributeError
                 | Some leading_space \<Rightarrow>
                     Inr (replace_raw_strings
                            (grp leading_space 1 @ [CHR 0x22, CHR 0x22]
                             @ py_from line (end_pos + int (length d)))))
              else Inr ([CHR 0x22, CHR 0x22], Some d)))"

fun cleanse_raw_lines :: "string option \<Rightarrow> string list \<Rightarrow> string list py" where
  "cleanse_raw_lines delimiter [] = Inr []"
| "cleanse_raw_lines delimiter (line # lines) =
     py_bind (cleanse_raw_line delimiter line) (\<lambda>(line', delimiter').
       py_bind (cleanse_raw_lines delimiter' lines) (\<lambda>rest. Inr (line' # rest)))"

definition CleanseRawStrings :: "string list \<Rightarrow> string list py" where
  "CleanseRawStrings raw_lines = cleanse_raw_lines None raw_lines"

text \<open>The white space at the start of a line that is not blank.\<close>

lemma LEADING_SPACE_compiled:
  "re_compile LEADING_SPACE =
     Some (RSeq RBol (RSeq (RGroup 1 (RStar True (RSet True [CSpace True]))) (RSet True [CSpace False])))"
  by code_simp

lemma set_accepts_space [simp]:
  "set_accepts True [CSpace True] = is_space"
  "set_accepts True [CSpace False] = (\<lambda>c. \<not> is_space c)"
  by (rule ext, simp add: set_accepts_def)+

lemma Matches_LEADING_SPACE:
  assumes "\<exists>c \<in> set line. \<not> is_space c"
  shows "Matches LEADING_SPACE line"
proof -
  let ?w = "takeWhile is_space line"
  obtain c v where cv: "dropWhile is_space line = c # v" "\<not> is_space c"
    using assms by (metis dropWhile_eq_Nil_conv hd_dropWhile list.exhaust_sel list.sel(1))
  then have line: "line = ?w @ c # v" by (metis takeWhile_dropWhile_id)
  let ?s1 = "MS (rev ?w) (c # v) []"
  have "?s1 \<in> set (runs (RStar True (RSet True [CSpace True])) (MS [] line []))"
  proof (subst set_runs_star_class, intro exI conjI)
    show "line = ?w @ c # v" by (rule line)
    show "list_all (set_accepts True [CSpace True]) ?w"
      by (auto simp: list_all_iff dest: set_takeWhileD)
  qed simp
  moreover have "MS (c # rev ?w) v (caps (capture 1 (MS [] line []) ?s1)) \<in>
      set (runs (RSet True [CSpace False]) (capture 1 (MS [] line []) ?s1))"
    using cv(2) by (simp add: capture_def)
  ultimately have "MS (c # rev ?w) v (caps (capture 1 (MS [] line []) ?s1)) \<in>
      set (runs (RSeq RBol (RSeq (RGroup 1 (RStar True (RSet True [CSpace True])))
        (RSet True [CSpace False]))) (MS [] line []))"
    by (simp only: runs_chain set_runs_Group) (auto simp: at_bol_def)
  then show ?thesis
    unfolding Matches_iff[OF LEADING_SPACE_compiled] by (metis empty_iff list.set(1))
qed

lemma cleanse_raw_line_total: "(\<forall>d. delimiter = Some d \<longrightarrow> startswith d '')'') \<Longrightarrow>
   \<exists>line' delimiter'. cleanse_raw_line delimiter line = Inr (line', delimiter')"
proof (cases delimiter)
  case None
  then show ?thesis by (simp add: cleanse_raw_line_def)
next
  case (Some d)
  assume "\<forall>d. delimiter = Some d \<longrightarrow> startswith d '')''"
  with Some obtain t where d: "d = CHR '')'' # t" by (auto simp: startswith_iff)
  show ?thesis
  proof (cases "0 \<le> py_find line d")
    case True
    then obtain a b where "line = a @ d @ b" by (auto simp: py_find_nonneg_iff)
    then have "CHR '')'' \<in> set line" using d by simp
    moreover have "\<not> is_space (CHR '')'')" by code_simp
    ultimately have "Matches LEADING_SPACE line" by (intro Matches_LEADING_SPACE) blast
    with True Some show ?thesis by (auto simp: cleanse_raw_line_def)
  next
    case False
    with Some show ?thesis by (simp add: cleanse_raw_line_def Let_def)
  qed
qed

lemma replace_raw_strings_delimiter:
  "snd (replace_raw_strings line) = Some d \<Longrightarrow> startswith d '')''"
proof (induction line arbitrary: d rule: replace_raw_strings.induct)
  case (1 line)
  show ?case
  proof (cases "Match RAW_STRING_START line")
    case None
    with "1.prems" show ?thesis by (simp add: replace_raw_strings.simps[of line])
  next
    case (Some m)
    let ?delim = "'')'' @ grp m 2 @ [CHR 0x22]"
    show ?thesis
    proof (cases "Matches INSIDE_COMMENT (grp m 1)")
      case True
      with "1.prems" Some show ?thesis by (simp add: replace_raw_strings.simps[of line])
    next
      case False
      show ?thesis
      proof (cases "0 \<le> py_find (grp m 3) ?delim")
        case True
        with "1.prems" Some False
          "1.IH"[OF Some _ refl refl True, of d] show ?thesis
          by (simp add: replace_raw_strings.simps[of line] Let_def)
      next
        case no: False
        with "1.prems" Some False show ?thesis
          by (auto simp: replace_raw_strings.simps[of line] Let_def)
      qed
    qed
  qed
qed

lemma replace_raw_strings_delimiterD:
  "replace_raw_strings line = (line', Some d) \<Longrightarrow> startswith d '')''"
  by (rule replace_raw_strings_delimiter[of line]) simp

lemma cleanse_raw_line_delimiter:
  "cleanse_raw_line delimiter line = Inr (line', Some d) \<Longrightarrow>
   (\<forall>d. delimiter = Some d \<longrightarrow> startswith d '')'') \<Longrightarrow> startswith d '')''"
  by (auto simp: cleanse_raw_line_def Let_def split: option.splits if_splits
      dest: replace_raw_strings_delimiterD)

lemma cleanse_raw_lines_total:
  "(\<forall>d. delimiter = Some d \<longrightarrow> startswith d '')'') \<Longrightarrow>
   \<exists>out. cleanse_raw_lines delimiter lines = Inr out \<and> length out = length lines"
proof (induction lines arbitrary: delimiter)
  case Nil
  then show ?case by simp
next
  case (Cons line lines)
  obtain line' delimiter' where l: "cleanse_raw_line delimiter line = Inr (line', delimiter')"
    using cleanse_raw_line_total[OF Cons.prems] by blast
  have "\<forall>d. delimiter' = Some d \<longrightarrow> startswith d '')''"
    using l cleanse_raw_line_delimiter Cons.prems by blast
  from Cons.IH[OF this] obtain out where
    "cleanse_raw_lines delimiter' lines = Inr out" "length out = length lines" by blast
  with l show ?case by simp
qed

lemma CleanseRawStrings_total:
  "\<exists>out. CleanseRawStrings raw_lines = Inr out \<and> length out = length raw_lines"
  unfolding CleanseRawStrings_def by (rule cleanse_raw_lines_total) simp

section \<open>Multi-line comments\<close>

function FindNextMultiLineCommentStart :: "string list \<Rightarrow> nat \<Rightarrow> nat" where
  "FindNextMultiLineCommentStart lines lineix =
     (if lineix < length lines then
        (if startswith (py_strip (lines ! lineix)) ''/*''
            \<and> py_find_from (py_strip (lines ! lineix)) ''*/'' 2 < 0
         then lineix
         else FindNextMultiLineCommentStart lines (lineix + 1))
      else length lines)"
  by pat_completeness auto
termination
  by (relation "measure (\<lambda>(lines, lineix). length lines - lineix)") auto

function FindNextMultiLineCommentEnd :: "string list \<Rightarrow> nat \<Rightarrow> nat" where
  "FindNextMultiLineCommentEnd lines lineix =
     (if lineix < length lines then
        (if endswith (py_strip (lines ! lineix)) ''*/'' then lineix
         else FindNextMultiLineCommentEnd lines (lineix + 1))
      else length lines)"
  by pat_completeness auto
termination
  by (relation "measure (\<lambda>(lines, lineix). length lines - lineix)") auto

declare FindNextMultiLineCommentStart.simps [simp del] FindNextMultiLineCommentEnd.simps [simp del]

definition RemoveMultiLineCommentsFromRange :: "string list \<Rightarrow> nat \<Rightarrow> nat \<Rightarrow> string list" where
  "RemoveMultiLineCommentsFromRange lines begin_ix end_ix =
     fold (\<lambda>i ls. ls[i := ''/**/'']) [begin_ix..<end_ix] lines"

text \<open>Does a multi-line comment start on the line, does one end there?\<close>

definition opens_comment :: "string \<Rightarrow> bool" where
  "opens_comment line =
     (startswith (py_strip line) ''/*'' \<and> py_find_from (py_strip line) ''*/'' 2 < 0)"

definition closes_comment :: "string \<Rightarrow> bool" where
  "closes_comment line = endswith (py_strip line) ''*/''"

lemma FindNextMultiLineCommentStart_spec:
  "lineix \<le> length lines \<Longrightarrow>
   (let r = FindNextMultiLineCommentStart lines lineix in
    lineix \<le> r \<and> r \<le> length lines \<and>
    (\<forall>i. lineix \<le> i \<and> i < r \<longrightarrow> \<not> opens_comment (lines ! i)) \<and>
    (r < length lines \<longrightarrow> opens_comment (lines ! r)))"
proof (induction lines lineix rule: FindNextMultiLineCommentStart.induct)
  case (1 lines lineix)
  let ?r = "FindNextMultiLineCommentStart lines"
  show ?case
  proof (cases "lineix < length lines \<and> \<not> opens_comment (lines ! lineix)")
    case True
    then have eq: "?r lineix = ?r (lineix + 1)"
      by (subst FindNextMultiLineCommentStart.simps) (auto simp: opens_comment_def)
    have "\<not> (startswith (py_strip (lines ! lineix)) ''/*''
            \<and> py_find_from (py_strip (lines ! lineix)) ''*/'' 2 < 0)"
      using True by (simp add: opens_comment_def)
    from "1.IH"[OF _ this] True have ih: "lineix + 1 \<le> ?r (lineix + 1) \<and> ?r (lineix + 1) \<le> length lines \<and>
      (\<forall>i. lineix + 1 \<le> i \<and> i < ?r (lineix + 1) \<longrightarrow> \<not> opens_comment (lines ! i)) \<and>
      (?r (lineix + 1) < length lines \<longrightarrow> opens_comment (lines ! ?r (lineix + 1)))"
      by (simp add: Let_def)
    have "\<not> opens_comment (lines ! i)" if "lineix \<le> i" "i < ?r (lineix + 1)" for i
      using ih True that by (cases "i = lineix") auto
    with ih show ?thesis by (simp add: Let_def eq)
  next
    case False
    then have eq: "?r lineix = (if lineix < length lines then lineix else length lines)"
      by (subst FindNextMultiLineCommentStart.simps) (auto simp: opens_comment_def)
    with False "1.prems" show ?thesis by (auto simp: Let_def)
  qed
qed

lemma FindNextMultiLineCommentEnd_spec:
  "lineix \<le> length lines \<Longrightarrow>
   (let r = FindNextMultiLineCommentEnd lines lineix in
    lineix \<le> r \<and> r \<le> length lines \<and>
    (\<forall>i. lineix \<le> i \<and> i < r \<longrightarrow> \<not> closes_comment (lines ! i)) \<and>
    (r < length lines \<longrightarrow> closes_comment (lines ! r)))"
proof (induction lines lineix rule: FindNextMultiLineCommentEnd.induct)
  case (1 lines lineix)
  let ?r = "FindNextMultiLineCommentEnd lines"
  show ?case
  proof (cases "lineix < length lines \<and> \<not> closes_comment (lines ! lineix)")
    case True
    then have eq: "?r lineix = ?r (lineix + 1)"
      by (subst FindNextMultiLineCommentEnd.simps) (auto simp: closes_comment_def)
    have "\<not> endswith (py_strip (lines ! lineix)) ''*/''"
      using True by (simp add: closes_comment_def)
    from "1.IH"[OF _ this] True have ih: "lineix + 1 \<le> ?r (lineix + 1) \<and> ?r (lineix + 1) \<le> length lines \<and>
      (\<forall>i. lineix + 1 \<le> i \<and> i < ?r (lineix + 1) \<longrightarrow> \<not> closes_comment (lines ! i)) \<and>
      (?r (lineix + 1) < length lines \<longrightarrow> closes_comment (lines ! ?r (lineix + 1)))"
      by (simp add: Let_def)
    have "\<not> closes_comment (lines ! i)" if "lineix \<le> i" "i < ?r (lineix + 1)" for i
      using ih True that by (cases "i = lineix") auto
    with ih show ?thesis by (simp add: Let_def eq)
  next
    case False
    then have eq: "?r lineix = (if lineix < length lines then lineix else length lines)"
      by (subst FindNextMultiLineCommentEnd.simps) (auto simp: closes_comment_def)
    with False "1.prems" show ?thesis by (auto simp: Let_def)
  qed
qed

lemmas comment_start_bounds = FindNextMultiLineCommentStart_spec[unfolded Let_def, THEN conjunct1]
  FindNextMultiLineCommentStart_spec[unfolded Let_def, THEN conjunct2, THEN conjunct1]

lemmas comment_end_bounds = FindNextMultiLineCommentEnd_spec[unfolded Let_def, THEN conjunct1]
  FindNextMultiLineCommentEnd_spec[unfolded Let_def, THEN conjunct2, THEN conjunct1]

lemma fold_update_length: "length (fold (\<lambda>i ls. ls[i := x]) is ls) = length ls"
  by (induction "is" arbitrary: ls) auto

lemma length_RemoveMultiLineCommentsFromRange [simp]:
  "length (RemoveMultiLineCommentsFromRange lines b e) = length lines"
  by (simp add: RemoveMultiLineCommentsFromRange_def fold_update_length)

lemma fold_update_nth:
  "i < length ls \<Longrightarrow> fold (\<lambda>i ls. ls[i := x]) is ls ! i = (if i \<in> set is then x else ls ! i)"
  by (induction "is" arbitrary: ls) (auto simp: nth_list_update)

lemma nth_RemoveMultiLineCommentsFromRange:
  "i < length lines \<Longrightarrow> RemoveMultiLineCommentsFromRange lines b e ! i =
     (if b \<le> i \<and> i < e then ''/**/'' else lines ! i)"
  by (simp add: RemoveMultiLineCommentsFromRange_def fold_update_nth)

text \<open>
  The loop of \<open>RemoveMultiLineComments\<close>: it returns the list, which the code updates in place,
  and the state of the \<open>error\<close> callback.
\<close>

function remove_comments_from ::
  "'s error_fn \<Rightarrow> string \<Rightarrow> string list \<Rightarrow> nat \<Rightarrow> 's \<Rightarrow> (string list \<times> 's) py" where
  "remove_comments_from error filename lines lineix s =
     (if lineix < length lines then
        (let lineix_begin = FindNextMultiLineCommentStart lines lineix
         in if lineix_begin \<ge> length lines then Inr (lines, s)
            else
              (let lineix_end = FindNextMultiLineCommentEnd lines lineix_begin
               in if lineix_end \<ge> length lines
                  then py_bind (error filename (Some (int lineix_begin + 1))
                                  ''readability/multiline_comment'' 5
                                  ''Could not find end of multi-line comment'' s)
                         (\<lambda>s'. Inr (lines, s'))
                  else remove_comments_from error filename
                         (RemoveMultiLineCommentsFromRange lines lineix_begin (lineix_end + 1))
                         (lineix_end + 1) s))
      else Inr (lines, s))"
  by pat_completeness auto
termination
proof (relation "measure (\<lambda>(error, filename, lines, lineix, s). length lines - lineix)", goal_cases)
  case 1
  show ?case by simp
next
  case (2 error filename lines lineix s b e)
  have "lineix \<le> b" using 2 comment_start_bounds(1)[of lineix lines] by simp
  moreover have "b \<le> e" using 2 comment_end_bounds(1)[of b lines] by simp
  ultimately show ?case using 2 by simp
qed

declare remove_comments_from.simps [simp del]

definition RemoveMultiLineComments ::
  "'s error_fn \<Rightarrow> string \<Rightarrow> string list \<Rightarrow> 's \<Rightarrow> (string list \<times> 's) py" where
  "RemoveMultiLineComments error filename lines s = remove_comments_from error filename lines 0 s"

text \<open>
  What the pass amounts to: one walk over the lines that knows whether it is inside a comment.
  A line that belongs to a comment becomes \<open>/**/\<close>.
\<close>

fun blank_comments :: "bool \<Rightarrow> string list \<Rightarrow> string list" where
  "blank_comments inside [] = []"
| "blank_comments inside (l # ls) =
     (let now = inside \<or> opens_comment l
      in (if now then ''/**/'' else l) # blank_comments (now \<and> \<not> closes_comment l) ls)"

fun ends_inside :: "bool \<Rightarrow> string list \<Rightarrow> bool" where
  "ends_inside inside [] = inside"
| "ends_inside inside (l # ls) =
     ends_inside ((inside \<or> opens_comment l) \<and> \<not> closes_comment l) ls"

lemma length_blank_comments [simp]: "length (blank_comments inside ls) = length ls"
  by (induction ls arbitrary: inside) (auto simp: Let_def)

lemma blank_comments_outside:
  "\<forall>l \<in> set a. \<not> opens_comment l \<Longrightarrow>
   blank_comments False (a @ ls) = a @ blank_comments False ls \<and>
   ends_inside False (a @ ls) = ends_inside False ls"
  by (induction a) (auto simp: Let_def)

lemma blank_comments_inside:
  "\<forall>l \<in> set r. \<not> closes_comment l \<Longrightarrow>
   blank_comments True (r @ ls) = replicate (length r) ''/**/'' @ blank_comments True ls \<and>
   ends_inside True (r @ ls) = ends_inside True ls"
  by (induction r) (auto simp: Let_def)

lemma blank_comments_enter:
  "opens_comment b \<Longrightarrow>
   blank_comments False (b # ls) = blank_comments True (b # ls) \<and>
   ends_inside False (b # ls) = ends_inside True (b # ls)"
  by simp

lemma blank_comments_region:
  assumes "opens_comment (hd (r @ [c]))" and "\<forall>l \<in> set r. \<not> closes_comment l" and "closes_comment c"
  shows "blank_comments False (r @ c # ls) = replicate (length r + 1) ''/**/'' @ blank_comments False ls \<and>
     ends_inside False (r @ c # ls) = ends_inside False ls"
proof -
  obtain b t where bt: "r @ c # ls = b # t" "opens_comment b"
    using assms(1) by (cases r) auto
  have "blank_comments False (r @ c # ls) = blank_comments True (r @ c # ls) \<and>
      ends_inside False (r @ c # ls) = ends_inside True (r @ c # ls)"
    using blank_comments_enter[OF bt(2), of t] by (simp only: bt(1))
  then show ?thesis using blank_comments_inside[OF assms(2), of "c # ls"] assms(3)
    by (simp add: replicate_append_same)
qed

lemma RemoveRange_append:
  "RemoveMultiLineCommentsFromRange (a @ r @ z) (length a) (length a + length r) =
   a @ replicate (length r) ''/**/'' @ z"
  by (rule nth_equalityI) (auto simp: nth_RemoveMultiLineCommentsFromRange nth_append)


text \<open>Where the two searches stop, in terms of the lines before and after.\<close>

lemma FindStart_at:
  assumes "\<forall>l \<in> set a. \<not> opens_comment l" and "opens_comment b"
  shows "FindNextMultiLineCommentStart (front @ a @ b # z) (length front) = length front + length a"
  using assms(1)
proof (induction a arbitrary: front)
  case Nil
  with assms(2) show ?case
    by (subst FindNextMultiLineCommentStart.simps) (simp add: opens_comment_def)
next
  case (Cons x a)
  have "\<not> opens_comment x" using Cons.prems by simp
  then have "FindNextMultiLineCommentStart (front @ (x # a) @ b # z) (length front) =
      FindNextMultiLineCommentStart ((front @ [x]) @ a @ b # z) (length (front @ [x]))"
    by (subst FindNextMultiLineCommentStart.simps) (auto simp: opens_comment_def)
  with Cons.IH[of "front @ [x]"] Cons.prems show ?case by simp
qed

lemma FindStart_none:
  "\<forall>l \<in> set a. \<not> opens_comment l \<Longrightarrow>
   FindNextMultiLineCommentStart (front @ a) (length front) = length (front @ a)"
proof (induction a arbitrary: front)
  case Nil
  then show ?case by (subst FindNextMultiLineCommentStart.simps) simp
next
  case (Cons x a)
  have "\<not> opens_comment x" using Cons.prems by simp
  then have "FindNextMultiLineCommentStart (front @ x # a) (length front) =
      FindNextMultiLineCommentStart ((front @ [x]) @ a) (length (front @ [x]))"
    by (subst FindNextMultiLineCommentStart.simps) (auto simp: opens_comment_def)
  with Cons.IH[of "front @ [x]"] Cons.prems show ?case by simp
qed

lemma FindEnd_at:
  assumes "\<forall>l \<in> set a. \<not> closes_comment l" and "closes_comment b"
  shows "FindNextMultiLineCommentEnd (front @ a @ b # z) (length front) = length front + length a"
  using assms(1)
proof (induction a arbitrary: front)
  case Nil
  with assms(2) show ?case
    by (subst FindNextMultiLineCommentEnd.simps) (simp add: closes_comment_def)
next
  case (Cons x a)
  have "\<not> closes_comment x" using Cons.prems by simp
  then have "FindNextMultiLineCommentEnd (front @ (x # a) @ b # z) (length front) =
      FindNextMultiLineCommentEnd ((front @ [x]) @ a @ b # z) (length (front @ [x]))"
    by (subst FindNextMultiLineCommentEnd.simps) (auto simp: closes_comment_def)
  with Cons.IH[of "front @ [x]"] Cons.prems show ?case by simp
qed

lemma FindEnd_none:
  "\<forall>l \<in> set a. \<not> closes_comment l \<Longrightarrow>
   FindNextMultiLineCommentEnd (front @ a) (length front) = length (front @ a)"
proof (induction a arbitrary: front)
  case Nil
  then show ?case by (subst FindNextMultiLineCommentEnd.simps) simp
next
  case (Cons x a)
  have "\<not> closes_comment x" using Cons.prems by simp
  then have "FindNextMultiLineCommentEnd (front @ x # a) (length front) =
      FindNextMultiLineCommentEnd ((front @ [x]) @ a) (length (front @ [x]))"
    by (subst FindNextMultiLineCommentEnd.simps) (auto simp: closes_comment_def)
  with Cons.IH[of "front @ [x]"] Cons.prems show ?case by simp
qed

text \<open>One turn of the loop: no comment, a comment without end, a comment with an end.\<close>

abbreviation unterminated :: "'s error_fn \<Rightarrow> string \<Rightarrow> nat \<Rightarrow> 's \<Rightarrow> 's py" where
  "unterminated error filename n s \<equiv>
     error filename (Some (int n + 1)) ''readability/multiline_comment'' 5
       ''Could not find end of multi-line comment'' s"

lemma remove_comments_none:
  "\<forall>l \<in> set a. \<not> opens_comment l \<Longrightarrow>
   remove_comments_from error filename (front @ a) (length front) s = Inr (front @ a, s)"
  by (subst remove_comments_from.simps) (simp add: FindStart_none)

lemma remove_comments_open:
  assumes "\<forall>l \<in> set a. \<not> opens_comment l" and "opens_comment b"
    and "\<forall>l \<in> set (b # z). \<not> closes_comment l"
  shows "remove_comments_from error filename (front @ a @ b # z) (length front) s =
    py_bind (unterminated error filename (length (front @ a)) s) (\<lambda>s'. Inr (front @ a @ b # z, s'))"
proof -
  have e: "FindNextMultiLineCommentEnd (front @ a @ b # z) (length (front @ a)) = length (front @ a @ b # z)"
    using FindEnd_none[of "b # z" "front @ a"] assms(3) by simp
  show ?thesis
    using FindStart_at[OF assms(1,2), of front z] e
    by (subst remove_comments_from.simps) simp
qed

lemma remove_comments_region:
  assumes "\<forall>l \<in> set a. \<not> opens_comment l" and "opens_comment (hd (r @ [c]))"
    and "\<forall>l \<in> set r. \<not> closes_comment l" and "closes_comment c"
  shows "remove_comments_from error filename (front @ a @ r @ c # z) (length front) s =
    remove_comments_from error filename ((front @ a @ replicate (length r + 1) ''/**/'') @ z)
      (length (front @ a @ replicate (length r + 1) ''/**/'')) s"
proof -
  let ?lines = "front @ a @ r @ c # z"
  obtain b t where bt: "r @ c # z = b # t" "opens_comment b"
    using assms(2) by (cases r) auto
  have st: "FindNextMultiLineCommentStart ?lines (length front) = length front + length a"
    using FindStart_at[OF assms(1) bt(2), of front t] bt(1) by simp
  have en: "FindNextMultiLineCommentEnd ?lines (length front + length a) = length front + length a + length r"
    using FindEnd_at[OF assms(3,4), of "front @ a" z] by simp
  have bl: "RemoveMultiLineCommentsFromRange ?lines (length front + length a) (length front + length a + length r + 1) =
      (front @ a @ replicate (length r + 1) ''/**/'') @ z"
    using RemoveRange_append[of "front @ a" "r @ [c]" z] by simp
  show ?thesis
    using st en bl by (subst remove_comments_from.simps) (simp add: Let_def add.assoc)
qed

text \<open>
  From a position outside comments the loop blanks the comments of the remaining lines, and
  reports the first one that has no end.
\<close>

lemma comment_segments:
  obtains (none) "\<forall>l \<in> set rest. \<not> opens_comment l"
  | (open_end) a b z where "rest = a @ b # z" and "\<forall>l \<in> set a. \<not> opens_comment l" and "opens_comment b"
      and "\<forall>l \<in> set (b # z). \<not> closes_comment l"
  | (region) a r c z where "rest = a @ r @ c # z" and "\<forall>l \<in> set a. \<not> opens_comment l"
      and "opens_comment (hd (r @ [c]))" and "\<forall>l \<in> set r. \<not> closes_comment l" and "closes_comment c"
proof (cases "\<exists>l \<in> set rest. opens_comment l")
  case True
  then obtain a b z where ab: "rest = a @ b # z" "opens_comment b" "\<forall>l \<in> set a. \<not> opens_comment l"
    by (metis split_list_first_prop)
  show thesis
  proof (cases "\<exists>l \<in> set (b # z). closes_comment l")
    case True
    then obtain r c z' where r: "b # z = r @ c # z'" "closes_comment c" "\<forall>l \<in> set r. \<not> closes_comment l"
      by (metis split_list_first_prop)
    have "opens_comment (hd (r @ [c]))" using r(1) ab(2) by (cases r) auto
    with r ab region show thesis by metis
  qed (use ab open_end in blast)
qed (use none in blast)

lemma remove_comments_from_spec:
  "(\<not> ends_inside False rest \<longrightarrow>
      remove_comments_from error filename (front @ rest) (length front) s =
        Inr (front @ blank_comments False rest, s)) \<and>
   (ends_inside False rest \<longrightarrow>
      (\<exists>pre b post. rest = pre @ b # post \<and> \<not> ends_inside False pre \<and> opens_comment b \<and>
         (\<forall>l \<in> set (b # post). \<not> closes_comment l) \<and>
         remove_comments_from error filename (front @ rest) (length front) s =
           py_bind (unterminated error filename (length front + length pre) s)
             (\<lambda>s'. Inr (front @ blank_comments False pre @ b # post, s'))))"
proof (induction rest arbitrary: front rule: length_induct)
  case (1 rest)
  show ?case
  proof (cases rest rule: comment_segments)
    case none
    then show ?thesis
      using blank_comments_outside[OF none, of "[]"] by (simp add: remove_comments_none)
  next
    case (open_end a b z)
    note ba = blank_comments_outside[OF open_end(2)]
    have "ends_inside True (b # z)" using blank_comments_inside[OF open_end(4), of "[]"] by simp
    then have "ends_inside False rest" using ba[of "b # z"] open_end(1,3) by simp
    moreover have "remove_comments_from error filename (front @ rest) (length front) s =
        py_bind (unterminated error filename (length front + length a) s)
          (\<lambda>s'. Inr (front @ blank_comments False a @ b # z, s'))"
      using remove_comments_open[OF open_end(2-4), of error filename front s] ba[of "[]"] open_end(1) by simp
    moreover have "\<not> ends_inside False a" using ba[of "[]"] by auto
    ultimately show ?thesis using open_end(1,3,4) by blast
  next
    case (region a r c z)
    let ?blank = "replicate (length r + 1) ''/**/''"
    have bz: "blank_comments False (a @ r @ c # q) = a @ ?blank @ blank_comments False q \<and>
        ends_inside False (a @ r @ c # q) = ends_inside False q" for q
      using blank_comments_outside[OF region(2), of "r @ c # q"]
        blank_comments_region[OF region(3-5), of q] by simp
    note step = remove_comments_region[OF region(2-5), of error filename front z s]
    have IH: "(\<not> ends_inside False z \<longrightarrow> remove_comments_from error filename (front @ rest) (length front) s =
          Inr ((front @ a @ ?blank) @ blank_comments False z, s)) \<and>
      (ends_inside False z \<longrightarrow> (\<exists>pre b post. z = pre @ b # post \<and> \<not> ends_inside False pre \<and> opens_comment b \<and>
         (\<forall>l \<in> set (b # post). \<not> closes_comment l) \<and>
         remove_comments_from error filename (front @ rest) (length front) s =
           py_bind (unterminated error filename (length (front @ a @ ?blank) + length pre) s)
             (\<lambda>s'. Inr ((front @ a @ ?blank) @ blank_comments False pre @ b # post, s'))))"
      unfolding region(1) step by (rule 1[rule_format]) (simp add: region(1))
    show ?thesis
    proof (cases "ends_inside False z")
      case False
      with IH bz region(1) show ?thesis by simp
    next
      case True
      with IH obtain pre b post where p: "z = pre @ b # post" "\<not> ends_inside False pre" "opens_comment b"
         "\<forall>l \<in> set (b # post). \<not> closes_comment l"
         "remove_comments_from error filename (front @ rest) (length front) s =
           py_bind (unterminated error filename (length (front @ a @ ?blank) + length pre) s)
             (\<lambda>s'. Inr ((front @ a @ ?blank) @ blank_comments False pre @ b # post, s'))" by blast
      have "length (front @ a @ ?blank) + length pre = length front + length (a @ r @ c # pre)" by simp
      with p bz[of pre] have "rest = (a @ r @ c # pre) @ b # post \<and> \<not> ends_inside False (a @ r @ c # pre) \<and>
          remove_comments_from error filename (front @ rest) (length front) s =
           py_bind (unterminated error filename (length front + length (a @ r @ c # pre)) s)
             (\<lambda>s'. Inr (front @ blank_comments False (a @ r @ c # pre) @ b # post, s'))"
        using region(1) by simp
      with p(3,4) bz[of z] True region(1) show ?thesis by blast
    qed
  qed
qed

section \<open>Comments and strings on one line\<close>

definition CleanseComments :: "string \<Rightarrow> string" where
  "CleanseComments line =
     (let commentpos = py_find line ''//'';
          line' = (if commentpos \<noteq> -1 \<and> \<not> IsCppString (py_upto line commentpos)
                   then py_rstrip (py_upto line commentpos) else line)
      in re_sub CLEANSE_LINE_C_COMMENTS (\<lambda>_. '''') line')"

lemma FIRST_QUOTE_compiled:
  "re_compile FIRST_QUOTE =
     Some (RSeq RBol (RSeq (RGroup 1 (RStar True (RSet False [CChar (CHR 0x27), CChar (CHR 0x22)])))
       (RSeq (RGroup 2 (RSet True [CChar (CHR 0x27), CChar (CHR 0x22)]))
       (RSeq (RGroup 3 (RStar True RAny)) REol))))"
  by code_simp

lemma FIRST_QUOTE_split:
  assumes "Match FIRST_QUOTE line = Some m"
  shows "\<exists>q e. line = grp m 1 @ q # grp m 3 @ e \<and> grp m 2 = [q] \<and> q \<in> {CHR 0x27, CHR 0x22} \<and>
    CHR 0x27 \<notin> set (grp m 1) \<and> CHR 0x22 \<notin> set (grp m 1) \<and> newline_char \<notin> set (grp m 3) \<and>
    e \<in> {[], [newline_char]}"
  using Match_SomeD[OF assms FIRST_QUOTE_compiled]
  by (simp only: runs_eval) (auto simp: set_accepts_def list_all_iff)

lemma FIRST_QUOTE_shorter: "Match FIRST_QUOTE line = Some m \<Longrightarrow> length (grp m 3) < length line"
proof -
  assume "Match FIRST_QUOTE line = Some m"
  from FIRST_QUOTE_split[OF this] obtain q e where L: "line = grp m 1 @ q # grp m 3 @ e" by blast
  show ?thesis using arg_cong[OF L, of length] by simp
qed

lemma Matches_FIRST_QUOTE_at:
  assumes "q \<in> {CHR 0x27, CHR 0x22}" and "CHR 0x27 \<notin> set h" and "CHR 0x22 \<notin> set h"
    and "newline_char \<notin> set t"
  shows "Matches FIRST_QUOTE (h @ q # t)"
  unfolding Matches_bex[OF FIRST_QUOTE_compiled]
  by (simp only: runs_eval simp_thms, rule exI[of _ h], rule exI[of _ "q # t"])
     (use assms in \<open>auto simp: set_accepts_def list_all_iff\<close>)

lemma DIGITS_AT_END_compiled:
  "re_compile DIGITS_AT_END =
     Some (RSeq RWordB (RSeq (RAlt (RSeq (RLit (CHR ''0''))
         (RAlt (RSeq (RSet True [CChar (CHR ''b''), CChar (CHR ''B''), CChar (CHR ''x''), CChar (CHR ''X'')]) REps) REps))
         (RSet True [CRange (CHR ''1'') (CHR ''9'')]))
       (RSeq (RStar True (RSet True [CRange (CHR ''0'') (CHR ''9''), CRange (CHR ''a'') (CHR ''f''),
          CRange (CHR ''A'') (CHR ''F'')])) REol)))"
  by code_simp

lemma DIGITS_AT_END_nonempty: "Finds DIGITS_AT_END s \<Longrightarrow> s \<noteq> []"
proof
  assume "s = []"
  moreover have "\<not> Finds DIGITS_AT_END []" by code_simp
  moreover assume "Finds DIGITS_AT_END s"
  ultimately show False by simp
qed

lemma NUMBER_LITERAL_compiled:
  "re_compile NUMBER_LITERAL =
     Some (RSeq RBol (RSeq (RGroup 1 (RStar True (RSeq (RAlt (RSeq (RLit (CHR 0x27)) REps) REps)
         (RSet True [CRange (CHR ''0'') (CHR ''9''), CRange (CHR ''a'') (CHR ''z''),
           CRange (CHR ''A'') (CHR ''Z''), CChar (CHR ''_'')]))))
       (RSeq (RGroup 2 (RStar True RAny)) REol)))"
  by code_simp

text \<open>The literal matches every text on one line, and its two groups are the text.\<close>

lemma runs_star_stop: "s \<in> set (runs (RStar g r) s)"
  by (subst runs.simps(6)) (auto simp: Let_def)

lemma Matches_NUMBER_LITERAL: "newline_char \<notin> set s \<Longrightarrow> Matches NUMBER_LITERAL s"
proof -
  assume s: "newline_char \<notin> set s"
  have "\<exists>s2 \<in> set (runs (RGroup 2 (RStar True RAny)) (capture 1 (MS [] s []) (MS [] s []))). at_eol s2 \<and> True"
    by (simp only: runs_eval, intro exI[of _ s] exI[of _ "[]"]) (simp add: s)
  then show ?thesis
    unfolding Matches_bex[OF NUMBER_LITERAL_compiled]
    by (simp only: bex_runs_Seq bex_runs_Group[of 1] bex_runs_atoms at_bol_def mstate.sel)
       (blast intro: runs_star_stop)
qed

lemma NUMBER_LITERAL_split:
  assumes "Match NUMBER_LITERAL s = Some m"
  shows "\<exists>e. s = grp m 1 @ grp m 2 @ e"
proof -
  from Match_SomeD[OF assms NUMBER_LITERAL_compiled] obtain s1 s2 s3 where
    s1: "s1 \<in> set (runs (RGroup 1 (RStar True (RSeq (RAlt (RSeq (RLit (CHR 0x27)) REps) REps)
         (RSet True [CRange (CHR ''0'') (CHR ''9''), CRange (CHR ''a'') (CHR ''z''),
           CRange (CHR ''A'') (CHR ''Z''), CChar (CHR ''_'')])))) (MS [] s []))"
    and s2: "s2 \<in> set (runs (RGroup 2 (RStar True RAny)) s1)"
    and m: "m = match_of [] s s2"
    by (auto simp only: bex_runs_Seq bex_runs_atoms)
  obtain w1 where w1: "s1 = MS (rev w1) (rgt s1) [(1, 0, w1)]" "s = w1 @ rgt s1"
    using runs_group_step[OF s1] by auto
  obtain w2 where w2: "s2 = MS (rev w2 @ lft s1) (rgt s2) ((2, length (lft s1), w2) # caps s1)"
      "rgt s1 = w2 @ rgt s2"
    using runs_group_step[OF s2] by auto
  have "caps s1 = [(1, 0, w1)]" using w1(1) by (metis mstate.sel(3))
  then have "grp m 1 = w1" "grp m 2 = w2"
    unfolding m by (subst w2(1), simp)+
  with w1(2) w2(2) show ?thesis by auto
qed

text \<open>
  The loop of \<open>_CollapseStrings\<close>.  Every turn cuts the first quote and what belongs to it off
  the rest of the line.
\<close>

function collapse_loop :: "string \<Rightarrow> string \<Rightarrow> string py" where
  "collapse_loop collapsed elided =
     (case Match FIRST_QUOTE elided of
        None \<Rightarrow> Inr (collapsed @ elided)
      | Some m \<Rightarrow>
          if grp m 2 = [CHR 0x22] then
            (let second_quote = py_find (grp m 3) [CHR 0x22]
             in if second_quote \<ge> 0
                then collapse_loop (collapsed @ grp m 1 @ [CHR 0x22, CHR 0x22])
                       (py_from (grp m 3) (second_quote + 1))
                else Inr (collapsed @ elided))
          else if Finds DIGITS_AT_END (grp m 1) then
            (case Match NUMBER_LITERAL (CHR 0x27 # grp m 3) of
               None \<Rightarrow> Inl AttributeError
             | Some match_literal \<Rightarrow>
                 collapse_loop (collapsed @ grp m 1 @ py_replace (grp match_literal 1) [CHR 0x27] [])
                   (grp match_literal 2))
          else
            (let second_quote = py_find (grp m 3) [CHR 0x27]
             in if second_quote \<ge> 0
                then collapse_loop (collapsed @ grp m 1 @ [CHR 0x27, CHR 0x27])
                       (py_from (grp m 3) (second_quote + 1))
                else Inr (collapsed @ elided)))"
  by pat_completeness auto
termination
proof (relation "measure (\<lambda>(collapsed, elided). length elided)", goal_cases)
  case 1
  show ?case by simp
next
  case (2 collapsed elided m second_quote)
  from FIRST_QUOTE_shorter[OF 2(1)] 2 show ?case by (simp add: py_from_nonneg)
next
  case (3 collapsed elided m ml)
  obtain q e where e: "elided = grp m 1 @ q # grp m 3 @ e" using FIRST_QUOTE_split[OF 3(1)] by blast
  obtain e' where e': "CHR 0x27 # grp m 3 = grp ml 1 @ grp ml 2 @ e'" using NUMBER_LITERAL_split[OF 3(4)] by blast
  have "grp m 1 \<noteq> []" by (rule DIGITS_AT_END_nonempty[OF 3(3)])
  with arg_cong[OF e, of length] arg_cong[OF e', of length] show ?case by (cases "grp m 1") auto
next
  case (4 collapsed elided m second_quote)
  from FIRST_QUOTE_shorter[OF 4(1)] 4 show ?case by (simp add: py_from_nonneg)
qed

declare collapse_loop.simps [simp del]

definition CollapseStrings :: "string \<Rightarrow> string py" where
  "CollapseStrings elided =
     (if Matches RE_PATTERN_INCLUDE elided then Inr elided
      else collapse_loop [] (re_sub CLEANSE_LINE_ESCAPES (\<lambda>_. '''') elided))"

lemma collapse_loop_total: "\<exists>out. collapse_loop collapsed elided = Inr out"
proof (induction collapsed elided rule: collapse_loop.induct)
  case (1 collapsed elided)
  show ?case
  proof (cases "Match FIRST_QUOTE elided")
    case None
    then show ?thesis by (simp add: collapse_loop.simps[of collapsed])
  next
    case (Some m)
    have "newline_char \<notin> set (CHR 0x27 # grp m 3)" using FIRST_QUOTE_split[OF Some] by auto
    then obtain ml where "Match NUMBER_LITERAL (CHR 0x27 # grp m 3) = Some ml"
      using Matches_NUMBER_LITERAL by blast
    then show ?thesis
      using Some "1.IH"[OF Some] by (subst collapse_loop.simps) (auto simp: Let_def)
  qed
qed

lemma CollapseStrings_total: "\<exists>out. CollapseStrings elided = Inr out"
  by (simp add: CollapseStrings_def collapse_loop_total)

section \<open>\<open>CleansedLines\<close>\<close>

record cleansed_lines =
  cl_elided :: "string list"
  cl_lines :: "string list"
  cl_raw_lines :: "string list"
  cl_num_lines :: int
  cl_lines_without_raw_strings :: "string list"

definition CleansedLines :: "string list \<Rightarrow> cleansed_lines py" where
  "CleansedLines lines =
     py_bind (CleanseRawStrings lines) (\<lambda>no_raw.
     py_bind (py_map CollapseStrings no_raw) (\<lambda>collapsed.
       Inr \<lparr>cl_elided = map CleanseComments collapsed,
            cl_lines = map CleanseComments no_raw,
            cl_raw_lines = lines,
            cl_num_lines = int (length lines),
            cl_lines_without_raw_strings = no_raw\<rparr>))"

definition NumLines :: "cleansed_lines \<Rightarrow> int" where
  "NumLines clean_lines = cl_num_lines clean_lines"

text \<open>All the views of the file have one line per line of the file.\<close>

definition views_ok :: "cleansed_lines \<Rightarrow> bool" where
  "views_ok c \<longleftrightarrow> length (cl_elided c) = length (cl_raw_lines c) \<and>
     length (cl_lines c) = length (cl_raw_lines c) \<and>
     length (cl_lines_without_raw_strings c) = length (cl_raw_lines c) \<and>
     cl_num_lines c = int (length (cl_raw_lines c))"

lemma CleansedLines_ok: "\<exists>c. CleansedLines lines = Inr c \<and> views_ok c \<and> cl_raw_lines c = lines"
proof -
  obtain no_raw where r: "CleanseRawStrings lines = Inr no_raw" "length no_raw = length lines"
    using CleanseRawStrings_total by blast
  obtain collapsed where "py_map CollapseStrings no_raw = Inr collapsed" "length collapsed = length no_raw"
    using py_map_total[of no_raw CollapseStrings] CollapseStrings_total by blast
  with r show ?thesis by (simp add: CleansedLines_def views_ok_def)
qed

section \<open>Properties\<close>

lemma scan_no_match:
  "(\<And>a b. s = a @ b \<Longrightarrow> match_at r (rev a @ l) b = None) \<Longrightarrow> scan r l skipped s = ([], rev skipped @ s)"
proof (induction s arbitrary: l skipped)
  case Nil
  have "match_at r l [] = None" using Nil[of "[]" "[]"] by simp
  then show ?case by (simp add: scan.simps[of r l skipped])
next
  case (Cons c s)
  have "match_at r l (c # s) = None" using Cons.prems[of "[]"] by simp
  moreover have "scan r (c # l) (c # skipped) s = ([], rev (c # skipped) @ s)"
  proof (rule Cons.IH)
    fix a b
    assume "s = a @ b"
    then show "match_at r (rev a @ c # l) b = None" using Cons.prems[of "c # a" b] by simp
  qed
  ultimately show ?case by (simp add: scan.simps[of r l skipped])
qed

lemma re_sub_no_match: "\<not> Finds p s \<Longrightarrow> re_sub p f s = s"
  by (auto simp: re_sub_def sub_re_def Search_def search_at_None_iff scan_no_match split: option.splits)

lemma CLEANSE_LINE_ESCAPES_compiled:
  "re_compile CLEANSE_LINE_ESCAPES = Some (RSeq (RLit backslash_char) (RGroup 1 (RAlt
       (RAlt (RSet True [CChar (CHR ''a''), CChar (CHR ''b''), CChar (CHR ''f''), CChar (CHR ''n''),
                CChar (CHR ''r''), CChar (CHR ''t''), CChar (CHR ''v''), CChar (CHR ''?''), CChar (CHR 0x22),
                CChar backslash_char, CChar (CHR 0x27)])
             (RSeq (RSet True [CDigit True]) (RStar True (RSet True [CDigit True]))))
       (RSeq (RLit (CHR ''x''))
         (RSeq (RSet True [CRange (CHR ''0'') (CHR ''9''), CRange (CHR ''a'') (CHR ''f''), CRange (CHR ''A'') (CHR ''F'')])
           (RStar True (RSet True [CRange (CHR ''0'') (CHR ''9''), CRange (CHR ''a'') (CHR ''f''),
             CRange (CHR ''A'') (CHR ''F'')])))))))"
  by code_simp

lemma no_escapes:
  assumes "backslash_char \<notin> set s"
  shows "re_sub CLEANSE_LINE_ESCAPES f s = s"
proof (rule re_sub_no_match)
  have no: "runs (RSeq (RLit backslash_char) r) (MS (rev a) b []) = []" if "s = a @ b" for a b r
    using assms that by (cases b) (auto simp: set_accepts_lit)
  show "\<not> Finds CLEANSE_LINE_ESCAPES s"
    by (simp only: Finds_iff[OF CLEANSE_LINE_ESCAPES_compiled] no cong: conj_cong) simp
qed

lemma RE_PATTERN_INCLUDE_compiled:
  "re_compile RE_PATTERN_INCLUDE =
     Some (RSeq RBol (RSeq (RStar True (RSet True [CSpace True])) (RSeq (RLit (CHR ''#''))
       (RSeq (RStar True (RSet True [CSpace True])) (RSeq (RLit (CHR ''i''))
       (RSeq (RLit (CHR ''n'')) (RSeq (RLit (CHR ''c'')) (RSeq (RLit (CHR ''l''))
       (RSeq (RLit (CHR ''u'')) (RSeq (RLit (CHR ''d'')) (RSeq (RLit (CHR ''e''))
       (RSeq (RStar True (RSet True [CSpace True]))
       (RSeq (RGroup 1 (RSet True [CChar (CHR ''<''), CChar (CHR 0x22)]))
       (RSeq (RGroup 2 (RStar True (RSet False [CChar (CHR ''>''), CChar (CHR 0x22)])))
       (RSeq (RSet True [CChar (CHR ''>''), CChar (CHR 0x22)])
       (RSeq (RStar True RAny) REol))))))))))))))))"
  by code_simp

lemma not_an_include:
  assumes "CHR ''#'' \<notin> set head"
  shows "\<not> Matches RE_PATTERN_INCLUDE (head @ CHR 0x22 # s)"
proof
  assume "Matches RE_PATTERN_INCLUDE (head @ CHR 0x22 # s)"
  then obtain w v where w: "head @ CHR 0x22 # s = w @ CHR ''#'' # v" "list_all is_space w"
    unfolding Matches_bex[OF RE_PATTERN_INCLUDE_compiled]
    by (simp only: bex_runs_Seq bex_runs_atoms bex_runs_star_class[of True True "[CSpace True]" "[]"]
          bex_runs_Set[of _ "[CChar (CHR ''#'')]"]) (auto simp: set_accepts_lit)
  have "CHR 0x22 \<in> set w"
  proof (rule ccontr)
    assume "CHR 0x22 \<notin> set w"
    with w(1) assms show False by (auto simp: append_eq_append_conv2 Cons_eq_append_conv append_eq_Cons_conv)
  qed
  with w(2) have "is_space (CHR 0x22)" by (auto simp: list_all_iff)
  then show False by (simp add: is_space_def)
qed

lemma collapse_double_quoted:
  assumes "CHR 0x22 \<notin> set head" and "CHR 0x27 \<notin> set head" and "CHR 0x22 \<notin> set body"
    and "newline_char \<notin> set (body @ rest)"
  shows "collapse_loop collapsed (head @ CHR 0x22 # body @ CHR 0x22 # rest) =
    collapse_loop (collapsed @ head @ [CHR 0x22, CHR 0x22]) rest"
proof -
  let ?line = "head @ CHR 0x22 # body @ CHR 0x22 # rest"
  obtain m where m: "Match FIRST_QUOTE ?line = Some m"
    using Matches_FIRST_QUOTE_at[of "CHR 0x22" head "body @ CHR 0x22 # rest"] assms by auto
  obtain q e where s: "?line = grp m 1 @ q # grp m 3 @ e" "grp m 2 = [q]" "q \<in> {CHR 0x27, CHR 0x22}"
    "CHR 0x27 \<notin> set (grp m 1)" "CHR 0x22 \<notin> set (grp m 1)" "e \<in> {[], [newline_char]}"
    using FIRST_QUOTE_split[OF m] by blast
  have cut: "head = grp m 1 \<and> CHR 0x22 = q \<and> body @ CHR 0x22 # rest = grp m 3 @ e"
    by (rule split_at_first[where P = "\<lambda>c. c \<in> {CHR 0x27, CHR 0x22}"]) (use s assms(1,2) in auto)
  have "newline_char \<notin> set (body @ CHR 0x22 # rest)" using assms(4) by simp
  then have "newline_char \<notin> set (grp m 3 @ e)" using cut by metis
  with s(6) have "e = []" by auto
  with cut s(2) have g: "grp m 1 = head" "grp m 2 = [CHR 0x22]" "grp m 3 = body @ CHR 0x22 # rest"
    by auto
  have "py_find (body @ CHR 0x22 # rest) [CHR 0x22] = int (length body)"
    using assms(3) by (rule py_find_char)
  then show ?thesis
    by (subst collapse_loop.simps) (simp add: m g[unfolded One_nat_def] Let_def py_from_nonneg nat_add_distrib)
qed





text \<open>The preprocessing never raises an exception and never loses a line: \<open>CleansedLines\<close>
  succeeds on every list of lines, its four views have one line per line of the file, and
  \<open>NumLines\<close> is that number.\<close>

theorem CleansedLines_total_and_aligned:
  "\<exists>c. CleansedLines lines = Inr c \<and> cl_raw_lines c = lines \<and> NumLines c = int (length lines) \<and>
     length (cl_elided c) = length lines \<and> length (cl_lines c) = length lines \<and>
     length (cl_lines_without_raw_strings c) = length lines"
  using CleansedLines_ok[of lines] by (auto simp: views_ok_def NumLines_def)

text \<open>C4: \<open>RemoveMultiLineComments\<close> on a file whose last comment is closed reports nothing and
  is one pass over the lines: a line becomes \<open>/**/\<close> exactly when a comment that opened on it
  or before it has not been closed on an earlier line.\<close>

theorem RemoveMultiLineComments_closed:
  assumes "\<not> ends_inside False lines"
  shows "RemoveMultiLineComments error filename lines s = Inr (blank_comments False lines, s)"
  using remove_comments_from_spec[of lines error filename "[]" s] assms
  by (simp add: RemoveMultiLineComments_def)

lemma RemoveMultiLineComments_closed_witness:
  "RemoveMultiLineComments record_error ''a.cc'' [''/* a'', ''b */'', ''c''] [] =
   Inr ([''/**/'', ''/**/'', ''c''], [])"
proof -
  have "\<not> ends_inside False [''/* a'', ''b */'', ''c'']" by code_simp
  from RemoveMultiLineComments_closed[OF this, of record_error "''a.cc''" "[]"]
  have "RemoveMultiLineComments record_error ''a.cc'' [''/* a'', ''b */'', ''c''] [] =
      Inr (blank_comments False [''/* a'', ''b */'', ''c''], [])" .
  also have "blank_comments False [''/* a'', ''b */'', ''c''] = [''/**/'', ''/**/'', ''c'']" by code_simp
  finally show ?thesis .
qed

text \<open>C31: \<open>RemoveMultiLineComments\<close> on a file with an open comment reports exactly one error, at
  the line that opens it; the lines before that one are cleaned and the rest is left alone.\<close>

theorem RemoveMultiLineComments_open:
  assumes "ends_inside False lines"
  shows "\<exists>pre b post. lines = pre @ b # post \<and> opens_comment b \<and> \<not> ends_inside False pre \<and>
     (\<forall>l \<in> set (b # post). \<not> closes_comment l) \<and>
     RemoveMultiLineComments record_error filename lines log =
       Inr (blank_comments False pre @ b # post,
            log @ [(filename, Some (int (length pre) + 1), ''readability/multiline_comment'', 5,
                    ''Could not find end of multi-line comment'')])"
proof -
  from remove_comments_from_spec[of lines record_error filename "[]" log] assms
  obtain pre b post where p: "lines = pre @ b # post" "\<not> ends_inside False pre" "opens_comment b"
    "\<forall>l \<in> set (b # post). \<not> closes_comment l"
    "RemoveMultiLineComments record_error filename lines log =
       py_bind (unterminated record_error filename (length pre) log)
         (\<lambda>s'. Inr (blank_comments False pre @ b # post, s'))"
    by (auto simp: RemoveMultiLineComments_def)
  from p(5) have "RemoveMultiLineComments record_error filename lines log =
       Inr (blank_comments False pre @ b # post,
            log @ [(filename, Some (int (length pre) + 1), ''readability/multiline_comment'', 5,
                    ''Could not find end of multi-line comment'')])"
    by (simp add: record_error_def)
  with p(1-4) show ?thesis by blast
qed

lemma RemoveMultiLineComments_open_witness:
  "\<exists>pre b post. [''/* a */'', ''/* b'', ''c''] = pre @ b # post \<and> opens_comment b \<and> \<not> ends_inside False pre \<and>
     (\<forall>l \<in> set (b # post). \<not> closes_comment l) \<and>
     RemoveMultiLineComments record_error ''a.cc'' [''/* a */'', ''/* b'', ''c''] [] =
       Inr (blank_comments False pre @ b # post,
            [] @ [(''a.cc'', Some (int (length pre) + 1), ''readability/multiline_comment'', 5,
                    ''Could not find end of multi-line comment'')])"
  by (rule RemoveMultiLineComments_open) code_simp

end
