(* ===== verification/Brackets.thy ===== *)
theory Brackets
  imports Cleansing
begin

text \<open>
  The matching of parentheses, brackets, braces and angle brackets over the lines of a file:
  \<open>FindEndOfExpressionInLine\<close>, \<open>CloseExpression\<close> and their mirror images.  A Python list used
  as a stack is a list whose head is the top.
\<close>

section \<open>Scanning forward\<close>

definition OPERATOR_AT_END :: string where
  \<open>OPERATOR_AT_END = rx ''`boperator`s*$''\<close>

definition SHIFT_OR_LE :: string where
  \<open>SHIFT_OR_LE = rx ''<[<=]''\<close>

definition SPACED_GE :: string where
  \<open>SPACED_GE = rx ''`s>=`s''\<close>

text \<open>\<open>while stack and stack[-1] == c: stack.pop()\<close>\<close>

definition pop_while :: "char \<Rightarrow> string \<Rightarrow> string" where
  "pop_while c stack = dropWhile (\<lambda>d. d = c) stack"

text \<open>
  The loop over the positions of a line.  The result is the position and the new stack, as in
  the code: \<open>(i + 1, None)\<close> at the end of the expression, \<open>(-1, None)\<close> when there is none,
  \<open>(-1, stack)\<close> when the line ends first.
\<close>

fun find_end_loop :: "string \<Rightarrow> int list \<Rightarrow> string \<Rightarrow> (int \<times> string option) py" where
  "find_end_loop line [] stack = Inr (-1, Some stack)"
| "find_end_loop line (i # rest) stack =
     py_bind (py_nth line i) (\<lambda>ch.
       if ch \<in> set ''([{'' then find_end_loop line rest (ch # stack)
       else if ch = CHR ''<'' then
         (if 0 < i \<and> line ! nat (i - 1) = CHR ''<'' then
            (if stack \<noteq> [] \<and> hd stack = CHR ''<''
             then (if tl stack = [] then Inr (-1, None) else find_end_loop line rest (tl stack))
             else find_end_loop line rest stack)
          else if 0 < i \<and> Finds OPERATOR_AT_END (py_upto line i)
          then find_end_loop line rest stack
          else find_end_loop line rest (CHR ''<'' # stack))
       else if ch \<in> set '')]}'' then
         (case pop_while (CHR ''<'') stack of
            [] \<Rightarrow> Inr (-1, None)
          | opener # stack' \<Rightarrow>
              if opener = CHR ''('' \<and> ch = CHR '')'' \<or> opener = CHR ''['' \<and> ch = CHR '']''
                 \<or> opener = CHR ''{'' \<and> ch = CHR ''}''
              then (if stack' = [] then Inr (i + 1, None) else find_end_loop line rest stack')
              else Inr (-1, None))
       else if ch = CHR ''>'' then
         (if 0 < i \<and> (line ! nat (i - 1) = CHR ''-'' \<or> Finds OPERATOR_AT_END (py_upto line (i - 1)))
          then find_end_loop line rest stack
          else if stack \<noteq> [] \<and> hd stack = CHR ''<''
          then (if tl stack = [] then Inr (i + 1, None) else find_end_loop line rest (tl stack))
          else find_end_loop line rest stack)
       else if ch = CHR '';'' then
         (if pop_while (CHR ''<'') stack = [] then Inr (-1, None)
          else find_end_loop line rest (pop_while (CHR ''<'') stack))
       else find_end_loop line rest stack)"

definition FindEndOfExpressionInLine :: "string \<Rightarrow> int \<Rightarrow> string \<Rightarrow> (int \<times> string option) py" where
  "FindEndOfExpressionInLine line startpos stack =
     find_end_loop line (py_range startpos (int (length line))) stack"

text \<open>The lines after the first, while there is something on the stack.\<close>

function close_loop :: "cleansed_lines \<Rightarrow> string \<Rightarrow> int \<Rightarrow> string option \<Rightarrow> (string \<times> int \<times> int) py" where
  "close_loop clean_lines line linenum stack =
     (if stack \<noteq> None \<and> stack \<noteq> Some [] \<and> linenum < NumLines clean_lines - 1 then
        py_bind (py_nth (cl_elided clean_lines) (linenum + 1)) (\<lambda>line'.
        py_bind (FindEndOfExpressionInLine line' 0 (the stack)) (\<lambda>(end_pos, stack').
          if end_pos > -1 then Inr (line', linenum + 1, end_pos)
          else close_loop clean_lines line' (linenum + 1) stack'))
      else Inr (line, NumLines clean_lines, -1))"
  by pat_completeness auto
termination
  by (relation "measure (\<lambda>(c, line, linenum, stack). nat (NumLines c - linenum))") auto

declare close_loop.simps [simp del]

definition CloseExpression :: "cleansed_lines \<Rightarrow> int \<Rightarrow> int \<Rightarrow> (string \<times> int \<times> int) py" where
  "CloseExpression clean_lines linenum pos =
     py_bind (py_nth (cl_elided clean_lines) linenum) (\<lambda>line.
     py_bind (py_nth line pos) (\<lambda>ch.
       if ch \<notin> set ''({[<'' \<or> Matches SHIFT_OR_LE (py_from line pos)
       then Inr (line, NumLines clean_lines, -1)
       else
         py_bind (FindEndOfExpressionInLine line pos []) (\<lambda>(end_pos, stack).
           if end_pos > -1 then Inr (line, linenum, end_pos)
           else close_loop clean_lines line linenum stack)))"

section \<open>Scanning backward\<close>

function FindStartOfExpressionInLine :: "string \<Rightarrow> int \<Rightarrow> string \<Rightarrow> (int \<times> string option) py" where
  "FindStartOfExpressionInLine line i stack =
     (if i \<ge> 0 then
        py_bind (py_nth line i) (\<lambda>ch.
          if ch \<in> set '')]}'' then FindStartOfExpressionInLine line (i - 1) (ch # stack)
          else if ch = CHR ''>'' then
            (if 0 < i \<and> (line ! nat (i - 1) = CHR ''-''
                          \<or> Matches SPACED_GE (py_from line (i - 1))
                          \<or> Finds OPERATOR_AT_END (py_upto line i))
             then FindStartOfExpressionInLine line (i - 2) stack
             else FindStartOfExpressionInLine line (i - 1) (CHR ''>'' # stack))
          else if ch = CHR ''<'' then
            (if 0 < i \<and> line ! nat (i - 1) = CHR ''<''
             then FindStartOfExpressionInLine line (i - 2) stack
             else if stack \<noteq> [] \<and> hd stack = CHR ''>''
             then (if tl stack = [] then Inr (i, None)
                   else FindStartOfExpressionInLine line (i - 1) (tl stack))
             else FindStartOfExpressionInLine line (i - 1) stack)
          else if ch \<in> set ''([{'' then
            (case pop_while (CHR ''>'') stack of
               [] \<Rightarrow> Inr (-1, None)
             | opener # stack' \<Rightarrow>
                 if ch = CHR ''('' \<and> opener = CHR '')'' \<or> ch = CHR ''['' \<and> opener = CHR '']''
                    \<or> ch = CHR ''{'' \<and> opener = CHR ''}''
                 then (if stack' = [] then Inr (i, None)
                       else FindStartOfExpressionInLine line (i - 1) stack')
                 else Inr (-1, None))
          else if ch = CHR '';'' then
            (if pop_while (CHR ''>'') stack = [] then Inr (-1, None)
             else FindStartOfExpressionInLine line (i - 1) (pop_while (CHR ''>'') stack))
          else FindStartOfExpressionInLine line (i - 1) stack)
      else Inr (-1, Some stack))"
  by pat_completeness auto
termination
  by (relation "measure (\<lambda>(line, i, stack). nat (i + 1))") auto

declare FindStartOfExpressionInLine.simps [simp del]

function reverse_close_loop :: "cleansed_lines \<Rightarrow> string \<Rightarrow> int \<Rightarrow> string option \<Rightarrow> (string \<times> int \<times> int) py" where
  "reverse_close_loop clean_lines line linenum stack =
     (if stack \<noteq> None \<and> stack \<noteq> Some [] \<and> linenum > 0 then
        py_bind (py_nth (cl_elided clean_lines) (linenum - 1)) (\<lambda>line'.
        py_bind (FindStartOfExpressionInLine line' (int (length line') - 1) (the stack)) (\<lambda>(start_pos, stack').
          if start_pos > -1 then Inr (line', linenum - 1, start_pos)
          else reverse_close_loop clean_lines line' (linenum - 1) stack'))
      else Inr (line, 0, -1))"
  by pat_completeness auto
termination
  by (relation "measure (\<lambda>(c, line, linenum, stack). nat linenum)") auto

declare reverse_close_loop.simps [simp del]

definition ReverseCloseExpression :: "cleansed_lines \<Rightarrow> int \<Rightarrow> int \<Rightarrow> (string \<times> int \<times> int) py" where
  "ReverseCloseExpression clean_lines linenum pos =
     py_bind (py_nth (cl_elided clean_lines) linenum) (\<lambda>line.
     py_bind (py_nth line pos) (\<lambda>ch.
       if ch \<notin> set '')}]>'' then Inr (line, 0, -1)
       else
         py_bind (FindStartOfExpressionInLine line pos []) (\<lambda>(start_pos, stack).
           if start_pos > -1 then Inr (line, linenum, start_pos)
           else reverse_close_loop clean_lines line linenum stack)))"

section \<open>The reference: matching of round, square and curly brackets\<close>

definition opens_br :: "char \<Rightarrow> bool" where
  "opens_br c \<longleftrightarrow> c \<in> set ''([{''"

definition closes_br :: "char \<Rightarrow> bool" where
  "closes_br c \<longleftrightarrow> c \<in> set '')]}''"

definition pairs :: "char \<Rightarrow> char \<Rightarrow> bool" where
  "pairs a b \<longleftrightarrow> a = CHR ''('' \<and> b = CHR '')'' \<or> a = CHR ''['' \<and> b = CHR '']'' \<or> a = CHR ''{'' \<and> b = CHR ''}''"

text \<open>Well bracketed text; every other character, angle brackets included, is free.\<close>

inductive balanced :: "string \<Rightarrow> bool" where
  balanced_Nil: "balanced []"
| balanced_other: "\<not> opens_br c \<Longrightarrow> \<not> closes_br c \<Longrightarrow> balanced w \<Longrightarrow> balanced (c # w)"
| balanced_pair: "pairs a b \<Longrightarrow> balanced v \<Longrightarrow> balanced w \<Longrightarrow> balanced (a # v @ b # w)"

datatype outcome = Closed nat | Mismatch | Pending string

text \<open>One walk with a stack of the open brackets; \<open>n\<close> counts the characters seen.\<close>

fun match_close :: "string \<Rightarrow> string \<Rightarrow> nat \<Rightarrow> outcome" where
  "match_close [] st n = Pending st"
| "match_close (c # cs) st n =
     (if opens_br c then match_close cs (c # st) (n + 1)
      else if closes_br c then
        (case st of
           [] \<Rightarrow> Mismatch
         | a # st' \<Rightarrow> if pairs a c then (if st' = [] then Closed (n + 1) else match_close cs st' (n + 1))
                     else Mismatch)
      else match_close cs st (n + 1))"

lemma opens_not_closes: "opens_br c \<Longrightarrow> \<not> closes_br c"
  by (auto simp: opens_br_def closes_br_def)

lemma pairsD: "pairs a b \<Longrightarrow> opens_br a \<and> closes_br b"
  by (auto simp: pairs_def opens_br_def closes_br_def)

fun resume :: "outcome \<Rightarrow> string \<Rightarrow> nat \<Rightarrow> outcome" where
  "resume (Pending st) v n = match_close v st n"
| "resume (Closed m) v n = Closed m"
| "resume Mismatch v n = Mismatch"

lemma match_close_append: "match_close (u @ v) st n = resume (match_close u st n) v (n + length u)"
  by (induction u arbitrary: st n) (auto split: list.split)

lemma match_close_balanced:
  "balanced w \<Longrightarrow> st \<noteq> [] \<Longrightarrow> match_close (w @ v) st n = match_close v st (n + length w)"
proof (induction arbitrary: st n v rule: balanced.induct)
  case balanced_Nil
  then show ?case by simp
next
  case (balanced_other c w)
  then show ?case by simp
next
  case (balanced_pair a b v' w)
  then show ?case
    using pairsD[OF balanced_pair(1)] opens_not_closes[of b]
    by (auto simp: add.commute add.left_commute)
qed

lemma balanced_append: "balanced v \<Longrightarrow> balanced w \<Longrightarrow> balanced (v @ w)"
  by (induction rule: balanced.induct) (auto intro: balanced.intros)

text \<open>
  Text that closes the brackets of a stack, the top first: well bracketed text before each of
  the closes_br brackets.
\<close>

fun closes_all :: "string \<Rightarrow> string \<Rightarrow> bool" where
  "closes_all [] s \<longleftrightarrow> s = []"
| "closes_all (a # st) s \<longleftrightarrow> (\<exists>v b rest. s = v @ b # rest \<and> balanced v \<and> pairs a b \<and> closes_all st rest)"

lemma match_close_sound:
  "match_close s st n = Closed m \<Longrightarrow> st \<noteq> [] \<Longrightarrow>
   n < m \<and> m \<le> n + length s \<and> closes_all st (take (m - n) s)"
proof (induction s st n rule: match_close.induct)
  case (1 st n)
  then show ?case by simp
next
  case (2 c cs st n)
  show ?case
  proof (cases "opens_br c")
    case True
    then have ih: "n + 1 < m" "m \<le> n + 1 + length cs" "closes_all (c # st) (take (m - (n + 1)) cs)"
      using 2 by auto
    then obtain v b rest where v: "take (m - (n + 1)) cs = v @ b # rest" "balanced v" "pairs c b" "closes_all st rest"
      by auto
    obtain a st' where st: "st = a # st'" using 2(5) by (cases st) auto
    with v(4) obtain v' b' rest' where v': "rest = v' @ b' # rest'" "balanced v'" "pairs a b'" "closes_all st' rest'"
      by auto
    have "take (m - n) (c # cs) = (c # v @ b # v') @ b' # rest'"
      using v(1) v'(1) ih(1) by (simp add: take_Cons')
    moreover have "balanced (c # v @ b # v')" by (rule balanced_pair[OF v(3,2) v'(2)])
    ultimately have "closes_all st (take (m - n) (c # cs))"
      unfolding st closes_all.simps using v'(3,4) by blast
    with ih show ?thesis by simp
  next
    case no: False
    show ?thesis
    proof (cases "closes_br c")
      case True
      obtain a st' where st: "st = a # st'" using 2(5) by (cases st) auto
      with 2(4) True no have p: "pairs a c" by (auto split: if_splits)
      show ?thesis
      proof (cases "st' = []")
        case True
        with 2(4) no \<open>closes_br c\<close> st p show ?thesis
          by (auto intro!: exI[of _ "[]"] balanced_Nil)
      next
        case False
        then have "n + 1 < m \<and> m \<le> n + 1 + length cs \<and> closes_all st' (take (m - (n + 1)) cs)"
          using 2(2)[OF no True st p False] 2(4) no True st p by simp
        then show ?thesis using st p
          by (auto simp: take_Cons' intro!: exI[of _ "[]"] balanced_Nil)
      qed
    next
      case False
      then have ih: "n + 1 < m \<and> m \<le> n + 1 + length cs \<and> closes_all st (take (m - (n + 1)) cs)"
        using 2(3)[OF no False] 2(4,5) no by simp
      obtain a st' where st: "st = a # st'" using 2(5) by (cases st) auto
      with ih obtain v b rest where "take (m - (n + 1)) cs = v @ b # rest" "balanced v" "pairs a b" "closes_all st' rest"
        by auto
      moreover from this have "balanced (c # v)" using no False by (intro balanced_other)
      moreover have "take (m - n) (c # cs) = c # take (m - (n + 1)) cs" using ih by (simp add: take_Cons')
      ultimately have "closes_all st (take (m - n) (c # cs))"
        using st by (auto intro!: exI[of _ "c # v"])
      with ih show ?thesis by simp
    qed
  qed
qed

lemma match_close_iff:
  assumes "opens_br a"
  shows "match_close (a # s) [] 0 = Closed m \<longleftrightarrow>
    (\<exists>w b rest. s = w @ b # rest \<and> balanced w \<and> pairs a b \<and> m = length w + 2)"
proof
  assume "match_close (a # s) [] 0 = Closed m"
  then have "match_close s [a] 1 = Closed m" using assms by simp
  from match_close_sound[OF this] obtain w b where
    w: "take (m - 1) s = w @ [b]" "balanced w" "pairs a b" "1 < m" "m \<le> 1 + length s" by auto
  have "s = w @ b # drop (m - 1) s" using w(1) by (metis append.assoc append_Cons append_Nil append_take_drop_id)
  moreover have "length w + 1 = m - 1" using arg_cong[OF w(1), of length] w(4,5) by simp
  ultimately show "\<exists>w b rest. s = w @ b # rest \<and> balanced w \<and> pairs a b \<and> m = length w + 2"
    using w by (intro exI[of _ w] exI[of _ b] exI[of _ "drop (m - 1) s"]) auto
next
  assume "\<exists>w b rest. s = w @ b # rest \<and> balanced w \<and> pairs a b \<and> m = length w + 2"
  then obtain w b rest where w: "s = w @ b # rest" "balanced w" "pairs a b" "m = length w + 2" by blast
  then show "match_close (a # s) [] 0 = Closed m"
    using assms match_close_balanced[OF w(2), of "[a]" "b # rest" 1] pairsD[OF w(3)] opens_not_closes[of b]
    by auto
qed

section \<open>The scan in a line refines the reference\<close>

text \<open>
  Leaving the tentative angle brackets out, the stack of the code is the stack of the reference.
  The invariant says that the bracket pushed first is not an angle bracket.
\<close>

definition abs_stack :: "char \<Rightarrow> string \<Rightarrow> string" where
  "abs_stack angle stack = filter (\<lambda>c. c \<noteq> angle) stack"

definition stack_ok :: "char \<Rightarrow> string \<Rightarrow> bool" where
  "stack_ok angle stack \<longleftrightarrow> stack \<noteq> [] \<and> last stack \<noteq> angle"

lemma abs_stack_pop: "abs_stack a (pop_while a stack) = abs_stack a stack"
  by (induction stack) (auto simp: abs_stack_def pop_while_def)

lemma pop_while_ok:
  "stack_ok c stack \<Longrightarrow> \<exists>a stack'. pop_while c stack = a # stack' \<and> a \<noteq> c \<and> (stack' = [] \<or> stack_ok c stack')"
proof (induction stack)
  case Nil
  then show ?case by (simp add: stack_ok_def)
next
  case (Cons d stack)
  then show ?case by (cases "stack = []") (auto simp: pop_while_def stack_ok_def)
qed

lemma stack_ok_push: "stack_ok c stack \<Longrightarrow> stack_ok c (d # stack)"
  by (simp add: stack_ok_def)

lemma stack_ok_tl: "stack_ok c stack \<Longrightarrow> hd stack = c \<Longrightarrow> tl stack \<noteq> [] \<and> stack_ok c (tl stack)"
  by (cases stack) (auto simp: stack_ok_def split: if_splits)

lemma abs_stack_tl: "stack \<noteq> [] \<Longrightarrow> hd stack = a \<Longrightarrow> abs_stack a (tl stack) = abs_stack a stack"
  by (cases stack) (auto simp: abs_stack_def)

lemma stack_ok_abs: "stack_ok a stack \<Longrightarrow> abs_stack a stack \<noteq> []"
  by (auto simp: stack_ok_def abs_stack_def filter_empty_conv intro!: bexI[of _ "last stack"])

text \<open>
  The result of a scan against the outcome of the reference.  \<open>f\<close> turns the number of
  characters the reference has seen into the position that the code returns; \<open>g\<close> is the
  identity for the forward scan and mirrors the brackets for the backward scan.
\<close>

fun agrees :: "(char \<Rightarrow> char) \<Rightarrow> char \<Rightarrow> (nat \<Rightarrow> int) \<Rightarrow> (int \<times> string option) py \<Rightarrow> outcome \<Rightarrow> bool" where
  "agrees g angle f r (Closed m) \<longleftrightarrow> r = Inr (f m, None)"
| "agrees g angle f r Mismatch \<longleftrightarrow> r = Inr (-1, None)"
| "agrees g angle f r (Pending st) \<longleftrightarrow>
     (\<exists>stack. r = Inr (-1, Some stack) \<and> map g (abs_stack angle stack) = st \<and> stack_ok angle stack)"

text \<open>What both scans do at a closing bracket, and the reference at the same place.\<close>

lemma agrees_close:
  assumes "stack_ok a stack" and "closes_br (g c)"
    and r: "r = f (n + 1)"
    and "\<And>stack'. stack_ok a stack' \<Longrightarrow> agrees g a f (k stack') (match_close cs (map g (abs_stack a stack')) (n + 1))"
  shows "agrees g a f
    (case pop_while a stack of
       [] \<Rightarrow> Inr (-1, None)
     | x # stack' \<Rightarrow> if pairs (g x) (g c) then (if stack' = [] then Inr (r, None) else k stack') else Inr (-1, None))
    (match_close (g c # cs) (map g (abs_stack a stack)) n)"
proof -
  obtain x stack' where x: "pop_while a stack = x # stack'" "x \<noteq> a" "stack' = [] \<or> stack_ok a stack'"
    using pop_while_ok[OF assms(1)] by blast
  then have "abs_stack a stack = x # abs_stack a stack'"
    using abs_stack_pop[of a stack] by (simp add: abs_stack_def)
  moreover have "stack' \<noteq> [] \<Longrightarrow> abs_stack a stack' \<noteq> []" using x(3) stack_ok_abs by blast
  moreover have "\<not> opens_br (g c)" using assms(2) opens_not_closes by blast
  ultimately show ?thesis
    using x r assms(2) assms(4)[of stack'] by (auto simp: abs_stack_def)
qed

lemma code_pairs:
  "(x = CHR ''('' \<and> c = CHR '')'' \<or> x = CHR ''['' \<and> c = CHR '']'' \<or> x = CHR ''{'' \<and> c = CHR ''}'') = pairs x c"
  by (simp add: pairs_def)

lemma stack_ok_pop: "stack_ok a stack \<Longrightarrow> pop_while a stack \<noteq> [] \<and> stack_ok a (pop_while a stack)"
proof -
  assume "stack_ok a stack"
  then obtain x stack' where "pop_while a stack = x # stack'" "x \<noteq> a" "stack' = [] \<or> stack_ok a stack'"
    using pop_while_ok by blast
  then show ?thesis by (auto simp: stack_ok_def)
qed

lemma bracket_cases:
  obtains (op) "opens_br c" | (lt) "c = CHR ''<''" | (cl) "closes_br c" | (gt) "c = CHR ''>''"
    | (semi) "c = CHR '';''" | (other) "\<not> opens_br c" "\<not> closes_br c" "c \<noteq> CHR ''<''" "c \<noteq> CHR ''>''" "c \<noteq> CHR '';''"
  by blast

lemma find_end_agrees:
  "i \<le> length line \<Longrightarrow> stack_ok (CHR ''<'') stack \<Longrightarrow>
   agrees (\<lambda>c. c) (CHR ''<'') int (find_end_loop line (map int [i..<length line]) stack)
     (match_close (drop i line) (abs_stack (CHR ''<'') stack) i)"
proof (induction "length line - i" arbitrary: i stack)
  case 0
  then show ?case by auto
next
  case (Suc k)
  have i: "i < length line" using Suc.hyps(2) by simp
  obtain c cs rest where c: "drop i line = c # cs" "py_nth line (int i) = Inr c"
    "map int [i..<length line] = int i # rest" "rest = map int [Suc i..<length line]" "cs = drop (Suc i) line"
    using i by (simp add: upt_conv_Cons Cons_nth_drop_Suc[symmetric])
  have IH: "agrees (\<lambda>c. c) (CHR ''<'') int (find_end_loop line rest stack')
      (match_close cs (abs_stack (CHR ''<'') stack') (i + 1))" if "stack_ok (CHR ''<'') stack'" for stack'
    using Suc.hyps(1)[of "i + 1" stack'] Suc.hyps(2) i that c by simp
  note ok = Suc.prems(2)
  note step = c(1,3) find_end_loop.simps(2) c(2) py_bind.simps(2)
  show ?case
  proof (cases c rule: bracket_cases)
    case op
    then have "abs_stack (CHR ''<'') (c # stack) = c # abs_stack (CHR ''<'') stack"
      by (auto simp: abs_stack_def opens_br_def)
    with op IH[OF stack_ok_push[OF ok], of c] show ?thesis
      unfolding step by (simp add: opens_br_def)
  next
    case lt
    then have n: "\<not> opens_br c" "\<not> closes_br c" by (simp_all add: opens_br_def closes_br_def)
    have "abs_stack (CHR ''<'') (CHR ''<'' # stack) = abs_stack (CHR ''<'') stack" by (simp add: abs_stack_def)
    with lt n show ?thesis
      unfolding step using IH[OF ok] IH[OF stack_ok_push[OF ok], of "CHR ''<''"]
        stack_ok_tl[OF ok] IH[of "tl stack"] abs_stack_tl[of stack "CHR ''<''"] by auto
  next
    case cl
    then have "c \<notin> set ''([{''" "c \<noteq> CHR ''<''" "c \<in> set '')]}''" by (auto simp: closes_br_def)
    moreover have "agrees (\<lambda>c. c) (CHR ''<'') int
       (case pop_while (CHR ''<'') stack of [] \<Rightarrow> Inr (- 1, None)
        | x # stack' \<Rightarrow> if pairs x c then (if stack' = [] then Inr (int i + 1, None) else find_end_loop line rest stack')
                        else Inr (- 1, None))
       (match_close (c # cs) (abs_stack (CHR ''<'') stack) i)"
      using agrees_close[where g = "\<lambda>c. c" and f = int, unfolded list.map_ident, OF ok cl _ IH, of "int i + 1"] by simp
    ultimately show ?thesis unfolding step code_pairs by (simp only: if_False if_True)
  next
    case gt
    then have n: "\<not> opens_br c" "\<not> closes_br c" by (simp_all add: opens_br_def closes_br_def)
    with gt show ?thesis
      unfolding step using IH[OF ok] stack_ok_tl[OF ok] IH[of "tl stack"] abs_stack_tl[of stack "CHR ''<''"] by auto
  next
    case semi
    then have n: "\<not> opens_br c" "\<not> closes_br c" by (simp_all add: opens_br_def closes_br_def)
    with semi show ?thesis
      unfolding step using stack_ok_pop[OF ok] IH[of "pop_while (CHR ''<'') stack"]
      by (simp add: abs_stack_pop)
  next
    case other
    then have "c \<notin> set ''([{''" "c \<notin> set '')]}''" by (auto simp: opens_br_def closes_br_def)
    with other IH[OF ok] show ?thesis unfolding step by simp
  qed
qed

lemma SHIFT_OR_LE_compiled:
  "re_compile SHIFT_OR_LE = Some (RSeq (RLit (CHR ''<'')) (RSet True [CChar (CHR ''<''), CChar (CHR ''='')]))"
  by code_simp

lemma not_SHIFT_OR_LE: "c \<noteq> CHR ''<'' \<Longrightarrow> \<not> Matches SHIFT_OR_LE (c # s)"
  unfolding Matches_iff[OF SHIFT_OR_LE_compiled] by (simp add: set_accepts_lit)

lemma py_range_int: "py_range (int a) (int b) = map int [a..<b]"
proof -
  have "map (\<lambda>k. int a + int k) [0..<b - a] = map int (map (\<lambda>k. k + a) [0..<b - a])" by simp
  also have "map (\<lambda>k. k + a) [0..<b - a] = [a..<b]" by (cases "a \<le> b") (simp_all add: map_add_upt)
  finally show ?thesis by (simp add: py_range_def nat_diff_distrib')
qed

section \<open>Over several lines\<close>

fun shift_outcome :: "nat \<Rightarrow> outcome \<Rightarrow> outcome" where
  "shift_outcome k (Closed m) = Closed (m + k)"
| "shift_outcome k Mismatch = Mismatch"
| "shift_outcome k (Pending st) = Pending st"

lemma match_close_shift: "match_close s st (n + k) = shift_outcome k (match_close s st n)"
proof (induction s arbitrary: st n)
  case Nil
  then show ?case by simp
next
  case (Cons c s)
  show ?case
    using Cons.IH[of _ "n + 1"] by (auto split: list.split)
qed

text \<open>The offset of a position in the text of all the lines.\<close>

definition offset :: "string list \<Rightarrow> nat \<Rightarrow> nat \<Rightarrow> nat" where
  "offset lines l p = length (concat (take l lines)) + p"

lemma offset_Suc: "l < length lines \<Longrightarrow> offset lines (Suc l) 0 = offset lines l (length (lines ! l))"
  by (simp add: offset_def take_Suc_conv_app_nth)

lemma offset_mono: "k \<le> l \<Longrightarrow> offset lines k 0 \<le> offset lines l 0"
proof -
  assume "k \<le> l"
  then have "take l lines = take k lines @ take (l - k) (drop k lines)"
    by (metis add_diff_inverse_nat not_le take_add)
  then show ?thesis by (simp add: offset_def)
qed

lemma offset_unique:
  assumes "offset lines k i = offset lines l j" and "k < length lines" and "l < length lines"
    and "i < length (lines ! k)" and "j < length (lines ! l)"
  shows "k = l \<and> i = j"
proof -
  have less: False if "a < b" "a < length lines" "x < length (lines ! a)" "offset lines a x = offset lines b y" for a b x y
  proof -
    have "offset lines (Suc a) 0 \<le> offset lines b 0" using that(1) by (intro offset_mono) simp
    then show False using offset_Suc[OF that(2)] that(3,4) by (simp add: offset_def)
  qed
  have "k = l" using less[of k l i j] less[of l k j i] assms by (metis nat_neq_iff)
  with assms(1) show ?thesis by (simp add: offset_def)
qed

text \<open>A position behind the opening bracket, as the code reports it.\<close>

definition closes_at :: "string list \<Rightarrow> (string \<times> int \<times> int) py \<Rightarrow> nat \<Rightarrow> bool" where
  "closes_at lines r m \<longleftrightarrow>
     (\<exists>k i. r = Inr (lines ! k, int k, int i + 1) \<and> k < length lines \<and> i < length (lines ! k) \<and>
            offset lines k (i + 1) = m)"

definition not_closed :: "string list \<Rightarrow> (string \<times> int \<times> int) py \<Rightarrow> bool" where
  "not_closed lines r \<longleftrightarrow> (\<exists>line. r = Inr (line, int (length lines), -1))"

fun result_ok :: "string list \<Rightarrow> (string \<times> int \<times> int) py \<Rightarrow> outcome \<Rightarrow> bool" where
  "result_ok lines r (Closed m) = closes_at lines r m"
| "result_ok lines r Mismatch = not_closed lines r"
| "result_ok lines r (Pending st) = not_closed lines r"

lemma match_close_bounds:
  "match_close s st n = Closed m \<Longrightarrow> n < m \<and> m \<le> n + length s"
proof (induction s st n rule: match_close.induct)
  case (2 c cs st n)
  then show ?case by (fastforce split: if_splits list.splits)
qed simp

lemma FindEnd_from_0:
  assumes "stack_ok (CHR ''<'') stack"
  shows "agrees (\<lambda>c. c) (CHR ''<'') int (FindEndOfExpressionInLine line 0 stack)
     (match_close line (abs_stack (CHR ''<'') stack) 0)"
  using find_end_agrees[of 0 line stack] assms py_range_int[of 0 "length line"]
  by (simp add: FindEndOfExpressionInLine_def)

lemma close_loop_spec:
  assumes "lines = cl_elided c" and "cl_num_lines c = int (length lines)"
  shows "l < length lines \<Longrightarrow> stack_ok (CHR ''<'') stack \<Longrightarrow>
    result_ok lines (close_loop c line (int l) (Some stack))
      (match_close (concat (drop (Suc l) lines)) (abs_stack (CHR ''<'') stack) (offset lines (Suc l) 0))"
proof (induction "length lines - l" arbitrary: l line stack)
  case 0
  then show ?case by simp
next
  case (Suc k)
  have ne: "stack \<noteq> []" using Suc.prems(2) by (simp add: stack_ok_def)
  show ?case
  proof (cases "Suc l < length lines")
    case False
    then have e: "drop (Suc l) lines = []" by simp
    have "close_loop c line (int l) (Some stack) = Inr (line, int (length lines), -1)"
      using False assms by (subst close_loop.simps) (simp add: NumLines_def)
    then show ?thesis by (simp add: e not_closed_def)
  next
    case True
    let ?L = "lines ! Suc l" and ?B = "offset lines (Suc l) 0"
    have tx: "concat (drop (Suc l) lines) = ?L @ concat (drop (Suc (Suc l)) lines)"
      using True by (simp add: Cons_nth_drop_Suc[symmetric])
    have B: "offset lines (Suc (Suc l)) 0 = ?B + length ?L"
      using offset_Suc[OF True] by (simp add: offset_def)
    have step: "close_loop c line (int l) (Some stack) =
        py_bind (FindEndOfExpressionInLine ?L 0 stack) (\<lambda>(end_pos, stack').
          if end_pos > -1 then Inr (?L, int l + 1, end_pos) else close_loop c ?L (int l + 1) stack')"
      using True ne
      by (subst close_loop.simps) (simp add: NumLines_def py_nth_in_range nat_add_distrib assms(2) assms(1)[symmetric])
    have stop: "close_loop c ?L (int l + 1) None = Inr (?L, int (length lines), -1)"
      using assms by (subst close_loop.simps) (simp add: NumLines_def)
    note ag = FindEnd_from_0[OF Suc.prems(2), of ?L]
    note sh = match_close_shift[of ?L "abs_stack (CHR ''<'') stack" 0 ?B]
    show ?thesis
    proof (cases "match_close ?L (abs_stack (CHR ''<'') stack) 0")
      case (Closed m)
      then have m: "0 < m" "m \<le> length ?L" using match_close_bounds by fastforce+
      with ag Closed have "close_loop c line (int l) (Some stack) = Inr (?L, int (Suc l), int (m - 1) + 1)"
        by (simp add: step)
      moreover have "offset lines (Suc l) (m - 1 + 1) = m + ?B" using m by (simp add: offset_def)
      ultimately have "closes_at lines (close_loop c line (int l) (Some stack)) (m + ?B)"
        unfolding closes_at_def using True m by (intro exI[of _ "Suc l"] exI[of _ "m - 1"]) simp
      then show ?thesis using sh Closed by (simp add: tx match_close_append)
    next
      case Mismatch
      with ag stop have "not_closed lines (close_loop c line (int l) (Some stack))"
        by (simp add: step not_closed_def)
      then show ?thesis using sh Mismatch by (simp add: tx match_close_append)
    next
      case (Pending st)
      with ag obtain stack' where s': "FindEndOfExpressionInLine ?L 0 stack = Inr (-1, Some stack')"
        "abs_stack (CHR ''<'') stack' = st" "stack_ok (CHR ''<'') stack'" by auto
      have eq: "close_loop c line (int l) (Some stack) = close_loop c ?L (int (Suc l)) (Some stack')"
        using s'(1) by (simp add: step add.commute)
      have mc: "match_close (concat (drop (Suc l) lines)) (abs_stack (CHR ''<'') stack) ?B =
          match_close (concat (drop (Suc (Suc l)) lines)) st (offset lines (Suc (Suc l)) 0)"
        using sh Pending by (simp add: tx match_close_append B)
      show ?thesis unfolding eq mc s'(2)[symmetric]
        by (rule Suc.hyps(1)) (use Suc.hyps(2) True s'(3) in simp_all)
    qed
  qed
qed

lemma CloseExpression_spec:
  assumes "lines = cl_elided c" and "cl_num_lines c = int (length lines)"
    and "l < length lines" and "p < length (lines ! l)" and "opens_br (lines ! l ! p)"
  shows "result_ok lines (CloseExpression c (int l) (int p))
    (match_close (drop p (lines ! l) @ concat (drop (Suc l) lines)) [] (offset lines l p))"
proof -
  let ?L = "lines ! l" and ?a = "lines ! l ! p" and ?B = "offset lines l p"
  have dr: "drop p ?L = ?a # drop (Suc p) ?L" using assms(4) by (simp add: Cons_nth_drop_Suc)
  have a: "?a \<in> set ''([{''" "?a \<noteq> CHR ''<''" using assms(5) by (auto simp: opens_br_def)
  have no: "\<not> Matches SHIFT_OR_LE (drop p ?L)" unfolding dr using a(2) by (rule not_SHIFT_OR_LE)
  have step: "CloseExpression c (int l) (int p) =
      py_bind (FindEndOfExpressionInLine ?L (int p) []) (\<lambda>(end_pos, stack).
           if end_pos > -1 then Inr (?L, int l, end_pos) else close_loop c ?L (int l) stack)"
    using assms(1,3,4) a no by (auto simp: CloseExpression_def)
  have rng: "py_range (int p) (int (length ?L)) = int p # map int [Suc p..<length ?L]"
    using assms(4) py_range_int[of p "length ?L"] by (simp add: upt_conv_Cons)
  have fe: "FindEndOfExpressionInLine ?L (int p) [] = find_end_loop ?L (map int [Suc p..<length ?L]) [?a]"
    unfolding FindEndOfExpressionInLine_def rng find_end_loop.simps(2) py_nth_of_nat[OF assms(4)] py_bind.simps(2)
    by (rule if_P[OF a(1)])
  have "abs_stack (CHR ''<'') [?a] = [?a]" "stack_ok (CHR ''<'') [?a]"
    using a(2) by (simp_all add: abs_stack_def stack_ok_def)
  with find_end_agrees[of "Suc p" ?L "[?a]"] assms(4)
  have ag: "agrees (\<lambda>c. c) (CHR ''<'') int (FindEndOfExpressionInLine ?L (int p) []) (match_close (drop (Suc p) ?L) [?a] (Suc p))"
    by (simp add: fe)
  have m0: "match_close (drop p ?L @ z) [] ?B =
      resume (shift_outcome (offset lines l 0) (match_close (drop (Suc p) ?L) [?a] (Suc p))) z (offset lines (Suc l) 0)" for z
  proof -
    have pos: "Suc p + offset lines l 0 + length (drop (Suc p) ?L) = offset lines (Suc l) 0"
      using offset_Suc[OF assms(3)] assms(4) by (simp add: offset_def)
    have "match_close (drop p ?L @ z) [] ?B = match_close (drop (Suc p) ?L @ z) [?a] (Suc p + offset lines l 0)"
      using assms(5) by (simp add: dr offset_def add.commute del: match_close_append)
    also have "\<dots> = resume (match_close (drop (Suc p) ?L) [?a] (Suc p + offset lines l 0)) z (offset lines (Suc l) 0)"
      unfolding match_close_append pos ..
    finally show ?thesis unfolding match_close_shift .
  qed
  show ?thesis
  proof (cases "match_close (drop (Suc p) ?L) [?a] (Suc p)")
    case (Closed m)
    then have m: "Suc p < m" "m \<le> length ?L" using match_close_bounds[OF Closed] assms(4) by auto
    have "CloseExpression c (int l) (int p) = Inr (?L, int l, int (m - 1) + 1)"
      using ag Closed m by (simp add: step)
    then have "closes_at lines (CloseExpression c (int l) (int p)) (m + offset lines l 0)"
      unfolding closes_at_def using assms(3) m
      by (intro exI[of _ l] exI[of _ "m - 1"]) (simp add: offset_def)
    then show ?thesis by (simp add: m0 Closed)
  next
    case Mismatch
    have "close_loop c ?L (int l) None = Inr (?L, int (length lines), -1)"
      using assms by (subst close_loop.simps) (simp add: NumLines_def)
    with ag Mismatch have "not_closed lines (CloseExpression c (int l) (int p))"
      by (simp add: step not_closed_def)
    then show ?thesis by (simp add: m0 Mismatch)
  next
    case (Pending st)
    with ag obtain stack where s: "FindEndOfExpressionInLine ?L (int p) [] = Inr (-1, Some stack)"
      "abs_stack (CHR ''<'') stack = st" "stack_ok (CHR ''<'') stack" by auto
    then show ?thesis
      using close_loop_spec[OF assms(1,2,3) s(3), of ?L] by (simp add: step m0 Pending)
  qed
qed

section \<open>The backward scan is the mirror image\<close>

definition mirror :: "char \<Rightarrow> char" where
  "mirror c =
     (if c = CHR ''('' then CHR '')'' else if c = CHR '')'' then CHR ''(''
      else if c = CHR ''['' then CHR '']'' else if c = CHR '']'' then CHR ''[''
      else if c = CHR ''{'' then CHR ''}'' else if c = CHR ''}'' then CHR ''{'' else c)"

lemma mirror_simps [simp]:
  "mirror (mirror c) = c" "opens_br (mirror c) = closes_br c" "closes_br (mirror c) = opens_br c"
  "pairs (mirror x) (mirror c) = pairs c x"
  by (auto simp: mirror_def opens_br_def closes_br_def pairs_def)

lemma balanced_mirror: "balanced w \<Longrightarrow> balanced (map mirror (rev w))"
proof (induction rule: balanced.induct)
  case balanced_Nil
  then show ?case by (simp add: balanced.balanced_Nil)
next
  case (balanced_other c w)
  then have "balanced [mirror c]" by (intro balanced.balanced_other balanced.balanced_Nil) simp_all
  with balanced_other.IH show ?case by (simp add: balanced_append)
next
  case (balanced_pair a b v w)
  have "balanced (mirror b # map mirror (rev v) @ mirror a # [])"
    using balanced_pair by (intro balanced.balanced_pair balanced.balanced_Nil) simp_all
  with balanced_pair.IH(2) show ?case using balanced_append by fastforce
qed

lemma OPERATOR_AT_END_compiled:
  "re_compile OPERATOR_AT_END =
     Some (RSeq RWordB (RSeq (RLit (CHR ''o'')) (RSeq (RLit (CHR ''p'')) (RSeq (RLit (CHR ''e''))
       (RSeq (RLit (CHR ''r'')) (RSeq (RLit (CHR ''a'')) (RSeq (RLit (CHR ''t''))
       (RSeq (RLit (CHR ''o'')) (RSeq (RLit (CHR ''r'')) (RSeq (RStar True (RSet True [CSpace True])) REol))))))))))"
  by code_simp

lemma SPACED_GE_compiled:
  "re_compile SPACED_GE =
     Some (RSeq (RSet True [CSpace True]) (RSeq (RLit (CHR ''>'')) (RSeq (RLit (CHR ''='')) (RSet True [CSpace True]))))"
  by code_simp

lemma space_not_bracket: "is_space c \<Longrightarrow> \<not> opens_br c \<and> \<not> closes_br c"
  by (auto simp: opens_br_def closes_br_def is_space_def)

lemma OPERATOR_AT_END_last:
  assumes "Finds OPERATOR_AT_END s"
  shows "s \<noteq> [] \<and> \<not> opens_br (last s) \<and> \<not> closes_br (last s)"
proof -
  from assms obtain a b where s: "s = a @ b" and
    "\<exists>s1 \<in> set (runs (RSeq RWordB (RSeq (RLit (CHR ''o'')) (RSeq (RLit (CHR ''p'')) (RSeq (RLit (CHR ''e''))
       (RSeq (RLit (CHR ''r'')) (RSeq (RLit (CHR ''a'')) (RSeq (RLit (CHR ''t''))
       (RSeq (RLit (CHR ''o'')) (RSeq (RLit (CHR ''r'')) (RSeq (RStar True (RSet True [CSpace True])) REol))))))))))
       (MS (rev a) b [])). True"
    unfolding Finds_iff[OF OPERATOR_AT_END_compiled] runs_nonempty by blast
  then obtain w e where w: "b = ''operator'' @ w @ e" "list_all is_space w" "e = [] \<or> e = [newline_char]"
    by (simp only: runs_eval) (auto simp: set_accepts_lit)
  have "\<forall>c \<in> set (w @ e). is_space c" using w(2,3) by (auto simp: list_all_iff is_space_def)
  then have "last (CHR ''r'' # w @ e) = CHR ''r'' \<or> is_space (last (CHR ''r'' # w @ e))"
    using last_in_set[of "w @ e"] by (cases "w @ e = []") auto
  moreover have "last s = last (CHR ''r'' # w @ e)" "s \<noteq> []" by (simp_all add: s w(1))
  ultimately show ?thesis
    using space_not_bracket[of "last s"] by (auto simp: opens_br_def closes_br_def)
qed

lemma SPACED_GE_first: "Matches SPACED_GE (c # s) \<Longrightarrow> \<not> opens_br c \<and> \<not> closes_br c"
  unfolding Matches_bex[OF SPACED_GE_compiled]
  by (simp only: runs_eval) (auto dest: space_not_bracket)

text \<open>The character that the backward scan skips together with a \<open>>\<close> or a \<open><\<close> is no bracket.\<close>

lemma skipped_not_bracket:
  assumes "j < length line" and "0 < j"
    and "line ! (j - 1) = CHR ''-'' \<or> Matches SPACED_GE (drop (j - 1) line) \<or> Finds OPERATOR_AT_END (take j line)"
  shows "\<not> opens_br (line ! (j - 1)) \<and> \<not> closes_br (line ! (j - 1))"
proof -
  have "drop (j - 1) line = line ! (j - 1) # drop j line"
    using assms(1,2) Cons_nth_drop_Suc[of "j - 1" line] by simp
  moreover have "last (take j line) = line ! (j - 1)"
    using take_Suc_conv_app_nth[of "j - 1" line] assms(1,2) by simp
  ultimately show ?thesis
    using assms(3) SPACED_GE_first[of "line ! (j - 1)" "drop j line"] OPERATOR_AT_END_last[of "take j line"]
    by (auto simp: opens_br_def closes_br_def)
qed

lemma find_start_agrees:
  "j \<le> length line \<Longrightarrow> stack_ok (CHR ''>'') stack \<Longrightarrow>
   agrees mirror (CHR ''>'') (\<lambda>m. int (j + n) - int m) (FindStartOfExpressionInLine line (int j - 1) stack)
     (match_close (map mirror (rev (take j line))) (map mirror (abs_stack (CHR ''>'') stack)) n)"
proof (induction j arbitrary: n stack rule: less_induct)
  case (less j)
  show ?case
  proof (cases j)
    case 0
    with less.prems(2) show ?thesis by (simp add: FindStartOfExpressionInLine.simps)
  next
    case (Suc i)
    define c cs where "c = line ! i" and "cs = map mirror (rev (take i line))"
    have i: "i < length line" using Suc less.prems(1) by simp
    then have tk: "map mirror (rev (take j line)) = mirror c # cs" and nth: "py_nth line (int i) = Inr c"
      by (simp_all add: Suc take_Suc_conv_app_nth c_def cs_def)
    have IH: "agrees mirror (CHR ''>'') (\<lambda>m. int (j + n) - int m) (FindStartOfExpressionInLine line (int i - 1) stack')
        (match_close cs (map mirror (abs_stack (CHR ''>'') stack')) (n + 1))" if "stack_ok (CHR ''>'') stack'" for stack'
      using less.IH[of i stack' "n + 1"] that i Suc by (simp add: cs_def)
    have skip: "agrees mirror (CHR ''>'') (\<lambda>m. int (j + n) - int m) (FindStartOfExpressionInLine line (int i - 2) stack)
        (match_close cs (map mirror (abs_stack (CHR ''>'') stack)) (n + 1))"
      if "0 < i" "\<not> opens_br (line ! (i - 1))" "\<not> closes_br (line ! (i - 1))"
    proof -
      have "cs = mirror (line ! (i - 1)) # map mirror (rev (take (i - 1) line))"
        using take_Suc_conv_app_nth[of "i - 1" line] that(1) i by (simp add: cs_def)
      then show ?thesis
        using less.IH[of "i - 1" stack "n + 2"] less.prems(2) i Suc that by (simp add: of_nat_diff)
    qed
    note ok = less.prems(2)
    have i0: "int j - 1 = int i" "int i \<ge> 0" by (simp_all add: Suc)
    note step = tk i0(1) FindStartOfExpressionInLine.simps[of line "int i"] if_P[OF i0(2)] nth py_bind.simps(2)
    show ?thesis
    proof (cases c rule: bracket_cases)
      case cl
      then have "map mirror (abs_stack (CHR ''>'') (c # stack)) = mirror c # map mirror (abs_stack (CHR ''>'') stack)"
        by (auto simp: abs_stack_def closes_br_def)
      moreover have "c \<in> set '')]}''" using cl by (simp add: closes_br_def)
      ultimately show ?thesis
        unfolding step using cl IH[OF stack_ok_push[OF ok], of c] by simp
    next
      case gt
      then have n: "\<not> opens_br c" "\<not> closes_br c" by (simp_all add: opens_br_def closes_br_def)
      have "abs_stack (CHR ''>'') (CHR ''>'' # stack) = abs_stack (CHR ''>'') stack" by (simp add: abs_stack_def)
      with gt n show ?thesis
        unfolding step using IH[OF stack_ok_push[OF ok], of "CHR ''>''"] skip skipped_not_bracket[of i line] i
        by (auto simp: nat_diff_distrib py_from_nonneg py_upto_nonneg)
    next
      case lt
      then have n: "\<not> opens_br c" "\<not> closes_br c" by (simp_all add: opens_br_def closes_br_def)
      have "\<not> opens_br (CHR ''<'')" "\<not> closes_br (CHR ''<'')" by (simp_all add: opens_br_def closes_br_def)
      with lt n show ?thesis
        unfolding step using IH[OF ok] stack_ok_tl[OF ok] IH[of "tl stack"] abs_stack_tl[of stack "CHR ''>''"] skip
        by (auto simp: nat_diff_distrib)
    next
      case op
      then have "c \<notin> set '')]}''" "c \<noteq> CHR ''<''" "c \<noteq> CHR ''>''" "c \<in> set ''([{''" by (auto simp: opens_br_def)
      moreover have "agrees mirror (CHR ''>'') (\<lambda>m. int (j + n) - int m)
         (case pop_while (CHR ''>'') stack of [] \<Rightarrow> Inr (- 1, None)
          | x # stack' \<Rightarrow> if pairs (mirror x) (mirror c)
              then (if stack' = [] then Inr (int i, None) else FindStartOfExpressionInLine line (int i - 1) stack')
              else Inr (- 1, None))
         (match_close (mirror c # cs) (map mirror (abs_stack (CHR ''>'') stack)) n)"
        by (rule agrees_close[OF ok _ _ IH]) (simp_all add: op Suc)
      ultimately show ?thesis unfolding step code_pairs mirror_simps by (simp only: if_False if_True)
    next
      case semi
      then have n: "\<not> opens_br c" "\<not> closes_br c" by (simp_all add: opens_br_def closes_br_def)
      with semi show ?thesis
        unfolding step using stack_ok_pop[OF ok] IH[of "pop_while (CHR ''>'') stack"]
        by (simp add: abs_stack_pop)
    next
      case other
      then have "c \<notin> set ''([{''" "c \<notin> set '')]}''" by (auto simp: opens_br_def closes_br_def)
      with other IH[OF ok] show ?thesis unfolding step by simp
    qed
  qed
qed

definition opens_at :: "string list \<Rightarrow> (string \<times> int \<times> int) py \<Rightarrow> nat \<Rightarrow> nat \<Rightarrow> bool" where
  "opens_at lines r K m \<longleftrightarrow>
     (\<exists>k i. r = Inr (lines ! k, int k, int i) \<and> k < length lines \<and> i < length (lines ! k) \<and>
            offset lines k i + m = K)"

fun rev_result_ok :: "string list \<Rightarrow> nat \<Rightarrow> (string \<times> int \<times> int) py \<Rightarrow> outcome \<Rightarrow> bool" where
  "rev_result_ok lines K r (Closed m) = opens_at lines r K m"
| "rev_result_ok lines K r Mismatch = (\<exists>line. r = Inr (line, 0, -1))"
| "rev_result_ok lines K r (Pending st) = (\<exists>line. r = Inr (line, 0, -1))"

text \<open>A line scanned from its end, or from the position of the closing bracket.\<close>

lemma rev_line_result:
  assumes ag: "agrees mirror (CHR ''>'') (\<lambda>m. int (j + n) - int m) R (match_close s st n)"
    and j: "j \<le> length (lines ! k)" "k < length lines" "length s = j" and K: "K = offset lines k j + n"
    and stop: "\<exists>line. F None = Inr (line, 0, -1)"
    and go: "\<And>stack. stack_ok (CHR ''>'') stack \<Longrightarrow>
       rev_result_ok lines K (F (Some stack)) (match_close z (map mirror (abs_stack (CHR ''>'') stack)) (n + j))"
  shows "rev_result_ok lines K
     (py_bind R (\<lambda>(start_pos, stack').
        if start_pos > -1 then Inr (lines ! k, int k, start_pos) else F stack'))
     (match_close (s @ z) st n)"
proof (cases "match_close s st n")
  case (Closed m)
  then have m: "n < m" "m \<le> n + j" using match_close_bounds[OF Closed] j(3) by auto
  then have e: "R = Inr (int (j + n - m), None)" using ag Closed by simp
  have "offset lines k (j + n - m) + m = K" using m by (simp add: offset_def K)
  then have "opens_at lines (Inr (lines ! k, int k, int (j + n - m))) K m"
    unfolding opens_at_def using j m by (intro exI[of _ k] exI[of _ "j + n - m"]) simp
  then show ?thesis by (simp add: match_close_append Closed e)
next
  case Mismatch
  with ag stop show ?thesis by (simp add: match_close_append)
next
  case (Pending st')
  with ag obtain stack where st: "R = Inr (-1, Some stack)" "map mirror (abs_stack (CHR ''>'') stack) = st'"
    "stack_ok (CHR ''>'') stack" by auto
  from go[OF st(3)] st(1,2) Pending show ?thesis by (simp add: match_close_append j(3))
qed

lemma FindStart_line_end:
  assumes "stack_ok (CHR ''>'') stack"
  shows "agrees mirror (CHR ''>'') (\<lambda>m. int (length line + n) - int m)
    (FindStartOfExpressionInLine line (int (length line) - 1) stack)
    (match_close (map mirror (rev line)) (map mirror (abs_stack (CHR ''>'') stack)) n)"
  using find_start_agrees[of "length line" line stack n] assms by simp

lemma reverse_close_loop_None: "\<exists>line'. reverse_close_loop c line l None = Inr (line', 0, -1)"
  by (subst reverse_close_loop.simps) simp

lemma reverse_close_loop_spec:
  assumes "lines = cl_elided c"
  shows "l < length lines \<Longrightarrow> stack_ok (CHR ''>'') stack \<Longrightarrow>
    rev_result_ok lines (offset lines l 0 + n) (reverse_close_loop c line (int l) (Some stack))
      (match_close (map mirror (rev (concat (take l lines)))) (map mirror (abs_stack (CHR ''>'') stack)) n)"
proof (induction l arbitrary: line stack n)
  case 0
  then show ?case by (subst reverse_close_loop.simps) simp
next
  case (Suc l)
  let ?L = "lines ! l"
  have l: "l < length lines" using Suc.prems(1) by simp
  have ne: "stack \<noteq> []" using Suc.prems(2) by (simp add: stack_ok_def)
  have tx: "map mirror (rev (concat (take (Suc l) lines))) =
      map mirror (rev ?L) @ map mirror (rev (concat (take l lines)))"
    using l by (simp add: take_Suc_conv_app_nth)
  have p1: "int (Suc l) - 1 = int l" by simp
  have step: "reverse_close_loop c line (int (Suc l)) (Some stack) =
      py_bind (FindStartOfExpressionInLine ?L (int (length ?L) - 1) stack) (\<lambda>(start_pos, stack').
          if start_pos > -1 then Inr (?L, int l, start_pos) else reverse_close_loop c ?L (int l) stack')"
    by (subst reverse_close_loop.simps, unfold p1) (use l ne in \<open>simp add: assms[symmetric]\<close>)
  show ?case
    unfolding step tx
  proof (rule rev_line_result[where j = "length ?L" and n = n])
    fix stack' assume ok: "stack_ok (CHR ''>'') stack'"
    have o: "offset lines (Suc l) 0 + n = offset lines l 0 + (n + length ?L)"
      using offset_Suc[OF l] by (simp add: offset_def)
    show "rev_result_ok lines (offset lines (Suc l) 0 + n) (reverse_close_loop c ?L (int l) (Some stack'))
      (match_close (map mirror (rev (concat (take l lines)))) (map mirror (abs_stack (CHR ''>'') stack')) (n + length ?L))"
      unfolding o by (rule Suc.IH[OF l ok])
  qed (use l FindStart_line_end[OF Suc.prems(2)] offset_Suc[OF l] reverse_close_loop_None in auto)
qed

lemma ReverseCloseExpression_spec:
  assumes "lines = cl_elided c" and "l < length lines" and "p < length (lines ! l)" and "closes_br (lines ! l ! p)"
  shows "rev_result_ok lines (offset lines l (Suc p)) (ReverseCloseExpression c (int l) (int p))
    (match_close (map mirror (rev (concat (take l lines) @ take (Suc p) (lines ! l)))) [] 0)"
proof -
  let ?L = "lines ! l" and ?b = "lines ! l ! p"
  have b: "?b \<in> set '')]}''" "?b \<noteq> CHR ''>''" using assms(4) by (auto simp: closes_br_def)
  have mem: "?b \<in> set '')}]>''" using b(1) by auto
  have step: "ReverseCloseExpression c (int l) (int p) =
      py_bind (FindStartOfExpressionInLine ?L (int p) []) (\<lambda>(start_pos, stack).
           if start_pos > -1 then Inr (?L, int l, start_pos) else reverse_close_loop c ?L (int l) stack)"
    using assms(2,3) mem by (simp add: ReverseCloseExpression_def assms(1)[symmetric] del: list.set)
  have fs: "FindStartOfExpressionInLine ?L (int p) [] = FindStartOfExpressionInLine ?L (int p - 1) [?b]"
    unfolding FindStartOfExpressionInLine.simps[of ?L "int p" "[]"] if_P[OF of_nat_0_le_iff]
      py_nth_of_nat[OF assms(3)] py_bind.simps(2)
    by (rule if_P[OF b(1)])
  have ok: "stack_ok (CHR ''>'') [?b]" "abs_stack (CHR ''>'') [?b] = [?b]"
    using b(2) by (simp_all add: stack_ok_def abs_stack_def)
  have tx: "match_close (map mirror (rev (concat (take l lines) @ take (Suc p) ?L))) [] 0 =
      match_close (map mirror (rev (take p ?L)) @ map mirror (rev (concat (take l lines)))) [mirror ?b] 1"
    using assms(3,4) by (simp add: take_Suc_conv_app_nth)
  show ?thesis
    unfolding step tx fs
  proof (rule rev_line_result[where j = p and n = 1])
    show "agrees mirror (CHR ''>'') (\<lambda>m. int (p + 1) - int m) (FindStartOfExpressionInLine ?L (int p - 1) [?b])
        (match_close (map mirror (rev (take p ?L))) [mirror ?b] 1)"
      using find_start_agrees[of p ?L "[?b]" 1] ok assms(3) by simp
    fix stack' assume "stack_ok (CHR ''>'') stack'"
    from reverse_close_loop_spec[OF assms(1,2) this, of "1 + p" ?L]
    show "rev_result_ok lines (offset lines l (Suc p)) (reverse_close_loop c ?L (int l) (Some stack'))
      (match_close (map mirror (rev (concat (take l lines)))) (map mirror (abs_stack (CHR ''>'') stack')) (1 + p))"
      by (simp add: offset_def)
  qed (use assms(2,3) reverse_close_loop_None in \<open>auto simp: offset_def\<close>)
qed

section \<open>Properties\<close>

declare match_close.simps(2) [simp del]

lemma mirror_comp [simp]: "mirror \<circ> mirror = id"
  by (rule ext) simp

lemma concat_at:
  assumes "l < length lines" and "p \<le> length (lines ! l)"
  shows "concat lines = (concat (take l lines) @ take p (lines ! l)) @ drop p (lines ! l) @ concat (drop (Suc l) lines)"
    and "length (concat (take l lines) @ take p (lines ! l)) = offset lines l p"
proof -
  have "lines = take l lines @ lines ! l # drop (Suc l) lines"
    using assms(1) by (simp add: Cons_nth_drop_Suc)
  then have "concat lines = concat (take l lines) @ lines ! l @ concat (drop (Suc l) lines)"
    by (metis concat.simps(2) concat_append)
  then show "concat lines = (concat (take l lines) @ take p (lines ! l)) @ drop p (lines ! l) @ concat (drop (Suc l) lines)"
    by simp
  show "length (concat (take l lines) @ take p (lines ! l)) = offset lines l p"
    using assms(2) by (simp add: offset_def)
qed

lemma char_at_offset:
  assumes "l < length lines" and "p < length (lines ! l)"
    and "concat lines = X @ a # s" and "offset lines l p = length X"
  shows "lines ! l ! p = a" and "drop p (lines ! l) @ concat (drop (Suc l) lines) = a # s"
    and "concat (take l lines) @ take p (lines ! l) = X"
proof -
  let ?X = "concat (take l lines) @ take p (lines ! l)" and ?t = "drop p (lines ! l) @ concat (drop (Suc l) lines)"
  have "?X @ ?t = X @ a # s" and "length ?X = length X"
    using concat_at[of l lines p] assms by simp_all
  then have "?X = X \<and> ?t = a # s" using append_eq_append_conv[of ?X X ?t "a # s"] by simp
  then show t: "?t = a # s" and "?X = X" by simp_all
  from t show "lines ! l ! p = a"
    using assms(2) by (simp add: Cons_nth_drop_Suc[symmetric])
qed

definition partner :: "char \<Rightarrow> string \<Rightarrow> string \<Rightarrow> char \<Rightarrow> string \<Rightarrow> bool" where
  "partner a s w b Y \<longleftrightarrow> s = w @ b # Y \<and> balanced w \<and> pairs a b"

lemma match_close_partner:
  assumes "opens_br a" and "partner a s w b Y"
  shows "match_close (a # s) [] n = Closed (length w + 2 + n)"
  using match_close_iff[OF assms(1), of s "length w + 2"] assms(2) match_close_shift[of "a # s" "[]" 0 n]
  by (auto simp: partner_def)

lemma match_close_no_partner:
  assumes "opens_br a" and "\<not> (\<exists>w b Y. partner a s w b Y)"
  shows "match_close (a # s) [] n \<noteq> Closed m"
proof
  assume "match_close (a # s) [] n = Closed m"
  then obtain m' where "match_close (a # s) [] 0 = Closed m'"
    using match_close_shift[of "a # s" "[]" 0 n] by (cases "match_close (a # s) [] 0") auto
  with assms show False by (auto simp: match_close_iff[OF assms(1)] partner_def)
qed

text \<open>C3: \<open>CloseExpression\<close> on a round, square or curly bracket returns the position behind its
  partner in the text of all the lines, whatever angle brackets, semicolons and operators stand
  in between; when the bracket has no partner it returns \<open>(line, NumLines, -1)\<close>.\<close>

theorem CloseExpression_finds_partner:
  assumes "views_ok c" and "l < length (cl_elided c)" and "p < length (cl_elided c ! l)"
    and "concat (cl_elided c) = X @ a # s" and "offset (cl_elided c) l p = length X" and "opens_br a"
  shows "(\<forall>w b Y. partner a s w b Y \<longrightarrow>
      (\<exists>k i. CloseExpression c (int l) (int p) = Inr (cl_elided c ! k, int k, int i + 1) \<and>
         k < length (cl_elided c) \<and> i < length (cl_elided c ! k) \<and>
         offset (cl_elided c) k i = length X + length w + 1)) \<and>
    (\<not> (\<exists>w b Y. partner a s w b Y) \<longrightarrow>
      (\<exists>line. CloseExpression c (int l) (int p) = Inr (line, NumLines c, -1)))"
proof -
  let ?ls = "cl_elided c"
  have n: "cl_num_lines c = int (length ?ls)" using assms(1) by (simp add: views_ok_def)
  note at = char_at_offset[OF assms(2-5)]
  have spec: "result_ok ?ls (CloseExpression c (int l) (int p)) (match_close (a # s) [] (length X))"
    using CloseExpression_spec[OF refl n assms(2,3)] at assms(5,6) by simp
  show ?thesis
  proof (intro conjI allI impI)
    fix w b Y
    assume "partner a s w b Y"
    with spec have "closes_at ?ls (CloseExpression c (int l) (int p)) (length w + 2 + length X)"
      by (simp add: match_close_partner[OF assms(6)])
    then show "\<exists>k i. CloseExpression c (int l) (int p) = Inr (?ls ! k, int k, int i + 1) \<and>
         k < length ?ls \<and> i < length (?ls ! k) \<and> offset ?ls k i = length X + length w + 1"
      unfolding closes_at_def by (auto simp: offset_def)
  next
    assume "\<not> (\<exists>w b Y. partner a s w b Y)"
    then have "match_close (a # s) [] (length X) \<noteq> Closed m" for m
      using match_close_no_partner[OF assms(6)] by blast
    with spec n show "\<exists>line. CloseExpression c (int l) (int p) = Inr (line, NumLines c, -1)"
      by (cases "match_close (a # s) [] (length X)") (auto simp: not_closed_def NumLines_def)
  qed
qed

definition ex_file :: cleansed_lines where
  "ex_file = \<lparr>cl_elided = [''if (a < b['', ''0])''], cl_lines = ['''', ''''], cl_raw_lines = ['''', ''''],
     cl_num_lines = 2, cl_lines_without_raw_strings = ['''', '''']\<rparr>"

lemma balanced_plain: "list_all (\<lambda>c. \<not> opens_br c \<and> \<not> closes_br c) w \<Longrightarrow> balanced w"
  by (induction w) (auto intro: balanced.intros)

lemma ex_balanced: "balanced ''0''" "balanced ''a < b[0]''"
proof -
  show z: "balanced ''0''" by (rule balanced_plain) code_simp
  have "balanced (CHR ''['' # ''0'' @ CHR '']'' # [])"
    by (rule balanced_pair[OF _ z balanced_Nil]) (simp add: pairs_def)
  moreover have "balanced ''a < b''" by (rule balanced_plain) code_simp
  ultimately have "balanced (''a < b'' @ CHR ''['' # ''0'' @ CHR '']'' # [])" by (rule balanced_append[rotated])
  then show "balanced ''a < b[0]''" by simp
qed

lemma CloseExpression_finds_partner_witness:
  "\<exists>k i. CloseExpression ex_file (int 0) (int 3) = Inr (cl_elided ex_file ! k, int k, int i + 1) \<and>
      k < length (cl_elided ex_file) \<and> i < length (cl_elided ex_file ! k) \<and>
      offset (cl_elided ex_file) k i = length ''if '' + length ''a < b[0]'' + 1"
proof -
  have "partner (CHR ''('') (''a < b[0]'' @ '')'') ''a < b[0]'' (CHR '')'') []"
    by (simp add: partner_def pairs_def ex_balanced)
  moreover have "views_ok ex_file" "0 < length (cl_elided ex_file)" "3 < length (cl_elided ex_file ! 0)"
    "concat (cl_elided ex_file) = ''if '' @ CHR ''('' # ''a < b[0]'' @ '')''"
    "offset (cl_elided ex_file) 0 3 = length ''if ''" "opens_br (CHR ''('')"
    by (simp_all add: ex_file_def views_ok_def offset_def opens_br_def)
  ultimately show ?thesis
    using CloseExpression_finds_partner[of ex_file 0 3 "''if ''" "CHR ''(''" "''a < b[0]'' @ '')''"] by blast
qed

lemma partner_mirror:
  assumes "partner (mirror b) (map mirror (rev s)) w' a' Y'"
  shows "s = map mirror (rev Y') @ mirror a' # map mirror (rev w')" and "balanced (map mirror (rev w'))"
    and "pairs (mirror a') b"
proof -
  have "map mirror (rev s) = w' @ a' # Y'" using assms by (simp add: partner_def)
  then have "rev (map mirror (map mirror (rev s))) = rev (map mirror (w' @ a' # Y'))" by simp
  then show "s = map mirror (rev Y') @ mirror a' # map mirror (rev w')" by (simp add: rev_map)
  show "balanced (map mirror (rev w'))" using assms balanced_mirror by (simp add: partner_def)
  show "pairs (mirror a') b" using assms mirror_simps(4)[of a' "mirror b"] by (simp add: partner_def)
qed

lemma mirrored_prefix:
  assumes "l < length lines" and "p < length (lines ! l)"
    and "concat lines = s @ b # Y" and "offset lines l p = length s"
  shows "map mirror (rev (concat (take l lines) @ take (Suc p) (lines ! l))) = mirror b # map mirror (rev s)"
proof -
  note at = char_at_offset[OF assms]
  have "concat (take l lines) @ take (Suc p) (lines ! l) = s @ [b]"
    unfolding at(3)[symmetric] using at(1) assms(2) by (simp add: take_Suc_conv_app_nth)
  then show ?thesis by simp
qed

text \<open>C16: \<open>ReverseCloseExpression\<close> on a closing round, square or curly bracket returns the position
  of its partner in the text of all the lines, or \<open>(line, 0, -1)\<close> when it has none.\<close>

theorem ReverseCloseExpression_finds_partner:
  assumes "l < length (cl_elided c)" and "p < length (cl_elided c ! l)"
    and "concat (cl_elided c) = s @ b # Y" and "offset (cl_elided c) l p = length s" and "closes_br b"
  shows "(\<forall>X a w. s = X @ a # w \<and> balanced w \<and> pairs a b \<longrightarrow>
      (\<exists>k i. ReverseCloseExpression c (int l) (int p) = Inr (cl_elided c ! k, int k, int i) \<and>
         k < length (cl_elided c) \<and> i < length (cl_elided c ! k) \<and> offset (cl_elided c) k i = length X)) \<and>
    (\<not> (\<exists>X a w. s = X @ a # w \<and> balanced w \<and> pairs a b) \<longrightarrow>
      (\<exists>line. ReverseCloseExpression c (int l) (int p) = Inr (line, 0, -1)))"
proof -
  let ?ls = "cl_elided c" and ?r = "ReverseCloseExpression c (int l) (int p)"
  note at = char_at_offset[OF assms(1-4)]
  have b: "opens_br (mirror b)" using assms(5) by simp
  have "map mirror (rev (concat (take l ?ls) @ take (Suc p) (?ls ! l))) = mirror b # map mirror (rev s)"
    by (rule mirrored_prefix[OF assms(1-4)])
  moreover have "offset ?ls l (Suc p) = Suc (length s)" using assms(4) by (simp add: offset_def)
  ultimately have spec: "rev_result_ok ?ls (Suc (length s)) ?r (match_close (mirror b # map mirror (rev s)) [] 0)"
    using ReverseCloseExpression_spec[OF refl assms(1,2)] at(1) assms(5) by simp
  show ?thesis
  proof (intro conjI allI impI)
    fix X a w
    assume s: "s = X @ a # w \<and> balanced w \<and> pairs a b"
    then have "partner (mirror b) (map mirror (rev s)) (map mirror (rev w)) (mirror a) (map mirror (rev X))"
      using balanced_mirror by (simp add: partner_def)
    with spec have "opens_at ?ls ?r (Suc (length s)) (length w + 2)"
      by (simp add: match_close_partner[OF b])
    then show "\<exists>k i. ?r = Inr (?ls ! k, int k, int i) \<and> k < length ?ls \<and> i < length (?ls ! k) \<and> offset ?ls k i = length X"
      unfolding opens_at_def using s by auto
  next
    assume no: "\<not> (\<exists>X a w. s = X @ a # w \<and> balanced w \<and> pairs a b)"
    have False if "partner (mirror b) (map mirror (rev s)) w a Y" for w a Y
      using partner_mirror[OF that] no by blast
    then have "\<not> (\<exists>w a Y. partner (mirror b) (map mirror (rev s)) w a Y)" by blast
    then have "match_close (mirror b # map mirror (rev s)) [] 0 \<noteq> Closed m" for m
      using match_close_no_partner[OF b] by blast
    with spec show "\<exists>line. ?r = Inr (line, 0, -1)"
      by (cases "match_close (mirror b # map mirror (rev s)) [] 0") auto
  qed
qed

lemma ReverseCloseExpression_finds_partner_witness:
  "\<exists>k i. ReverseCloseExpression ex_file (int 1) (int 1) = Inr (cl_elided ex_file ! k, int k, int i) \<and>
     k < length (cl_elided ex_file) \<and> i < length (cl_elided ex_file ! k) \<and>
     offset (cl_elided ex_file) k i = length ''if (a < b''"
proof -
  have "''if (a < b[0'' = ''if (a < b'' @ CHR ''['' # ''0'' \<and> balanced ''0'' \<and> pairs (CHR ''['') (CHR '']'')"
    by (simp add: pairs_def ex_balanced)
  moreover have "1 < length (cl_elided ex_file)" "1 < length (cl_elided ex_file ! 1)"
    "concat (cl_elided ex_file) = ''if (a < b[0'' @ CHR '']'' # '')''"
    "offset (cl_elided ex_file) 1 1 = length ''if (a < b[0''" "closes_br (CHR '']'')"
    by (simp_all add: ex_file_def offset_def closes_br_def)
  ultimately show ?thesis
    using ReverseCloseExpression_finds_partner[of 1 ex_file 1 "''if (a < b[0''" "CHR '']''" "'')''"] by blast
qed

text \<open>C17: The two searches are inverse to each other: where \<open>CloseExpression\<close> finds the end of a
  round, square or curly bracket, \<open>ReverseCloseExpression\<close> from that end finds the bracket again.\<close>

theorem CloseExpression_round_trip:
  assumes "views_ok c" and "l < length (cl_elided c)" and "p < length (cl_elided c ! l)"
    and "opens_br (cl_elided c ! l ! p)"
    and "CloseExpression c (int l) (int p) = Inr (line, k, e)" and "e \<noteq> -1"
  shows "ReverseCloseExpression c k (e - 1) = Inr (cl_elided c ! l, int l, int p)"
proof -
  let ?ls = "cl_elided c"
  let ?a = "?ls ! l ! p"
  let ?X = "concat (take l ?ls) @ take p (?ls ! l)" and ?s = "drop (Suc p) (?ls ! l) @ concat (drop (Suc l) ?ls)"
  have cat: "concat ?ls = ?X @ ?a # ?s" and len: "offset ?ls l p = length ?X"
    using concat_at[of l ?ls p] assms(2,3) by (simp_all add: Cons_nth_drop_Suc[symmetric])
  have n: "cl_num_lines c = int (length ?ls)" using assms(1) by (simp add: views_ok_def)
  have spec: "result_ok ?ls (CloseExpression c (int l) (int p)) (match_close (?a # ?s) [] (length ?X))"
    using CloseExpression_spec[OF refl n assms(2,3,4)] char_at_offset[OF assms(2,3) cat len] len by simp
  have "\<not> not_closed ?ls (CloseExpression c (int l) (int p))"
    using assms(5,6) by (simp add: not_closed_def)
  have "\<exists>w b Y. partner ?a ?s w b Y"
  proof (rule ccontr)
    assume "\<not> ?thesis"
    then have "match_close (?a # ?s) [] (length ?X) \<noteq> Closed m" for m
      using match_close_no_partner[OF assms(4)] by blast
    with spec \<open>\<not> not_closed _ _\<close> show False by (cases "match_close (?a # ?s) [] (length ?X)") auto
  qed
  then obtain w b Y where p: "partner ?a ?s w b Y" by blast
  with spec have "closes_at ?ls (CloseExpression c (int l) (int p)) (length w + 2 + length ?X)"
    by (simp add: match_close_partner[OF assms(4)])
  then obtain k' i where k: "k = int k'" "e = int i + 1" "k' < length ?ls" "i < length (?ls ! k')"
      "offset ?ls k' i = length ?X + length w + 1"
    unfolding closes_at_def using assms(5) by (auto simp: offset_def)
  have w: "?s = w @ b # Y" "balanced w" "pairs ?a b" using p by (simp_all add: partner_def)
  have cat': "concat ?ls = (?X @ ?a # w) @ b # Y" using cat w(1) by simp
  have off': "offset ?ls k' i = length (?X @ ?a # w)" using k(5) by simp
  have rev: "rev_result_ok ?ls (offset ?ls k' (Suc i)) (ReverseCloseExpression c (int k') (int i))
      (match_close (map mirror (rev (concat (take k' ?ls) @ take (Suc i) (?ls ! k')))) [] 0)"
    using char_at_offset(1)[OF k(3,4) cat' off'] pairsD[OF w(3)] by (intro ReverseCloseExpression_spec k refl) simp
  have "map mirror (rev (concat (take k' ?ls) @ take (Suc i) (?ls ! k'))) = mirror b # map mirror (rev (?X @ ?a # w))"
    by (rule mirrored_prefix[OF k(3,4) cat' off'])
  moreover have "partner (mirror b) (map mirror (rev (?X @ ?a # w))) (map mirror (rev w)) (mirror ?a) (map mirror (rev ?X))"
    using w balanced_mirror by (simp add: partner_def)
  ultimately have "opens_at ?ls (ReverseCloseExpression c (int k') (int i)) (offset ?ls k' (Suc i)) (length w + 2)"
    using rev match_close_partner[of "mirror b" _ _ _ _ 0] pairsD[OF w(3)] by simp
  then obtain l' j where r: "ReverseCloseExpression c (int k') (int i) = Inr (?ls ! l', int l', int j)"
      "l' < length ?ls" "j < length (?ls ! l')" "offset ?ls l' j + (length w + 2) = offset ?ls k' (Suc i)"
    unfolding opens_at_def by blast
  have "offset ?ls l' j = offset ?ls l p" using r(4) k(5) len by (simp add: offset_def)
  then have "l' = l \<and> j = p" using offset_unique r(2,3) assms(2,3) by blast
  with r(1) k(1,2) show ?thesis by simp
qed

lemma CloseExpression_round_trip_witness:
  "ReverseCloseExpression ex_file 1 (3 - 1) = Inr (cl_elided ex_file ! 0, int 0, int 3)"
proof (rule CloseExpression_round_trip)
  show "CloseExpression ex_file (int 0) (int 3) = Inr (''0])'', 1, 3)" by code_simp
qed (simp_all add: ex_file_def views_ok_def opens_br_def)

section \<open>Progress of \<open>CloseExpression\<close>\<close>

lemma find_end_loop_end:
  "find_end_loop line is stack = Inr (e, st) \<Longrightarrow> e > -1 \<Longrightarrow> \<exists>i \<in> set is. e = i + 1"
proof (induction "is" arbitrary: stack)
  case (Cons i "is")
  from Cons.prems show ?case
    unfolding find_end_loop.simps
    by (auto simp: py_bind_eq_Inr split: if_splits list.splits dest!: Cons.IH)
qed simp

lemma FindEnd_end:
  "FindEndOfExpressionInLine line p stack = Inr (e, st) \<Longrightarrow> e > -1 \<Longrightarrow> p < e \<and> e \<le> int (length line)"
  unfolding FindEndOfExpressionInLine_def by (drule find_end_loop_end) (auto simp: set_py_range)

lemma close_loop_end:
  "close_loop c line l stack = Inr (line', l', e) \<Longrightarrow> e > -1 \<Longrightarrow>
   l < l' \<and> l' < NumLines c \<and> e \<le> int (length line') \<and> py_nth (cl_elided c) l' = Inr line'"
proof (induction c line l stack rule: close_loop.induct)
  case (1 c line l stack)
  show ?case
  proof (cases "stack \<noteq> None \<and> stack \<noteq> Some [] \<and> l < NumLines c - 1")
    case True
    with 1(2) obtain x a b where x: "py_nth (cl_elided c) (l + 1) = Inr x"
      "FindEndOfExpressionInLine x 0 (the stack) = Inr (a, b)"
      "(if a > -1 then Inr (x, l + 1, a) else close_loop c x (l + 1) b) = Inr (line', l', e)"
      by (subst (asm) close_loop.simps) (auto simp: py_bind_eq_Inr)
    show ?thesis
    proof (cases "a > -1")
      case a: True
      with x True 1(3) FindEnd_end[OF x(2)] show ?thesis by auto
    next
      case False
      with 1(1)[OF True, of a x b] x(3) 1(3) show ?thesis by auto
    qed
  next
    case False
    then show ?thesis using 1(2,3) by (subst (asm) close_loop.simps) auto
  qed
qed

lemma CloseExpression_end:
  "CloseExpression c l p = Inr (line', l', e) \<Longrightarrow> e > -1 \<Longrightarrow>
   (l < l' \<and> l' < NumLines c \<or> l' = l \<and> p < e) \<and> e \<le> int (length line') \<and> py_nth (cl_elided c) l' = Inr line'"
  unfolding CloseExpression_def
  by (auto simp: py_bind_eq_Inr split: if_splits prod.splits dest!: close_loop_end dest: FindEnd_end)

text \<open>\<open>CloseExpression\<close> returns for every position of the file.\<close>

lemma find_end_loop_returns:
  "(\<And>i. i \<in> set is \<Longrightarrow> 0 \<le> i \<and> i < int (length line)) \<Longrightarrow> \<exists>r. find_end_loop line is stack = Inr r"
proof (induction "is" arbitrary: stack)
  case (Cons i "is")
  then show ?case by (simp add: py_nth_in_range split: list.split)
qed simp

lemma FindEnd_returns: "0 \<le> p \<Longrightarrow> \<exists>r. FindEndOfExpressionInLine line p stack = Inr r"
  unfolding FindEndOfExpressionInLine_def by (rule find_end_loop_returns) (simp add: set_py_range)

lemma close_loop_returns:
  "0 \<le> l \<Longrightarrow> NumLines c \<le> int (length (cl_elided c)) \<Longrightarrow> \<exists>r. close_loop c line l stack = Inr r"
proof (induction c line l stack rule: close_loop.induct)
  case (1 c line l stack)
  show ?case
  proof (cases "stack \<noteq> None \<and> stack \<noteq> Some [] \<and> l < NumLines c - 1")
    case True
    then have nth: "py_nth (cl_elided c) (l + 1) = Inr (cl_elided c ! nat (l + 1))"
      using 1(2,3) by (simp add: py_nth_in_range)
    obtain e st where fe: "FindEndOfExpressionInLine (cl_elided c ! nat (l + 1)) 0 (the stack) = Inr (e, st)"
      using FindEnd_returns[of 0] by (metis order_refl prod.exhaust)
    show ?thesis
      using 1(1)[OF True, of e "cl_elided c ! nat (l + 1)" st] 1(2,3) by (subst close_loop.simps) (simp add: True nth fe)
  next
    case False
    then show ?thesis by (subst close_loop.simps) auto
  qed
qed

lemma CloseExpression_returns:
  "views_ok c \<Longrightarrow> py_nth (cl_elided c) l = Inr line \<Longrightarrow> 0 \<le> l \<Longrightarrow> 0 \<le> p \<Longrightarrow> p < int (length line) \<Longrightarrow>
   \<exists>r. CloseExpression c l p = Inr r"
proof -
  assume a: "views_ok c" "py_nth (cl_elided c) l = Inr line" "0 \<le> l" "0 \<le> p" "p < int (length line)"
  obtain e st where fe: "FindEndOfExpressionInLine line p [] = Inr (e, st)"
    using FindEnd_returns[OF a(4)] by (metis prod.exhaust)
  have "\<exists>r. close_loop c line l st = Inr r"
    using a by (intro close_loop_returns) (auto simp: views_ok_def NumLines_def)
  with a fe show ?thesis by (simp add: CloseExpression_def py_nth_in_range[OF a(4,5)])
qed

text \<open>\<open>ReverseCloseExpression\<close> returns for every position of the file.\<close>

lemma ex_Inr_if: "(b \<Longrightarrow> \<exists>r. x = Inr r) \<Longrightarrow> (\<not> b \<Longrightarrow> \<exists>r. y = Inr r) \<Longrightarrow> \<exists>r. (if b then x else y) = Inr r"
  by simp

lemma ex_Inr_list:
  "(xs = [] \<Longrightarrow> \<exists>r. x = Inr r) \<Longrightarrow> (\<And>a as. xs = a # as \<Longrightarrow> \<exists>r. y a as = Inr r) \<Longrightarrow>
   \<exists>r. (case xs of [] \<Rightarrow> x | a # as \<Rightarrow> y a as) = Inr r"
  by (cases xs) simp_all

lemma FindStart_returns: "i < int (length line) \<Longrightarrow> \<exists>r. FindStartOfExpressionInLine line i stk = Inr r"
proof (induction "nat (i + 1)" arbitrary: i stk rule: less_induct)
  case less
  show ?case
  proof (cases "i \<ge> 0")
    case True
    then have nth: "py_nth line i = Inr (line ! nat i)" using less.prems by (simp add: py_nth_in_range)
    have IH: "\<exists>r. FindStartOfExpressionInLine line (i - 1) s = Inr r" "\<exists>r. FindStartOfExpressionInLine line (i - 2) s = Inr r" for s
      using less True by auto
    show ?thesis
      unfolding FindStartOfExpressionInLine.simps[of line i] if_P[OF True] nth py_bind.simps
      by (intro ex_Inr_if ex_Inr_list IH) simp_all
  next
    case False
    then show ?thesis by (subst FindStartOfExpressionInLine.simps) simp
  qed
qed

lemma reverse_close_loop_returns:
  "l \<le> int (length (cl_elided c)) \<Longrightarrow> \<exists>r. reverse_close_loop c line l stk = Inr r"
proof (induction c line l stk rule: reverse_close_loop.induct)
  case (1 c line l stk)
  show ?case
  proof (cases "stk \<noteq> None \<and> stk \<noteq> Some [] \<and> l > 0")
    case True
    then have nth: "py_nth (cl_elided c) (l - 1) = Inr (cl_elided c ! nat (l - 1))" (is "_ = Inr ?line")
      using 1(2) by (simp add: py_nth_in_range)
    obtain e st where fs: "FindStartOfExpressionInLine ?line (int (length ?line) - 1) (the stk) = Inr (e, st)"
      using FindStart_returns[of "int (length ?line) - 1"] by (metis diff_less less_one prod.exhaust zle_diff1_eq zless_add1_eq diff_add_cancel order_refl)
    show ?thesis
      using 1(1)[OF True, of e ?line st] 1(2) by (subst reverse_close_loop.simps) (simp add: True nth fs)
  next
    case False
    then show ?thesis by (subst reverse_close_loop.simps) auto
  qed
qed

lemma ReverseCloseExpression_returns_at:
  assumes "py_nth (cl_elided c) l = Inr line" and "0 \<le> l" and "py_nth line p = Inr ch" and "p < int (length line)"
  shows "\<exists>r. ReverseCloseExpression c l p = Inr r"
proof -
  have l: "l < int (length (cl_elided c))"
    using assms(1,2) by (auto simp: py_nth_def split: if_splits)
  obtain e st where fs: "FindStartOfExpressionInLine line p [] = Inr (e, st)"
    using FindStart_returns[OF assms(4)] by (metis prod.exhaust)
  have "\<exists>r. reverse_close_loop c line l st = Inr r" using l by (intro reverse_close_loop_returns) simp
  with assms fs show ?thesis by (simp add: ReverseCloseExpression_def)
qed

lemma ReverseCloseExpression_returns:
  "py_nth (cl_elided c) l = Inr line \<Longrightarrow> 0 \<le> l \<Longrightarrow> 0 \<le> p \<Longrightarrow> p < int (length line) \<Longrightarrow>
   \<exists>r. ReverseCloseExpression c l p = Inr r"
  by (rule ReverseCloseExpression_returns_at) (auto simp: py_nth_in_range)

text \<open>Without a closing bracket the result is the number of lines.\<close>

lemma close_loop_line: "close_loop c line l stk = Inr (line', l', e) \<Longrightarrow> e > -1 \<or> l' = NumLines c"
proof (induction c line l stk rule: close_loop.induct)
  case (1 c line l stk)
  show ?case
  proof (cases "stk \<noteq> None \<and> stk \<noteq> Some [] \<and> l < NumLines c - 1")
    case True
    with 1(2) obtain x a b where x: "py_nth (cl_elided c) (l + 1) = Inr x"
      "FindEndOfExpressionInLine x 0 (the stk) = Inr (a, b)"
      "(if a > -1 then Inr (x, l + 1, a) else close_loop c x (l + 1) b) = Inr (line', l', e)"
      by (subst (asm) close_loop.simps) (auto simp: py_bind_eq_Inr)
    then show ?thesis using 1(1)[OF True, of a x b] by (auto split: if_splits)
  next
    case False
    then show ?thesis using 1(2) by (subst (asm) close_loop.simps) auto
  qed
qed

lemma CloseExpression_line:
  "CloseExpression c l p = Inr (line', l', e) \<Longrightarrow> e > -1 \<or> l' = NumLines c"
  unfolding CloseExpression_def
  by (auto simp: py_bind_eq_Inr split: if_splits prod.splits dest: close_loop_line)

text \<open>Where the opening bracket is.\<close>

lemma reverse_close_loop_line: "reverse_close_loop c line l stk = Inr (line', l', e) \<Longrightarrow> l' \<le> max l 0"
proof (induction c line l stk rule: reverse_close_loop.induct)
  case (1 c line l stk)
  show ?case
  proof (cases "stk \<noteq> None \<and> stk \<noteq> Some [] \<and> l > 0")
    case True
    with 1(2) obtain x a b where x: "py_nth (cl_elided c) (l - 1) = Inr x"
      "FindStartOfExpressionInLine x (int (length x) - 1) (the stk) = Inr (a, b)"
      "(if a > -1 then Inr (x, l - 1, a) else reverse_close_loop c x (l - 1) b) = Inr (line', l', e)"
      by (subst (asm) reverse_close_loop.simps) (auto simp: py_bind_eq_Inr)
    then show ?thesis using 1(1)[OF True, of a x b] True by (auto split: if_splits)
  next
    case False
    then show ?thesis using 1(2) by (subst (asm) reverse_close_loop.simps) auto
  qed
qed

lemma ReverseCloseExpression_line: "ReverseCloseExpression c l p = Inr (line', l', e) \<Longrightarrow> l' \<le> max l 0"
  unfolding ReverseCloseExpression_def
  by (auto simp: py_bind_eq_Inr split: if_splits prod.splits dest: reverse_close_loop_line)

end
