(* ===== verification/Handlers.thy ===== *)
theory Handlers
  imports Reporting
begin

text \<open>
  The interface between the checks and the \<open>error\<close> callback.  Every check receives a callback
  and a state that the callback works on.  The contract: the callback returns, and it keeps an
  invariant of the state.  Lemmas about the checks are proved once from this contract; the
  interpretations at the end discharge it for \<open>Error\<close> and for \<open>record_error\<close>.
\<close>

section \<open>Computations that return\<close>

text \<open>\<open>returns P m\<close>: no exception, and the value satisfies \<open>P\<close>.\<close>

definition returns :: "('a \<Rightarrow> bool) \<Rightarrow> 'a py \<Rightarrow> bool" where
  "returns P m \<longleftrightarrow> (\<exists>x. m = Inr x \<and> P x)"

named_theorems returns_intros \<open>introduction rules for computations that return\<close>

lemma returns_Inr [returns_intros]: "P x \<Longrightarrow> returns P (Inr x)"
  by (simp add: returns_def)

lemma returns_Inr_iff [simp]: "returns P (Inr x) \<longleftrightarrow> P x"
  by (simp add: returns_def)

lemma returns_bind: "returns P m \<Longrightarrow> (\<And>x. P x \<Longrightarrow> returns Q (f x)) \<Longrightarrow> returns Q (py_bind m f)"
  by (auto simp: returns_def)

lemma returns_weaken: "returns P m \<Longrightarrow> (\<And>x. P x \<Longrightarrow> Q x) \<Longrightarrow> returns Q m"
  by (auto simp: returns_def)

lemma returns_when [returns_intros]: "P s \<Longrightarrow> (b \<Longrightarrow> returns P (a s)) \<Longrightarrow> returns P (py_when b a s)"
  by (simp add: py_when_def)

lemma returns_if [returns_intros]:
  "(b \<Longrightarrow> returns P m) \<Longrightarrow> (\<not> b \<Longrightarrow> returns P m') \<Longrightarrow> returns P (if b then m else m')"
  by simp

lemma returns_option [returns_intros]:
  "(x = None \<Longrightarrow> returns P m) \<Longrightarrow> (\<And>y. x = Some y \<Longrightarrow> returns P (f y)) \<Longrightarrow>
   returns P (case x of None \<Rightarrow> m | Some y \<Rightarrow> f y)"
  by (cases x) simp_all

lemma returns_fold:
  "(\<And>x s. x \<in> set xs \<Longrightarrow> P s \<Longrightarrow> returns P (f x s)) \<Longrightarrow> P s \<Longrightarrow> returns P (py_fold f xs s)"
proof (induction xs arbitrary: s)
  case Nil
  then show ?case by simp
next
  case (Cons x xs)
  then show ?case by (auto intro!: returns_bind[of P])
qed

lemma returns_seq:
  "(\<And>a s. a \<in> set as \<Longrightarrow> P s \<Longrightarrow> returns P (a s)) \<Longrightarrow> P s \<Longrightarrow> returns P (py_seq as s)"
proof (induction as arbitrary: s)
  case Nil
  then show ?case by simp
next
  case (Cons a as)
  then show ?case by (auto intro!: returns_bind[of P])
qed

lemma returns_nth: "0 \<le> i \<Longrightarrow> i < int (length xs) \<Longrightarrow> returns (\<lambda>x. x = xs ! nat i) (py_nth xs i)"
  by (simp add: returns_def py_nth_in_range)

lemma py_find_index_returns:
  "(\<And>i. i \<in> set is \<Longrightarrow> 0 \<le> i \<and> i < int (length xs)) \<Longrightarrow>
   returns (\<lambda>found. \<forall>i. found = Some i \<longrightarrow> i \<in> set is \<and> P (xs ! nat i)) (py_find_index P xs is)"
  by (auto simp: py_find_index_in_range find_Some_iff)

section \<open>The contract\<close>

locale error_handler =
  fixes error :: "'s error_fn" and inv :: "'s \<Rightarrow> bool"
  assumes error_returns: "inv s \<Longrightarrow> returns inv (error filename linenum category confidence message s)"
begin

lemma error_when: "inv s \<Longrightarrow> returns inv (py_when b (error filename linenum category confidence message) s)"
  by (intro returns_when error_returns)

lemma error_bind:
  "inv s \<Longrightarrow> (\<And>s'. inv s' \<Longrightarrow> returns Q (f s')) \<Longrightarrow>
   returns Q (py_bind (error filename linenum category confidence message s) f)"
  by (rule returns_bind[OF error_returns])

lemma error_for_each:
  "inv s \<Longrightarrow> returns inv (py_fold (\<lambda>x. py_when (b x) (error filename (l x) (c x) (k x) (m x))) xs s)"
  by (rule returns_fold) (rule error_when)

end

lemma filters_ok_initial [simp]: "filters_ok (cpplint_state initial_world)"
  by (simp add: filters_ok_def initial_world_def CppLintState_init_def DEFAULT_FILTERS_def signed_filter_def)

section \<open>The contract holds\<close>

text \<open>\<open>Error\<close> keeps the filters legal, and it never fails when they are.\<close>

interpretation printing: error_handler Error "\<lambda>w. filters_ok (cpplint_state w)"
proof
  fix w :: world and filename linenum category confidence message
  assume ok: "filters_ok (cpplint_state w)"
  obtain shown where p: "ShouldPrintError category confidence linenum w = Inr shown"
    using ShouldPrintError_eq[OF ok] by blast
  obtain w' where w': "Error filename linenum category confidence message w = Inr w'"
    using p Error_not_shown[of category confidence linenum w filename message]
      Error_shown[of category confidence linenum w filename message] by (cases shown) auto
  have "filters_ok (cpplint_state w')"
    using Error_frame[OF w'] ok by (simp add: filters_ok_def)
  with w' show "returns (\<lambda>w. filters_ok (cpplint_state w)) (Error filename linenum category confidence message w)"
    by (simp add: returns_def)
qed

text \<open>Recording only ever extends the log.\<close>

interpretation recording: error_handler record_error "\<lambda>log. \<exists>more. log = before @ more" for before
  by unfold_locales (auto simp: record_error_def)

end
