(* ===== verification/Paths.thy ===== *)
theory Paths
  imports Reporting
begin

text \<open>
  File names: the functions of \<open>os.path\<close> (POSIX) that the linter uses, and the class
  \<open>FileInfo\<close>.  What the file system holds and the current directory are parameters, bundled in
  an \<^emph>\<open>environment\<close>; nothing is assumed about them.
\<close>

record os_env =
  os_exists :: "string \<Rightarrow> bool"
  os_cwd :: string

section \<open>\<open>os.path\<close>\<close>

text \<open>The two parts of \<open>os.path.split\<close>: up to and including the last slash, and after it.\<close>

definition slash_index :: "string \<Rightarrow> nat" where
  "slash_index p = nat (py_rfind p ''/'' + 1)"

definition path_split :: "string \<Rightarrow> string \<times> string" where
  "path_split p =
     (let head = take (slash_index p) p; tail = drop (slash_index p) p
      in (if head \<noteq> [] \<and> head \<noteq> replicate (length head) (CHR ''/'')
          then py_rstrip_chars head ''/'' else head, tail))"

definition dirname :: "string \<Rightarrow> string" where
  "dirname p = fst (path_split p)"

text \<open>\<open>os.path.splitext\<close>: dots that lead the file name do not start an extension.\<close>

definition splitext :: "string \<Rightarrow> string \<times> string" where
  "splitext p =
     (let sep = py_rfind p ''/''; dot = py_rfind p ''.''
      in if dot > sep \<and> (\<exists>c \<in> set (py_slice p (sep + 1) dot). c \<noteq> CHR ''.'')
         then (py_upto p dot, py_from p dot) else (p, []))"

fun path_join :: "string \<Rightarrow> string list \<Rightarrow> string" where
  "path_join a [] = a"
| "path_join a (b # bs) =
     (if startswith b ''/'' then path_join b bs
      else if a = [] \<or> endswith a ''/'' then path_join (a @ b) bs
      else path_join (a @ ''/'' @ b) bs)"

text \<open>\<open>normpath\<close> and \<open>abspath\<close>; the components kept so far are held in reverse.\<close>

fun norm_comps :: "bool \<Rightarrow> string list \<Rightarrow> string list \<Rightarrow> string list" where
  "norm_comps rooted [] acc = rev acc"
| "norm_comps rooted (c # cs) acc =
     (if c = [] \<or> c = ''.'' then norm_comps rooted cs acc
      else if c \<noteq> ''..'' \<or> \<not> rooted \<and> acc = [] \<or> acc \<noteq> [] \<and> hd acc = ''..''
      then norm_comps rooted cs (c # acc)
      else if acc \<noteq> [] then norm_comps rooted cs (tl acc)
      else norm_comps rooted cs acc)"

definition normpath :: "string \<Rightarrow> string" where
  "normpath p =
     (if p = [] then ''.''
      else
        (let slashes = (if startswith p ''//'' \<and> \<not> startswith p ''///'' then ''//''
                        else if startswith p ''/'' then ''/'' else []);
             p' = slashes @ py_join ''/'' (norm_comps (slashes \<noteq> []) (py_split p ''/'') [])
         in if p' = [] then ''.'' else p'))"

definition abspath :: "os_env \<Rightarrow> string \<Rightarrow> string" where
  "abspath env p = normpath (if startswith p ''/'' then p else path_join (os_cwd env) [p])"

fun common_prefix :: "'a list \<Rightarrow> 'a list \<Rightarrow> 'a list" where
  "common_prefix (x # xs) (y # ys) = (if x = y then x # common_prefix xs ys else [])"
| "common_prefix xs ys = []"

definition relpath :: "os_env \<Rightarrow> string \<Rightarrow> string \<Rightarrow> string" where
  "relpath env path start =
     (let start_list = filter (\<lambda>x. x \<noteq> []) (py_split (abspath env start) ''/'');
          path_list = filter (\<lambda>x. x \<noteq> []) (py_split (abspath env path) ''/'');
          i = length (common_prefix start_list path_list);
          rel_list = replicate (length start_list - i) ''..'' @ drop i path_list
      in case rel_list of [] \<Rightarrow> ''.'' | x # xs \<Rightarrow> path_join x xs)"

declare path_join.simps(2) [simp del]

section \<open>Facts about \<open>split\<close>\<close>

lemma slash_index_spec:
  "(slash_index p = 0 \<or> last (take (slash_index p) p) = CHR ''/'') \<and> CHR ''/'' \<notin> set (drop (slash_index p) p)"
proof (cases "rev p" "''/''" rule: py_find_cases)
  case absent
  have "CHR ''/'' \<notin> set p"
  proof
    assume "CHR ''/'' \<in> set p"
    then obtain a b where "rev p = a @ ''/'' @ b" by (metis append_Cons append_Nil in_set_conv_decomp set_rev)
    with absent show False by blast
  qed
  moreover have "slash_index p = 0" using absent(1) by (simp add: slash_index_def py_rfind_def)
  ultimately show ?thesis by simp
next
  case (found a b)
  have "CHR ''/'' \<notin> set a"
  proof
    assume "CHR ''/'' \<in> set a"
    then obtain x y where xy: "a = x @ CHR ''/'' # y" by (metis in_set_conv_decomp)
    then have "length a \<le> length x" using found(3)[of x "y @ ''/'' @ b"] found(1) by simp
    with xy show False by simp
  qed
  have p: "p = rev b @ CHR ''/'' # rev a" using found(1) by (metis rev_rev_ident rev_append rev.simps append.assoc append_Cons append_Nil)
  have "slash_index p = length b + 1"
    using found(2) by (simp add: slash_index_def py_rfind_def p Let_def)
  with p \<open>CHR ''/'' \<notin> set a\<close> show ?thesis by simp
qed

lemma slash_index_le: "slash_index p \<le> length p"
proof (cases "py_find (rev p) ''/'' < 0")
  case True
  then show ?thesis by (simp add: slash_index_def py_rfind_def)
next
  case False
  then have "0 \<le> py_find (rev p) ''/''" by simp
  then show ?thesis using False by (simp add: slash_index_def py_rfind_def Let_def nat_le_iff)
qed

lemma rstrip_chars_shorter:
  assumes "s \<noteq> []" and "last s \<in> set cs"
  shows "length (py_rstrip_chars s cs) < length s"
proof -
  obtain x t where s: "s = t @ [x]" using assms(1) by (metis append_butlast_last_id)
  then have "x \<in> set cs" using assms(2) by simp
  then have "py_rstrip_chars s cs = py_rstrip_chars t cs" by (simp add: s py_rstrip_chars_def)
  moreover have "length (py_rstrip_chars t cs) \<le> length t"
    using length_dropWhile_le[of "\<lambda>c. c \<in> set cs" "rev t"] by (simp add: py_rstrip_chars_def)
  ultimately show ?thesis by (simp add: s)
qed

text \<open>The directory of a path is shorter than the path, unless it is the path itself.\<close>

lemma dirname_shorter: "dirname p \<noteq> p \<Longrightarrow> length (dirname p) < length p"
proof -
  assume ne: "dirname p \<noteq> p"
  let ?h = "take (slash_index p) p"
  let ?strip = "?h \<noteq> [] \<and> ?h \<noteq> replicate (length ?h) (CHR ''/'')"
  have d: "dirname p = (if ?strip then py_rstrip_chars ?h ''/'' else ?h)"
    by (simp only: dirname_def path_split_def Let_def fst_conv)
  show ?thesis
  proof (cases ?strip)
    case False
    then have "dirname p = ?h" unfolding d by (rule if_not_P)
    with ne have "slash_index p < length p" using slash_index_le[of p] by (cases "slash_index p = length p") auto
    with \<open>dirname p = ?h\<close> show ?thesis by simp
  next
    case True
    then have h: "dirname p = py_rstrip_chars ?h ''/''" unfolding d by (rule if_P)
    have "last ?h \<in> set ''/''" using slash_index_spec[of p] True by auto
    from rstrip_chars_shorter[OF _ this] h True slash_index_le[of p] show ?thesis by simp
  qed
qed

section \<open>\<open>FileInfo\<close>\<close>

definition FullName :: "os_env \<Rightarrow> string \<Rightarrow> string" where
  "FullName env filename = py_replace (abspath env filename) [backslash_char] ''/''"

text \<open>The directory that contains the file and is the one of the \<open>--repository\<close> flag.\<close>

function find_repository :: "os_env \<Rightarrow> string \<Rightarrow> string \<Rightarrow> string option" where
  "find_repository env repo root_dir =
     (if os_exists env root_dir then
        (if root_dir = repo then Some root_dir
         else if dirname root_dir = root_dir then None
         else find_repository env repo (dirname root_dir))
      else None)"
  by pat_completeness auto
termination
  by (relation "measure (\<lambda>(env, repo, root_dir). length root_dir)") (auto intro: dirname_shorter)

text \<open>The top of an old Subversion checkout.  Nothing stops this loop at the root directory.\<close>

partial_function (option) svn_top :: "os_env \<Rightarrow> string \<Rightarrow> string \<Rightarrow> string option" where
  "svn_top env root_dir one_up_dir =
     (if os_exists env (path_join one_up_dir [''.svn''])
      then svn_top env (dirname root_dir) (dirname one_up_dir)
      else Some root_dir)"

definition has_vcs :: "os_env \<Rightarrow> string \<Rightarrow> bool" where
  "has_vcs env d = (os_exists env (path_join d [''.git'']) \<or> os_exists env (path_join d [''.hg''])
                    \<or> os_exists env (path_join d [''.svn'']))"

function vcs_top :: "os_env \<Rightarrow> string \<Rightarrow> string \<Rightarrow> string" where
  "vcs_top env root_dir current_dir =
     (if current_dir \<noteq> dirname current_dir then
        vcs_top env (if has_vcs env current_dir then current_dir else root_dir) (dirname current_dir)
      else root_dir)"
  by pat_completeness auto
termination
  by (relation "measure (\<lambda>(env, root_dir, current_dir). length current_dir)") (auto intro: dirname_shorter)

declare find_repository.simps [simp del] vcs_top.simps [simp del]

definition after_prefix :: "string \<Rightarrow> string \<Rightarrow> string \<Rightarrow> string" where
  "after_prefix fullname root_dir project_dir =
     drop (length (common_prefix root_dir project_dir) + 1) fullname"

definition RepositoryName :: "os_env \<Rightarrow> world \<Rightarrow> string \<Rightarrow> string py" where
  "RepositoryName env g filename =
     (let fullname = FullName env filename
      in if \<not> os_exists env fullname then Inr fullname
         else
           (let project_dir = dirname fullname;
                repo = (case repository_flag g of
                          Some r \<Rightarrow> if r = [] then None else find_repository env (FullName env r) project_dir
                        | None \<Rightarrow> None)
            in case repo of
                 Some root_dir \<Rightarrow> Inr (py_replace (relpath env fullname root_dir) [backslash_char] ''/'')
               | None \<Rightarrow>
                   if os_exists env (path_join project_dir [''.svn'']) then
                     (case svn_top env project_dir (dirname project_dir) of
                        None \<Rightarrow> Inl Diverges
                      | Some root_dir \<Rightarrow> Inr (after_prefix fullname root_dir project_dir))
                   else
                     (let root_dir = vcs_top env project_dir project_dir
                      in if has_vcs env root_dir then Inr (after_prefix fullname root_dir project_dir)
                         else Inr fullname)))"

definition FileInfo_Split :: "os_env \<Rightarrow> world \<Rightarrow> string \<Rightarrow> (string \<times> string \<times> string) py" where
  "FileInfo_Split env g filename =
     py_bind (RepositoryName env g filename) (\<lambda>googlename.
       let (project, rest) = path_split googlename; (base, ext) = splitext rest
       in Inr (project, base, ext))"

definition BaseName :: "os_env \<Rightarrow> world \<Rightarrow> string \<Rightarrow> string py" where
  "BaseName env g filename = py_bind (FileInfo_Split env g filename) (\<lambda>(d, b, e). Inr b)"

definition Extension :: "os_env \<Rightarrow> world \<Rightarrow> string \<Rightarrow> string py" where
  "Extension env g filename = py_bind (FileInfo_Split env g filename) (\<lambda>(d, b, e). Inr e)"

definition NoExtension :: "os_env \<Rightarrow> world \<Rightarrow> string \<Rightarrow> string py" where
  "NoExtension env g filename = py_bind (FileInfo_Split env g filename) (\<lambda>(d, b, e). Inr (d @ ''/'' @ b))"

definition FileInfo_IsSource :: "os_env \<Rightarrow> world \<Rightarrow> string \<Rightarrow> bool py" where
  "FileInfo_IsSource env g filename =
     py_bind (Extension env g filename) (\<lambda>ext. Inr (IsSourceExtension g (drop 1 ext)))"

section \<open>Properties\<close>

lemma svn_top_returns:
  assumes "\<And>d. dirname d = d \<Longrightarrow> \<not> os_exists env (path_join d [''.svn''])"
  shows "\<exists>r. svn_top env root_dir one_up_dir = Some r"
proof (induction "length one_up_dir" arbitrary: root_dir one_up_dir rule: less_induct)
  case less
  show ?case
  proof (cases "os_exists env (path_join one_up_dir [''.svn''])")
    case True
    with assms have "dirname one_up_dir \<noteq> one_up_dir" by blast
    from less[OF dirname_shorter[OF this]] True show ?thesis by (subst svn_top.simps) simp
  next
    case False
    then show ?thesis by (subst svn_top.simps) simp
  qed
qed

lemma svn_top_Some:
  "svn_top env root_dir one_up_dir = Some r \<Longrightarrow>
   \<exists>n. \<not> os_exists env (path_join ((dirname ^^ n) one_up_dir) [''.svn''])"
proof (rule svn_top.raw_induct[where P = "\<lambda>env root_dir one_up_dir r.
    \<exists>n. \<not> os_exists env (path_join ((dirname ^^ n) one_up_dir) [''.svn''])"], goal_cases)
  case (1 f e root_dir d r')
  show ?case
  proof (cases "os_exists e (path_join d [''.svn''])")
    case True
    with 1(3) have "f e (dirname root_dir) (dirname d) = Some r'" by simp
    from 1(2)[OF this] obtain n where "\<not> os_exists e (path_join ((dirname ^^ Suc n) d) [''.svn''])"
      by (auto simp: funpow_swap1)
    then show ?thesis by blast
  next
    case False
    then have "\<not> os_exists e (path_join ((dirname ^^ 0) d) [''.svn''])" by simp
    then show ?thesis by blast
  qed
qed

text \<open>C21: \<open>RepositoryName\<close> returns for every file name, provided that no directory that is its own
  parent (the root directory) carries a \<open>.svn\<close> entry.\<close>

theorem RepositoryName_returns:
  assumes "\<And>d. dirname d = d \<Longrightarrow> \<not> os_exists env (path_join d [''.svn''])"
  shows "\<exists>name. RepositoryName env g filename = Inr name"
proof -
  obtain r where "svn_top env (dirname (FullName env filename)) (dirname (dirname (FullName env filename))) = Some r"
    using svn_top_returns[OF assms] by blast
  then show ?thesis by (simp add: RepositoryName_def Let_def split: option.split)
qed

definition ex_env :: os_env where
  "ex_env = \<lparr>os_exists = (\<lambda>p. p \<in> set [''/w/p/src/a.h'', ''/w/p/.git'']), os_cwd = ''/w/p''\<rparr>"

lemma RepositoryName_returns_witness:
  "\<exists>name. RepositoryName ex_env initial_world ''src/a.h'' = Inr name"
proof (rule RepositoryName_returns)
  fix d
  have "path_join d [''.svn''] = ''.svn'' \<or> (\<exists>x. path_join d [''.svn''] = x @ ''.svn'')"
    by (simp add: path_join.simps(2))
  then show "\<not> os_exists ex_env (path_join d [''.svn''])"
    by (auto simp: ex_env_def append_eq_Cons_conv dest: arg_cong[where f = "\<lambda>p. rev p"])
qed



text \<open>The directories from a path upwards, without the root.\<close>

function ancestors :: "string \<Rightarrow> string list" where
  "ancestors d = (if d \<noteq> dirname d then d # ancestors (dirname d) else [])"
  by pat_completeness auto
termination
  by (relation "measure length") (auto intro: dirname_shorter)

declare ancestors.simps [simp del]

lemma vcs_top_ancestors:
  "vcs_top env root_dir d = last (root_dir # filter (has_vcs env) (ancestors d))"
proof (induction d arbitrary: root_dir rule: ancestors.induct)
  case (1 d)
  show ?case
    using 1 by (subst vcs_top.simps, subst ancestors.simps) simp
qed



end
