(* ===== verification/Includes.thy ===== *)
theory Includes
  imports Paths Cleansing Handlers
begin

text \<open>
  The order of \<open>#include\<close> lines: the class \<open>_IncludeState\<close>, the classification of headers and
  \<open>CheckIncludeLine\<close>.
\<close>

section \<open>\<open>_IncludeState\<close>\<close>

text \<open>The sections of a file, ordered as the constants of the class are.\<close>

datatype include_section = INITIAL_SECTION | MY_H_SECTION | C_SECTION | CPP_SECTION | OTHER_H_SECTION

fun section_rank :: "include_section \<Rightarrow> nat" where
  "section_rank INITIAL_SECTION = 0"
| "section_rank MY_H_SECTION = 1"
| "section_rank C_SECTION = 2"
| "section_rank CPP_SECTION = 3"
| "section_rank OTHER_H_SECTION = 4"

lemma section_rank_inject: "section_rank x = section_rank y \<Longrightarrow> x = y"
  by (cases x; cases y) simp_all

instantiation include_section :: linorder
begin

definition less_eq_include_section :: "include_section \<Rightarrow> include_section \<Rightarrow> bool" where
  "less_eq_include_section x y = (section_rank x \<le> section_rank y)"

definition less_include_section :: "include_section \<Rightarrow> include_section \<Rightarrow> bool" where
  "less_include_section x y = (section_rank x < section_rank y)"

instance
  by standard (auto simp: less_eq_include_section_def less_include_section_def dest: section_rank_inject)

end

fun TYPE_NAMES :: "header_type \<Rightarrow> string" where
  "TYPE_NAMES C_SYS_HEADER = ''C system header''"
| "TYPE_NAMES CPP_SYS_HEADER = ''C++ system header''"
| "TYPE_NAMES LIKELY_MY_HEADER = ''header this file implements''"
| "TYPE_NAMES POSSIBLE_MY_HEADER = ''header this file may implement''"
| "TYPE_NAMES OTHER_HEADER = ''other header''"

fun SECTION_NAMES :: "include_section \<Rightarrow> string" where
  \<open>SECTION_NAMES INITIAL_SECTION = ''... nothing. (This can'' @ [CHR 0x27] @ ''t be an error.)''\<close>
| "SECTION_NAMES MY_H_SECTION = ''a header this file implements''"
| "SECTION_NAMES C_SECTION = ''C system header''"
| "SECTION_NAMES CPP_SECTION = ''C++ system header''"
| "SECTION_NAMES OTHER_H_SECTION = ''other header''"

record include_state =
  include_list :: "(string \<times> int) list list"
  inc_section :: include_section
  last_header :: string

definition update_last :: "('a \<Rightarrow> 'a) \<Rightarrow> 'a list \<Rightarrow> 'a list py" where
  "update_last f xs = (if xs = [] then Inl IndexError else Inr (butlast xs @ [f (last xs)]))"

definition ResetSection :: "string \<Rightarrow> include_state \<Rightarrow> include_state py" where
  "ResetSection directive st =
     (let st' = st\<lparr>inc_section := INITIAL_SECTION, last_header := []\<rparr>
      in if directive \<in> {''if'', ''ifdef'', ''ifndef''}
         then Inr (st'\<lparr>include_list := include_list st @ [[]]\<rparr>)
         else if directive \<in> {''else'', ''elif''}
         then py_bind (update_last (\<lambda>_. []) (include_list st)) (\<lambda>ls. Inr (st'\<lparr>include_list := ls\<rparr>))
         else Inr st')"

definition IncludeState_init :: "include_state py" where
  "IncludeState_init =
     ResetSection [] \<lparr>include_list = [[]], inc_section = INITIAL_SECTION, last_header = []\<rparr>"

definition FindHeader :: "string \<Rightarrow> include_state \<Rightarrow> int" where
  "FindHeader header st =
     (case find (\<lambda>f. fst f = header) (concat (include_list st)) of Some f \<Rightarrow> snd f | None \<Rightarrow> -1)"

definition SetLastHeader :: "string \<Rightarrow> include_state \<Rightarrow> include_state" where
  "SetLastHeader header_path st = st\<lparr>last_header := header_path\<rparr>"

definition add_include :: "string \<Rightarrow> int \<Rightarrow> include_state \<Rightarrow> include_state py" where
  "add_include include linenum st =
     py_bind (update_last (\<lambda>ls. ls @ [(include, linenum)]) (include_list st))
       (\<lambda>ls. Inr (st\<lparr>include_list := ls\<rparr>))"

definition CanonicalizeAlphabeticalOrder :: "string \<Rightarrow> string" where
  "CanonicalizeAlphabeticalOrder header_path =
     py_lower (py_replace (py_replace header_path ''-inl.h'' ''.h'') ''-'' ''_'')"

definition INCLUDE_DIRECTIVE :: string where
  \<open>INCLUDE_DIRECTIVE = rx ''^`s*#`s*include`b''\<close>

definition IsInAlphabeticalOrder :: "cleansed_lines \<Rightarrow> int \<Rightarrow> string \<Rightarrow> include_state \<Rightarrow> bool py" where
  "IsInAlphabeticalOrder clean_lines linenum header_path st =
     (if last_header st > header_path then
        py_bind (py_nth (cl_elided clean_lines) (linenum - 1)) (\<lambda>previous.
          Inr (\<not> Matches INCLUDE_DIRECTIVE previous))
      else Inr True)"

text \<open>\<open>CheckNextIncludeOrder\<close>: the error message, empty when the order is right, and the new state.\<close>

definition CheckNextIncludeOrder :: "header_type \<Rightarrow> include_state \<Rightarrow> string \<times> include_state" where
  "CheckNextIncludeOrder header_type st =
     (let error_message = ''Found '' @ TYPE_NAMES header_type @ '' after '' @ SECTION_NAMES (inc_section st);
          enter = (\<lambda>sec. ([], (if inc_section st \<noteq> sec then st\<lparr>inc_section := sec, last_header := []\<rparr> else st)))
      in case header_type of
           C_SYS_HEADER \<Rightarrow>
             (if inc_section st \<le> C_SECTION then enter C_SECTION
              else (error_message, st\<lparr>last_header := []\<rparr>))
         | CPP_SYS_HEADER \<Rightarrow>
             (if inc_section st \<le> CPP_SECTION then enter CPP_SECTION
              else (error_message, st\<lparr>last_header := []\<rparr>))
         | LIKELY_MY_HEADER \<Rightarrow>
             enter (if inc_section st \<le> MY_H_SECTION then MY_H_SECTION else OTHER_H_SECTION)
         | POSSIBLE_MY_HEADER \<Rightarrow>
             enter (if inc_section st \<le> MY_H_SECTION then MY_H_SECTION else OTHER_H_SECTION)
         | OTHER_HEADER \<Rightarrow> enter OTHER_H_SECTION)"

section \<open>What kind of header an include is\<close>

definition RE_FIRST_COMPONENT :: string where
  \<open>RE_FIRST_COMPONENT = rx ''^[^-_.]+''\<close>

definition test_suffixes :: "string list" where
  "test_suffixes = [''_test'', ''_regtest'', ''_unittest'']"

definition TEST_FILE_SUFFIX :: string where
  "TEST_FILE_SUFFIX = ''('' @ py_join ''|'' test_suffixes @ '')$''"

definition THIRD_PARTY_HEADERS_PATTERN :: string where
  \<open>THIRD_PARTY_HEADERS_PATTERN = rx ''^(?:[^/]*[A-Z][^/]*`.h|lua`.h|lauxlib`.h|lualib`.h)$''\<close>

definition common_suffixes :: "world \<Rightarrow> string list" where
  "common_suffixes g =
     [py_lstrip_chars ts ''_'' @ ''.'' @ ext. ts \<leftarrow> test_suffixes, ext \<leftarrow> GetNonHeaderExtensions g] @
     [suffix @ ''.'' @ ext. suffix \<leftarrow> [''inl'', ''imp'', ''internal''], ext \<leftarrow> GetHeaderExtensions g]"

definition DropCommonSuffixes :: "world \<Rightarrow> string \<Rightarrow> string" where
  "DropCommonSuffixes g filename =
     (case find (\<lambda>suffix. endswith filename suffix \<and> length filename > length suffix \<and>
                   filename ! (length filename - length suffix - 1) \<in> {CHR ''-'', CHR ''_''})
             (common_suffixes g) of
        Some suffix \<Rightarrow> take (length filename - length suffix - 1) filename
      | None \<Rightarrow> fst (splitext filename))"

definition ClassifyInclude :: "os_env \<Rightarrow> world \<Rightarrow> string \<Rightarrow> string \<Rightarrow> bool \<Rightarrow> header_type py" where
  "ClassifyInclude env g filename include is_system =
     (let is_cpp_h = (include \<in> set CPP_HEADERS);
          is_system' = (is_system \<and> snd (splitext include) \<notin> {''.hpp'', ''.hxx'', ''.h++''})
      in if is_system' then Inr (if is_cpp_h then CPP_SYS_HEADER else C_SYS_HEADER)
         else
           py_bind (RepositoryName env g filename) (\<lambda>repository_name.
             let (target_dir, target_base) = path_split (DropCommonSuffixes g repository_name);
                 (include_dir, include_base) = path_split (DropCommonSuffixes g include);
                 target_dir_pub = py_replace (normpath (target_dir @ ''/../public'')) [backslash_char] ''/''
             in if target_base = include_base \<and> (include_dir = target_dir \<or> include_dir = target_dir_pub)
                then Inr LIKELY_MY_HEADER
                else
                  (case (Match RE_FIRST_COMPONENT target_base, Match RE_FIRST_COMPONENT include_base) of
                     (Some m, Some m') \<Rightarrow>
                       if m_text m = m_text m' then Inr POSSIBLE_MY_HEADER else Inr OTHER_HEADER
                   | _ \<Rightarrow> Inr OTHER_HEADER)))"

section \<open>\<open>CheckIncludeLine\<close>\<close>

definition INCLUDE_SUBDIR :: string where
  \<open>INCLUDE_SUBDIR = rx ''#include`s*"([^/]+`.h)"''\<close>

text \<open>The first extension for which the include is a source file of another package.\<close>

fun other_package :: "os_env \<Rightarrow> world \<Rightarrow> string \<Rightarrow> string \<Rightarrow> string list \<Rightarrow> string option py" where
  "other_package env g filename include [] = Inr None"
| "other_package env g filename include (extension # exts) =
     (if endswith include (''.'' @ extension) then
        py_bind (RepositoryName env g filename) (\<lambda>name.
          if dirname name \<noteq> dirname include then Inr (Some extension)
          else other_package env g filename include exts)
      else other_package env g filename include exts)"

text \<open>Whether the include is the header of the file, for one of the header extensions.\<close>

fun third_src_header :: "os_env \<Rightarrow> world \<Rightarrow> string \<Rightarrow> string \<Rightarrow> string list \<Rightarrow> bool py" where
  "third_src_header env g filename include [] = Inr False"
| "third_src_header env g filename include (ext # exts) =
     py_bind (Extension env g filename) (\<lambda>extension.
       let basefilename = py_slice filename 0 (int (length filename) - int (length extension));
           headerfile = basefilename @ ''.'' @ ext
       in py_bind (RepositoryName env g headerfile) (\<lambda>headername.
            if py_in headername include \<or> py_in include headername then Inr True
            else third_src_header env g filename include exts))"

definition check_include_order :: "os_env \<Rightarrow> world \<Rightarrow> 's error_fn \<Rightarrow> string \<Rightarrow> cleansed_lines \<Rightarrow> int
    \<Rightarrow> string \<Rightarrow> bool \<Rightarrow> include_state \<Rightarrow> 's \<Rightarrow> (include_state \<times> 's) py" where
  \<open>check_include_order env g error filename clean_lines linenum include is_system st s =
     py_bind (add_include include linenum st) (\<lambda>st1.
     py_bind (ClassifyInclude env g filename include is_system) (\<lambda>kind.
     let (error_message, st2) = CheckNextIncludeOrder kind st1
     in py_bind
          (if error_message \<noteq> [] then
             py_bind (BaseName env g filename) (\<lambda>base.
               error filename (Some linenum) ''build/include_order'' 4
                 (error_message @ ''. Should be: '' @ base @ ''.h, c system, c++ system, other.'') s)
           else Inr s) (\<lambda>s1.
        let canonical_include = CanonicalizeAlphabeticalOrder include
        in py_bind (IsInAlphabeticalOrder clean_lines linenum canonical_include st2) (\<lambda>in_order.
           py_bind
             (if in_order then Inr s1
              else error filename (Some linenum) ''build/include_alpha'' 4
                     (''Include "'' @ include @ ''" not in alphabetical order'') s1) (\<lambda>s2.
           Inr (SetLastHeader canonical_include st2, s2))))))\<close>

definition CheckIncludeLine :: "os_env \<Rightarrow> world \<Rightarrow> 's error_fn \<Rightarrow> string \<Rightarrow> cleansed_lines \<Rightarrow> int
    \<Rightarrow> include_state \<Rightarrow> 's \<Rightarrow> (include_state \<times> 's) py" where
  \<open>CheckIncludeLine env g error filename clean_lines linenum st s =
     py_bind (py_nth (cl_lines clean_lines) linenum) (\<lambda>line.
     py_bind
       (case Match INCLUDE_SUBDIR line of
          Some m \<Rightarrow>
            py_when (\<not> Matches THIRD_PARTY_HEADERS_PATTERN (grp m 1))
              (error filename (Some linenum) ''build/include_subdir'' 4
                 ''Include the directory when naming .h files'') s
        | None \<Rightarrow> Inr s) (\<lambda>s1.
     case Search RE_PATTERN_INCLUDE line of
       None \<Rightarrow> Inr (st, s1)
     | Some m \<Rightarrow>
         (let include = grp m 2; is_system = (grp m 1 = ''<''); duplicate_line = FindHeader include st
          in if duplicate_line \<ge> 0 then
               py_bind (error filename (Some linenum) ''build/include'' 4
                          (''"'' @ include @ ''" already included at '' @ filename @ '':'' @
                           show_int duplicate_line) s1) (\<lambda>s2. Inr (st, s2))
             else
               py_bind (other_package env g filename include (GetNonHeaderExtensions g)) (\<lambda>other.
                 case other of
                   Some extension \<Rightarrow>
                     py_bind (error filename (Some linenum) ''build/include'' 4
                                (''Do not include .'' @ extension @ '' files from other packages'') s1)
                       (\<lambda>s2. Inr (st, s2))
                 | None \<Rightarrow>
                     py_bind (third_src_header env g filename include (GetHeaderExtensions g)) (\<lambda>third.
                       if third \<or> \<not> Matches THIRD_PARTY_HEADERS_PATTERN include
                       then check_include_order env g error filename clean_lines linenum include is_system st s1
                       else Inr (st, s1))))))\<close>

section \<open>The order of the sections\<close>

text \<open>The messages for the headers of a file, in order.\<close>

fun order_messages :: "include_state \<Rightarrow> header_type list \<Rightarrow> string list" where
  "order_messages st [] = []"
| "order_messages st (h # hs) =
     (let (message, st') = CheckNextIncludeOrder h st in message # order_messages st' hs)"

fun header_allowed :: "include_section \<Rightarrow> header_type \<Rightarrow> bool" where
  "header_allowed sec C_SYS_HEADER = (sec \<le> C_SECTION)"
| "header_allowed sec CPP_SYS_HEADER = (sec \<le> CPP_SECTION)"
| "header_allowed sec h = True"

fun next_section :: "include_section \<Rightarrow> header_type \<Rightarrow> include_section" where
  "next_section sec C_SYS_HEADER = C_SECTION"
| "next_section sec CPP_SYS_HEADER = CPP_SECTION"
| "next_section sec OTHER_HEADER = OTHER_H_SECTION"
| "next_section sec h = (if sec \<le> MY_H_SECTION then MY_H_SECTION else OTHER_H_SECTION)"

lemma CheckNextIncludeOrder_cases:
  "fst (CheckNextIncludeOrder h st) = [] \<longleftrightarrow> header_allowed (inc_section st) h"
  "header_allowed (inc_section st) h \<Longrightarrow>
   inc_section (snd (CheckNextIncludeOrder h st)) = next_section (inc_section st) h"
  by (cases h; simp add: CheckNextIncludeOrder_def Let_def)+

definition silent :: "include_state \<Rightarrow> header_type list \<Rightarrow> bool" where
  "silent st hs \<longleftrightarrow> (\<forall>m \<in> set (order_messages st hs). m = [])"

fun order_ok :: "include_section \<Rightarrow> header_type list \<Rightarrow> bool" where
  "order_ok sec [] = True"
| "order_ok sec (h # hs) = (header_allowed sec h \<and> order_ok (next_section sec h) hs)"

lemma silent_order_ok: "silent st hs \<longleftrightarrow> order_ok (inc_section st) hs"
proof (induction hs arbitrary: st)
  case Nil
  then show ?case by (simp add: silent_def)
next
  case (Cons h hs)
  let ?r = "CheckNextIncludeOrder h st"
  have "silent st (h # hs) \<longleftrightarrow> fst ?r = [] \<and> silent (snd ?r) hs"
    by (simp add: silent_def case_prod_beta)
  with Cons.IH[of "snd ?r"] CheckNextIncludeOrder_cases(1)[of h st] CheckNextIncludeOrder_cases(2)[of st h] show ?case by auto
qed

text \<open>What may follow in each section.\<close>

definition no_system :: "header_type list \<Rightarrow> bool" where
  "no_system hs \<longleftrightarrow> C_SYS_HEADER \<notin> set hs \<and> CPP_SYS_HEADER \<notin> set hs"

lemma order_ok_other: "order_ok OTHER_H_SECTION hs \<longleftrightarrow> no_system hs"
proof (induction hs)
  case (Cons h hs)
  then show ?case by (cases h) (auto simp: no_system_def less_eq_include_section_def)
qed (simp add: no_system_def)

lemma order_ok_cpp:
  "order_ok CPP_SECTION hs \<longleftrightarrow> no_system (dropWhile (\<lambda>h. h = CPP_SYS_HEADER) hs)"
proof (induction hs)
  case (Cons h hs)
  then show ?case
    using order_ok_other[of hs] by (cases h) (auto simp: no_system_def less_eq_include_section_def)
qed (simp add: no_system_def)

lemma order_ok_c:
  "order_ok C_SECTION hs \<longleftrightarrow>
   no_system (dropWhile (\<lambda>h. h = CPP_SYS_HEADER) (dropWhile (\<lambda>h. h = C_SYS_HEADER) hs))"
proof (induction hs)
  case (Cons h hs)
  then show ?case
    using order_ok_other[of hs] order_ok_cpp[of hs]
    by (cases h) (auto simp: no_system_def less_eq_include_section_def)
qed (simp add: no_system_def)

abbreviation own_header :: "header_type \<Rightarrow> bool" where
  "own_header h \<equiv> h = LIKELY_MY_HEADER \<or> h = POSSIBLE_MY_HEADER"

lemma order_ok_start:
  "sec \<le> MY_H_SECTION \<Longrightarrow> order_ok sec hs \<longleftrightarrow>
   no_system (dropWhile (\<lambda>h. h = CPP_SYS_HEADER) (dropWhile (\<lambda>h. h = C_SYS_HEADER) (dropWhile own_header hs)))"
proof (induction hs arbitrary: sec)
  case (Cons h hs)
  then have "sec = INITIAL_SECTION \<or> sec = MY_H_SECTION"
    by (cases sec) (simp_all add: less_eq_include_section_def)
  then have le: "sec \<le> MY_H_SECTION" "sec \<le> C_SECTION" "sec \<le> CPP_SECTION"
    by (auto simp: less_eq_include_section_def)
  have ih: "order_ok MY_H_SECTION hs \<longleftrightarrow>
      no_system (dropWhile (\<lambda>h. h = CPP_SYS_HEADER) (dropWhile (\<lambda>h. h = C_SYS_HEADER) (dropWhile own_header hs)))"
    by (rule Cons.IH) simp
  have other: "no_system (OTHER_HEADER # hs) = no_system hs" by (simp add: no_system_def)
  show ?case
    by (cases h) (simp_all add: le ih other order_ok_other order_ok_cpp order_ok_c)
qed (simp add: no_system_def)

section \<open>No header twice\<close>

text \<open>The included headers of the current view of the file, without repetition.\<close>

definition includes_ok :: "include_state \<Rightarrow> bool" where
  "includes_ok st \<longleftrightarrow> include_list st \<noteq> [] \<and> distinct (map fst (concat (include_list st)))"

lemma FindHeader_absent:
  "\<forall>f \<in> set (concat (include_list st)). 0 \<le> snd f \<Longrightarrow>
   FindHeader h st < 0 \<longleftrightarrow> h \<notin> fst ` set (concat (include_list st))"
proof -
  assume nn: "\<forall>f \<in> set (concat (include_list st)). 0 \<le> snd f"
  show ?thesis
  proof (cases "find (\<lambda>f. fst f = h) (concat (include_list st))")
    case None
    then have "FindHeader h st = -1" by (simp add: FindHeader_def)
    moreover have "h \<notin> fst ` set (concat (include_list st))" using None unfolding find_None_iff by blast
    ultimately show ?thesis by simp
  next
    case (Some f)
    then have f: "f \<in> set (concat (include_list st))" "fst f = h" unfolding find_Some_iff by (metis nth_mem)+
    have "FindHeader h st = snd f" by (simp only: FindHeader_def Some option.case)
    with f nn show ?thesis by (metis imageI leD)
  qed
qed

definition lines_ok :: "include_state \<Rightarrow> bool" where
  "lines_ok st \<longleftrightarrow> (\<forall>f \<in> set (concat (include_list st)). 0 \<le> snd f)"

lemma concat_update_last:
  "xs \<noteq> [] \<Longrightarrow> concat (butlast xs @ [f (last xs)]) = concat (butlast xs) @ f (last xs)"
  by simp

lemma concat_butlast_last: "xs \<noteq> [] \<Longrightarrow> concat xs = concat (butlast xs) @ last xs"
  by (metis append_butlast_last_id concat.simps(1,2) concat_append append_Nil2)

lemma add_include_ok:
  assumes "includes_ok st" and "lines_ok st" and "0 \<le> linenum" and "FindHeader include st < 0"
  shows "returns (\<lambda>st'. includes_ok st' \<and> lines_ok st' \<and> inc_section st' = inc_section st \<and>
      last_header st' = last_header st \<and>
      concat (include_list st') = concat (include_list st) @ [(include, linenum)])
    (add_include include linenum st)"
proof -
  have ne: "include_list st \<noteq> []" using assms(1) by (simp add: includes_ok_def)
  then have c: "concat (butlast (include_list st) @ [last (include_list st) @ [(include, linenum)]]) =
      concat (include_list st) @ [(include, linenum)]"
    by (simp add: concat_butlast_last)
  have "include \<notin> fst ` set (concat (include_list st))"
    using FindHeader_absent[of st "include"] assms(2,4) by (simp add: lines_ok_def)
  then have "distinct (map fst (concat (include_list st) @ [(include, linenum)]))"
    using assms(1) by (simp add: includes_ok_def)
  moreover have "\<forall>f \<in> set (concat (include_list st) @ [(include, linenum)]). 0 \<le> snd f"
    using assms(2,3) by (simp add: lines_ok_def)
  ultimately show ?thesis
    using ne unfolding add_include_def update_last_def
    by (auto simp: includes_ok_def lines_ok_def c dest: in_set_butlastD simp del: concat_append)
qed

lemma order_frame [simp]:
  "include_list (snd (CheckNextIncludeOrder h st)) = include_list st"
  by (cases h) (simp_all add: CheckNextIncludeOrder_def Let_def)

lemma SetLastHeader_frame [simp]:
  "include_list (SetLastHeader h st) = include_list st"
  "inc_section (SetLastHeader h st) = inc_section st"
  by (simp_all add: SetLastHeader_def)

lemma ResetSection_ok:
  assumes "includes_ok st" and "lines_ok st"
  shows "returns (\<lambda>st'. includes_ok st' \<and> lines_ok st' \<and> inc_section st' = INITIAL_SECTION) (ResetSection d st)"
proof -
  have ne: "include_list st \<noteq> []" using assms(1) by (simp add: includes_ok_def)
  have "distinct (map fst (concat (butlast (include_list st))))" "set (concat (butlast (include_list st))) \<subseteq> set (concat (include_list st))"
    using assms(1) concat_butlast_last[OF ne] by (auto simp: includes_ok_def)
  then show ?thesis
    using assms ne by (auto simp: ResetSection_def includes_ok_def lines_ok_def update_last_def Let_def)
qed

section \<open>\<open>CheckIncludeLine\<close> keeps the include state in order\<close>

definition state_ok :: "include_state \<Rightarrow> bool" where
  "state_ok st \<longleftrightarrow> includes_ok st \<and> lines_ok st"

definition names_return :: "os_env \<Rightarrow> world \<Rightarrow> bool" where
  "names_return env g \<longleftrightarrow> (\<forall>filename. \<exists>name. RepositoryName env g filename = Inr name)"

lemma names_return_name: "names_return env g \<Longrightarrow> returns (\<lambda>_. True) (RepositoryName env g filename)"
  by (auto simp: names_return_def returns_def)

lemma names_return_split:
  assumes "names_return env g"
  shows "returns (\<lambda>_. True) (BaseName env g filename)" and "returns (\<lambda>_. True) (Extension env g filename)"
proof -
  obtain name where "RepositoryName env g filename = Inr name" using assms by (auto simp: names_return_def)
  then show "returns (\<lambda>_. True) (BaseName env g filename)" "returns (\<lambda>_. True) (Extension env g filename)"
    by (simp_all add: BaseName_def Extension_def FileInfo_Split_def case_prod_beta Let_def)
qed

lemma other_package_returns:
  "names_return env g \<Longrightarrow> returns (\<lambda>_. True) (other_package env g filename inc exts)"
  by (induction exts) (auto intro!: returns_bind[OF names_return_name])

lemma third_src_header_returns:
  "names_return env g \<Longrightarrow> returns (\<lambda>_. True) (third_src_header env g filename inc exts)"
proof (induction exts)
  case (Cons ext exts)
  then show ?case
    by (auto simp: Let_def intro!: returns_bind[OF names_return_split(2)] returns_bind[OF names_return_name])
qed simp

lemma ClassifyInclude_returns:
  "names_return env g \<Longrightarrow> returns (\<lambda>_. True) (ClassifyInclude env g filename inc is_system)"
  by (auto simp: ClassifyInclude_def Let_def case_prod_beta intro!: returns_bind[OF names_return_name]
      split: option.split)

lemma state_ok_frame:
  "state_ok (SetLastHeader h st) = state_ok st"
  "state_ok (snd (CheckNextIncludeOrder k st)) = state_ok st"
  by (simp_all add: state_ok_def includes_ok_def lines_ok_def)

lemma IsInAlphabeticalOrder_returns:
  "0 \<le> linenum \<Longrightarrow> linenum < int (length (cl_elided c)) \<Longrightarrow>
   returns (\<lambda>_. True) (IsInAlphabeticalOrder c linenum h st)"
  by (auto simp: IsInAlphabeticalOrder_def py_nth_def Let_def)

context error_handler
begin

lemma check_include_order_returns:
  assumes "names_return env g" and "state_ok st" and "inv s" and "FindHeader inc st < 0"
    and "0 \<le> linenum" and "linenum < int (length (cl_elided c))"
  shows "returns (\<lambda>(st', s'). state_ok st' \<and> inv s')
    (check_include_order env g error filename c linenum inc is_system st s)"
proof -
  have add: "returns state_ok (add_include inc linenum st)"
    using add_include_ok[of st linenum inc] assms(2,4,5) by (auto simp: state_ok_def elim: returns_weaken)
  show ?thesis
    unfolding check_include_order_def Let_def case_prod_beta
    using assms(1,3,5,6)
    by (auto simp: state_ok_frame
        intro!: returns_bind[OF add] returns_bind[OF ClassifyInclude_returns]
          returns_bind[where P = inv] returns_bind[OF names_return_split(1)] error_returns
          returns_bind[OF IsInAlphabeticalOrder_returns])
qed

lemma CheckIncludeLine_returns:
  assumes "names_return env g" and "state_ok st" and "inv s"
    and "0 \<le> linenum" and "linenum < int (length (cl_elided c))" and "length (cl_lines c) = length (cl_elided c)"
  shows "returns (\<lambda>(st', s'). state_ok st' \<and> inv s') (CheckIncludeLine env g error filename c linenum st s)"
proof -
  obtain line where line: "py_nth (cl_lines c) linenum = Inr line"
    using py_nth_in_range[of linenum "cl_lines c"] assms(4-6) by auto
  show ?thesis
    unfolding CheckIncludeLine_def line py_bind.simps
  proof (rule returns_bind[where P = inv])
    show "returns inv (case Match INCLUDE_SUBDIR line of None \<Rightarrow> Inr s
         | Some m \<Rightarrow> py_when (\<not> Matches THIRD_PARTY_HEADERS_PATTERN (grp m 1))
              (error filename (Some linenum) ''build/include_subdir'' 4
                 ''Include the directory when naming .h files'') s)"
      using assms(3) by (intro returns_intros error_when) auto
    fix s1 assume s1: "inv s1"
    show "returns (\<lambda>(st', s'). state_ok st' \<and> inv s') (case Search RE_PATTERN_INCLUDE line of None \<Rightarrow> Inr (st, s1)
      | Some m \<Rightarrow> (let inc = grp m 2; is_system = (grp m 1 = ''<''); duplicate_line = FindHeader inc st
          in if duplicate_line \<ge> 0 then
               py_bind (error filename (Some linenum) ''build/include'' 4
                          (''\"'' @ inc @ ''\" already included at '' @ filename @ '':'' @
                           show_int duplicate_line) s1) (\<lambda>s2. Inr (st, s2))
             else
               py_bind (other_package env g filename inc (GetNonHeaderExtensions g)) (\<lambda>other.
                 case other of
                   Some extension \<Rightarrow>
                     py_bind (error filename (Some linenum) ''build/include'' 4
                                (''Do not include .'' @ extension @ '' files from other packages'') s1)
                       (\<lambda>s2. Inr (st, s2))
                 | None \<Rightarrow>
                     py_bind (third_src_header env g filename inc (GetHeaderExtensions g)) (\<lambda>third.
                       if third \<or> \<not> Matches THIRD_PARTY_HEADERS_PATTERN inc
                       then check_include_order env g error filename c linenum inc is_system st s1
                       else Inr (st, s1)))))"
      unfolding Let_def
      using assms s1
      by (auto intro!: returns_option returns_if error_bind returns_bind[OF other_package_returns]
          returns_bind[OF third_src_header_returns] check_include_order_returns)
  qed
qed

end

section \<open>Properties\<close>

text \<open>C5: \<open>CheckNextIncludeOrder\<close> accepts the headers of a file, from the start of a section,
  exactly when they come in the documented order: first headers that the file implements, then
  C system headers, then C++ system headers, and after those no system header at all.\<close>

theorem include_order_language:
  assumes "inc_section st = INITIAL_SECTION"
  shows "(\<forall>m \<in> set (order_messages st hs). m = []) \<longleftrightarrow>
    {C_SYS_HEADER, CPP_SYS_HEADER} \<inter>
      set (dropWhile (\<lambda>h. h = CPP_SYS_HEADER) (dropWhile (\<lambda>h. h = C_SYS_HEADER)
        (dropWhile (\<lambda>h. h = LIKELY_MY_HEADER \<or> h = POSSIBLE_MY_HEADER) hs))) = {}"
  using silent_order_ok[of st hs] order_ok_start[of INITIAL_SECTION hs] assms
  by (simp add: silent_def no_system_def less_eq_include_section_def)

lemma include_order_language_witness:
  "order_messages \<lparr>include_list = [[]], inc_section = INITIAL_SECTION, last_header = []\<rparr>
     [LIKELY_MY_HEADER, C_SYS_HEADER, CPP_SYS_HEADER, OTHER_HEADER, C_SYS_HEADER] =
   [[], [], [], [], ''Found C system header after other header''] \<and>
   \<not> (\<forall>m \<in> set (order_messages \<lparr>include_list = [[]], inc_section = INITIAL_SECTION, last_header = []\<rparr>
     [LIKELY_MY_HEADER, C_SYS_HEADER, CPP_SYS_HEADER, OTHER_HEADER, C_SYS_HEADER]). m = [])"
proof
  show "order_messages \<lparr>include_list = [[]], inc_section = INITIAL_SECTION, last_header = []\<rparr>
     [LIKELY_MY_HEADER, C_SYS_HEADER, CPP_SYS_HEADER, OTHER_HEADER, C_SYS_HEADER] =
   [[], [], [], [], ''Found C system header after other header'']" by code_simp
  show "\<not> (\<forall>m \<in> set (order_messages \<lparr>include_list = [[]], inc_section = INITIAL_SECTION, last_header = []\<rparr>
     [LIKELY_MY_HEADER, C_SYS_HEADER, CPP_SYS_HEADER, OTHER_HEADER, C_SYS_HEADER]). m = [])"
    by (subst include_order_language) simp_all
qed



text \<open>C34: \<open>CheckIncludeLine\<close> always returns, and the include state it leaves never lists a header
  twice; the filters stay legal, so that the next error can be reported.\<close>

theorem CheckIncludeLine_keeps_state:
  assumes "\<And>f. \<exists>name. RepositoryName env g f = Inr name"
    and "includes_ok st" and "lines_ok st" and "filters_ok (cpplint_state w)" and "views_ok c"
    and "0 \<le> linenum" and "linenum < NumLines c"
  shows "\<exists>st' w'. CheckIncludeLine env g Error filename c linenum st w = Inr (st', w') \<and>
    include_list st' \<noteq> [] \<and> distinct (map fst (concat (include_list st'))) \<and> filters_ok (cpplint_state w')"
proof -
  have "returns (\<lambda>(st', w'). state_ok st' \<and> filters_ok (cpplint_state w'))
      (CheckIncludeLine env g Error filename c linenum st w)"
    using assms
    by (intro printing.CheckIncludeLine_returns)
       (auto simp: names_return_def state_ok_def views_ok_def NumLines_def)
  then show ?thesis by (auto simp: returns_def state_ok_def includes_ok_def)
qed

lemma CheckIncludeLine_keeps_state_witness:
  "\<exists>st' w'. CheckIncludeLine \<lparr>os_exists = (\<lambda>_. False), os_cwd = ''/''\<rparr> initial_world Error ''a.cc''
     \<lparr>cl_elided = [''#include <map>''], cl_lines = [''#include <map>''], cl_raw_lines = [''#include <map>''],
      cl_num_lines = 1, cl_lines_without_raw_strings = [''#include <map>'']\<rparr> 0
     \<lparr>include_list = [[]], inc_section = INITIAL_SECTION, last_header = []\<rparr> initial_world = Inr (st', w') \<and>
    include_list st' \<noteq> [] \<and> distinct (map fst (concat (include_list st'))) \<and> filters_ok (cpplint_state w')"
  by (rule CheckIncludeLine_keeps_state)
     (simp_all add: RepositoryName_def Let_def includes_ok_def lines_ok_def views_ok_def NumLines_def filters_ok_def
        initial_world_def CppLintState_init_def DEFAULT_FILTERS_def signed_filter_def)

end
