(* ===== verification/Function_Length.thy ===== *)
theory Function_Length
  imports Cleansing Handlers
begin

text \<open>
  The length of function bodies: the class \<open>_FunctionState\<close> and \<open>CheckForFunctionLengths\<close>.
\<close>

record function_state =
  in_a_function :: bool
  lines_in_function :: int
  current_function :: string

definition FunctionState_init :: function_state where
  "FunctionState_init = \<lparr>in_a_function = False, lines_in_function = 0, current_function = []\<rparr>"

definition NORMAL_TRIGGER :: int where
  "NORMAL_TRIGGER = 250"

definition TEST_TRIGGER :: int where
  "TEST_TRIGGER = 400"

definition FunctionState_Begin :: "string \<Rightarrow> function_state \<Rightarrow> function_state" where
  "FunctionState_Begin function_name fs =
     fs\<lparr>in_a_function := True, lines_in_function := 0, current_function := function_name\<rparr>"

definition FunctionState_Count :: "function_state \<Rightarrow> function_state" where
  "FunctionState_Count fs =
     (if in_a_function fs then fs\<lparr>lines_in_function := lines_in_function fs + 1\<rparr> else fs)"

definition FunctionState_End :: "function_state \<Rightarrow> function_state" where
  "FunctionState_End fs = fs\<lparr>in_a_function := False\<rparr>"

text \<open>
  \<open>int(math.log(lines / base, 2))\<close> for positive integers: the logarithm of the quotient,
  rounded towards zero.  The two cases are a quotient of at least one and one below one.
\<close>

fun floor_log2 :: "nat \<Rightarrow> nat" where
  "floor_log2 n = (if n < 2 then 0 else Suc (floor_log2 (n div 2)))"

declare floor_log2.simps [simp del]

definition int_log2_ratio :: "int \<Rightarrow> int \<Rightarrow> int" where
  "int_log2_ratio a b =
     (if b \<le> a then int (floor_log2 (nat (a div b))) else - int (floor_log2 (nat (b div a))))"

definition T_EST :: string where
  \<open>T_EST = rx ''T(EST|est)''\<close>

text \<open>
  \<open>lines > base * 2 ** verbose\<close>: for a negative level the trigger is the fraction
  \<open>base / 2 ** -verbose\<close>, which \<open>%d\<close> prints without its fractional part.
\<close>

definition exceeds_trigger :: "int \<Rightarrow> int \<Rightarrow> int \<Rightarrow> bool" where
  "exceeds_trigger n base verbose =
     (if 0 \<le> verbose then n > base * 2 ^ nat verbose else n * 2 ^ nat (- verbose) > base)"

definition shown_trigger :: "int \<Rightarrow> int \<Rightarrow> int" where
  "shown_trigger base verbose =
     (if 0 \<le> verbose then base * 2 ^ nat verbose else base div 2 ^ nat (- verbose))"

definition FunctionState_Check ::
  "int \<Rightarrow> 's error_fn \<Rightarrow> string \<Rightarrow> int \<Rightarrow> function_state \<Rightarrow> 's \<Rightarrow> 's py" where
  "FunctionState_Check verbose error filename linenum fs s =
     (if \<not> in_a_function fs then Inr s
      else
        (let base_trigger = (if Matches T_EST (current_function fs) then TEST_TRIGGER else NORMAL_TRIGGER)
         in if exceeds_trigger (lines_in_function fs) base_trigger verbose then
              (let error_level = int_log2_ratio (lines_in_function fs) base_trigger;
                   error_level' = (if error_level > 5 then 5 else error_level)
               in error filename (Some linenum) ''readability/fn_size'' error_level'
                    (''Small and focused functions are preferred: '' @ current_function fs @ '' has ''
                     @ show_int (lines_in_function fs) @ '' non-comment lines (error triggered by exceeding ''
                     @ show_int (shown_trigger base_trigger verbose) @ '' lines).'') s)
            else Inr s))"

section \<open>\<open>CheckForFunctionLengths\<close>\<close>

definition FUNCTION_START :: string where
  \<open>FUNCTION_START = rx ''(`w(`w|::|`*|`&|`s)*)`(''\<close>

definition MACRO_NAME :: string where
  \<open>MACRO_NAME = rx ''[A-Z_]+$''\<close>

definition SEMI_OR_CLOSE :: string where
  \<open>SEMI_OR_CLOSE = rx ''(;|})''\<close>

definition OPEN_BRACE :: string where
  \<open>OPEN_BRACE = rx ''{''\<close>

definition FUNCTION_NAME :: string where
  \<open>FUNCTION_NAME = rx ''((`w|:)*)`(''\<close>

definition PARAMETER_LIST :: string where
  \<open>PARAMETER_LIST = rx ''(`(.*`))''\<close>

definition CLOSE_BRACE_ONLY :: string where
  \<open>CLOSE_BRACE_ONLY = rx ''^`}`s*$''\<close>

definition BLANK :: string where
  \<open>BLANK = rx ''^`s*$''\<close>

text \<open>Does a function start on the line?  \<open>split()[-1]\<close> is of the text in front of the parenthesis.\<close>

definition starting_function :: "string \<Rightarrow> bool py" where
  "starting_function line =
     (case Match FUNCTION_START line of
        None \<Rightarrow> Inr False
      | Some m \<Rightarrow>
          py_bind (py_nth (py_words (grp m 1)) (-1)) (\<lambda>function_name.
            Inr (function_name = ''TEST'' \<or> function_name = ''TEST_F'' \<or> \<not> Matches MACRO_NAME function_name)))"

text \<open>
  The search for the body, from the first line on: \<open>None\<close> when the file ends first, otherwise
  the name to begin with, if the body is not trivial.
\<close>

fun find_body :: "string \<Rightarrow> string list \<Rightarrow> string \<Rightarrow> string option option py" where
  "find_body line [] joined_line = Inr None"
| "find_body line (start_line # rest) joined_line =
     (let joined_line' = joined_line @ '' '' @ py_lstrip start_line
      in if Finds SEMI_OR_CLOSE start_line then Inr (Some None)
         else if Finds OPEN_BRACE start_line then
           (case Search FUNCTION_NAME line of
              None \<Rightarrow> Inl AttributeError
            | Some m \<Rightarrow>
                (let function = grp m 1
                 in Inr (Some (Some
                      (if Matches ''TEST'' function then
                         (case Search PARAMETER_LIST joined_line' of
                            Some m' \<Rightarrow> function @ grp m' 1
                          | None \<Rightarrow> function)
                       else function @ ''()'')))))
         else find_body line rest joined_line')"

definition CheckForFunctionLengths ::
  "int \<Rightarrow> 's error_fn \<Rightarrow> string \<Rightarrow> cleansed_lines \<Rightarrow> int \<Rightarrow> function_state \<Rightarrow> 's \<Rightarrow> (function_state \<times> 's) py" where
  "CheckForFunctionLengths verbose error filename clean_lines linenum fs s =
     py_bind (py_nth (cl_lines clean_lines) linenum) (\<lambda>line.
     py_bind (starting_function line) (\<lambda>starting_func.
       if starting_func then
         py_bind (find_body line (py_from (cl_lines clean_lines) linenum) []) (\<lambda>body.
           case body of
             None \<Rightarrow>
               py_bind (error filename (Some linenum) ''readability/fn_size'' 5
                          ''Lint failed to find start of function body.'' s) (\<lambda>s'. Inr (fs, s'))
           | Some None \<Rightarrow> Inr (fs, s)
           | Some (Some function) \<Rightarrow> Inr (FunctionState_Begin function fs, s))
       else if Matches CLOSE_BRACE_ONLY line then
         py_bind (FunctionState_Check verbose error filename linenum fs s) (\<lambda>s'. Inr (FunctionState_End fs, s'))
       else if \<not> Matches BLANK line then Inr (FunctionState_Count fs, s)
       else Inr (fs, s)))"

section \<open>The level of a report\<close>

lemma floor_log2_ge: "2 ^ k \<le> n \<Longrightarrow> k \<le> floor_log2 n"
proof (induction n arbitrary: k rule: floor_log2.induct)
  case (1 n)
  show ?case
  proof (cases "n < 2")
    case True
    have "k = 0"
    proof (cases k)
      case (Suc j)
      have "1 \<le> (2::nat) ^ j" by simp
      with "1.prems" True Suc show ?thesis by simp
    qed simp
    then show ?thesis by simp
  next
    case False
    show ?thesis
    proof (cases k)
      case (Suc j)
      then have "2 ^ j \<le> n div 2" using "1.prems" by simp
      from "1.IH"[OF False this] Suc False show ?thesis by (subst floor_log2.simps) simp
    qed simp
  qed
qed

lemma floor_log2_le: "n < 2 ^ k \<Longrightarrow> floor_log2 n \<le> k"
proof (induction n arbitrary: k rule: floor_log2.induct)
  case (1 n)
  show ?case
  proof (cases "n < 2")
    case True
    then show ?thesis by (subst floor_log2.simps) simp
  next
    case False
    with "1.prems" obtain j where k: "k = Suc j" by (cases k) auto
    then have "n div 2 < 2 ^ j" using "1.prems" by simp
    from "1.IH"[OF False this] k False show ?thesis by (subst floor_log2.simps) simp
  qed
qed

lemma level_reaches_verbosity:
  assumes "0 < b" and "0 < n" and "exceeds_trigger n b v"
  shows "v \<le> int_log2_ratio n b"
proof (cases "0 \<le> v")
  case True
  then have n: "b * 2 ^ nat v < n" using assms(3) by (simp add: exceeds_trigger_def)
  then have "(b * 2 ^ nat v) div b \<le> n div b" using assms(1) by (intro zdiv_mono1) simp_all
  then have "2 ^ nat v \<le> n div b" using assms(1) by simp
  then have "2 ^ nat v \<le> nat (n div b)" by (simp add: le_nat_iff)
  from floor_log2_ge[OF this] True have "v \<le> int (floor_log2 (nat (n div b)))" by simp
  moreover have "b * 1 \<le> b * 2 ^ nat v" using assms(1) by (intro mult_left_mono) simp_all
  then have "b \<le> n" using n by simp
  ultimately show ?thesis by (simp add: int_log2_ratio_def)
next
  case False
  then have n: "b < n * 2 ^ nat (- v)" using assms(3) by (simp add: exceeds_trigger_def)
  show ?thesis
  proof (cases "b \<le> n")
    case True
    with False show ?thesis by (simp add: int_log2_ratio_def)
  next
    case no: False
    have "n * (b div n) = b - b mod n" by (simp add: minus_mod_eq_mult_div)
    moreover have "0 \<le> b mod n" using assms(2) by simp
    ultimately have "n * (b div n) \<le> b" by simp
    with n have "n * (b div n) < n * 2 ^ nat (- v)" by simp
    then have "b div n < 2 ^ nat (- v)" using assms(2) by simp
    moreover have "0 \<le> b div n" using assms(1,2) by (simp add: pos_imp_zdiv_nonneg_iff)
    ultimately have "nat (b div n) < 2 ^ nat (- v)" by (simp add: nat_less_iff)
    from floor_log2_le[OF this] no False show ?thesis by (simp add: int_log2_ratio_def)
  qed
qed

section \<open>The check never fails\<close>

lemma FUNCTION_START_compiled:
  "re_compile FUNCTION_START =
     Some (RSeq (RGroup 1 (RSeq (RSet True [CWord True]) (RStar True (RGroup 2
       (RAlt (RAlt (RAlt (RAlt (RSet True [CWord True]) (RSeq (RLit (CHR '':'')) (RLit (CHR '':''))))
         (RLit (CHR ''*''))) (RLit (CHR ''&''))) (RSet True [CSpace True])))))) (RLit (CHR ''('')))"
  by code_simp

lemma FUNCTION_NAME_compiled:
  "re_compile FUNCTION_NAME =
     Some (RSeq (RGroup 1 (RStar True (RGroup 2 (RAlt (RSet True [CWord True]) (RLit (CHR '':''))))))
       (RLit (CHR ''('')))"
  by code_simp

lemma words_acc_nonempty: "acc \<noteq> [] \<Longrightarrow> words_acc s acc \<noteq> []"
  by (induction s acc rule: words_acc.induct) auto

lemma word_not_space: "is_word c \<Longrightarrow> \<not> is_space c"
  by (auto simp: is_word_def is_space_def is_digit_def is_upper_def is_lower_def Let_def)

text \<open>The text in front of the parenthesis starts with a word character, so it has a last word.\<close>

lemma FUNCTION_START_words:
  assumes "Match FUNCTION_START line = Some m"
  shows "py_words (grp m 1) \<noteq> []" and "CHR ''('' \<in> set line"
proof -
  from Match_SomeD[OF assms FUNCTION_START_compiled] obtain c v s2 s3 where
    line: "line = c # v" "set_accepts True [CWord True] c" and
    s2: "s2 \<in> set (runs (RStar True (RGroup 2
       (RAlt (RAlt (RAlt (RAlt (RSet True [CWord True]) (RSeq (RLit (CHR '':'')) (RLit (CHR '':''))))
         (RLit (CHR ''*''))) (RLit (CHR ''&''))) (RSet True [CSpace True])))) (MS [c] v []))" and
    s3: "s3 \<in> set (runs (RLit (CHR ''('')) (capture 1 (MS [] line []) s2))" and m: "m = match_of [] line s3"
    by (simp only: bex_runs_Seq bex_runs_Group[of 1] bex_runs_Set[of True "[CWord True]" "[]"]) blast
  obtain w where w: "lft s2 = rev w @ [c]" "v = w @ rgt s2" using runs_grow[OF s2] by auto
  have "consumed (MS [] line []) s2 = c # w" by (simp add: consumed_def w(1))
  then have caps: "caps s3 = (1, 0, c # w) # caps s2" and p: "rgt s2 = CHR ''('' # rgt s3"
    using s3 by (auto simp: capture_def advance_Some set_accepts_lit)
  have "grp m 1 = c # w" unfolding m by (rule grp_match_of) (simp_all add: caps)
  then show "py_words (grp m 1) \<noteq> []"
    using word_not_space[of c] line(2) by (simp add: py_words_def words_acc_nonempty set_accepts_def)
  show "CHR ''('' \<in> set line" using line(1) w(2) p by simp
qed

lemma Finds_FUNCTION_NAME: "CHR ''('' \<in> set line \<Longrightarrow> Finds FUNCTION_NAME line"
proof -
  assume "CHR ''('' \<in> set line"
  then obtain a b where line: "line = a @ CHR ''('' # b" by (metis in_set_conv_decomp)
  have "\<exists>s1 \<in> set (runs (RSeq (RGroup 1 (RStar True (RGroup 2 (RAlt (RSet True [CWord True]) (RLit (CHR '':''))))))
       (RLit (CHR ''(''))) (MS (rev a) (CHR ''('' # b) [])). True"
    unfolding bex_runs_Seq bex_runs_Group
    by (rule bexI[OF _ runs_star_stop]) (simp add: runs_eval set_accepts_lit)
  then show ?thesis
    unfolding Finds_iff[OF FUNCTION_NAME_compiled] runs_nonempty using line by blast
qed

lemma starting_function_returns: "\<exists>b. starting_function line = Inr b \<and> (b \<longrightarrow> CHR ''('' \<in> set line)"
proof (cases "Match FUNCTION_START line")
  case None
  then show ?thesis by (intro exI[of _ False]) (simp add: starting_function_def)
next
  case (Some m)
  from FUNCTION_START_words(1)[OF this] have "\<exists>x. py_nth (py_words (grp m 1)) (-1) = Inr x"
    by (cases "py_words (grp m 1)") (auto simp: py_nth_def)
  with Some FUNCTION_START_words(2)[OF Some] show ?thesis by (auto simp: starting_function_def)
qed

lemma find_body_returns: "CHR ''('' \<in> set line \<Longrightarrow> \<exists>r. find_body line ls j = Inr r"
proof (induction ls arbitrary: j)
  case (Cons l ls)
  obtain m where "Search FUNCTION_NAME line = Some m" using Finds_FUNCTION_NAME[OF Cons.prems] by blast
  with Cons show ?case by (auto simp: Let_def)
qed simp

context error_handler
begin

lemma FunctionState_Check_returns:
  "inv s \<Longrightarrow> returns inv (FunctionState_Check verbose error filename linenum fs s)"
  by (auto simp: FunctionState_Check_def Let_def intro!: error_returns)

lemma CheckForFunctionLengths_returns:
  assumes "inv s" and "0 \<le> linenum" and "linenum < int (length (cl_lines c))"
  shows "returns (\<lambda>(fs', s'). inv s') (CheckForFunctionLengths verbose error filename c linenum fs s)"
proof -
  obtain b where b: "starting_function (cl_lines c ! nat linenum) = Inr b"
      "b \<longrightarrow> CHR ''('' \<in> set (cl_lines c ! nat linenum)" using starting_function_returns by blast
  show ?thesis
  proof (cases b)
    case True
    then obtain r where "find_body (cl_lines c ! nat linenum) (py_from (cl_lines c) linenum) [] = Inr r"
      using b(2) find_body_returns by blast
    with True b(1) assms show ?thesis
      by (auto simp: CheckForFunctionLengths_def py_nth_in_range intro!: error_bind split: option.split)
  next
    case False
    with b(1) assms show ?thesis
      by (auto simp: CheckForFunctionLengths_def py_nth_in_range intro!: returns_bind[OF FunctionState_Check_returns])
  qed
qed

end

section \<open>Properties\<close>

text \<open>C13: a report about a long function is never filtered away by the verbosity: whenever a body
  exceeds the trigger, which grows with the verbosity level, \<open>Check\<close> reports once, with a
  confidence of at most 5 that reaches every verbosity level up to 5; otherwise it is silent.\<close>

theorem FunctionState_Check_reports:
  assumes "in_a_function fs" and "0 < lines_in_function fs"
  shows "let base = (if Matches T_EST (current_function fs) then TEST_TRIGGER else NORMAL_TRIGGER) in
    (exceeds_trigger (lines_in_function fs) base verbose \<longrightarrow>
      (\<exists>confidence message.
         FunctionState_Check verbose record_error filename linenum fs log =
           Inr (log @ [(filename, Some linenum, ''readability/fn_size'', confidence, message)]) \<and>
         confidence \<le> 5 \<and> (verbose \<le> 5 \<longrightarrow> verbose \<le> confidence))) \<and>
    (\<not> exceeds_trigger (lines_in_function fs) base verbose \<longrightarrow>
      FunctionState_Check verbose record_error filename linenum fs log = Inr log)"
proof -
  have "0 < TEST_TRIGGER" "0 < NORMAL_TRIGGER" by (simp_all add: TEST_TRIGGER_def NORMAL_TRIGGER_def)
  then show ?thesis
    using level_reaches_verbosity[of NORMAL_TRIGGER "lines_in_function fs" verbose]
      level_reaches_verbosity[of TEST_TRIGGER "lines_in_function fs" verbose] assms
    by (auto simp: FunctionState_Check_def Let_def record_error_def)
qed

lemma FunctionState_Check_reports_witness:
  "\<exists>confidence message.
     FunctionState_Check 1 record_error ''a.cc'' 900
       \<lparr>in_a_function = True, lines_in_function = 501, current_function = ''main()''\<rparr> [] =
       Inr [(''a.cc'', Some 900, ''readability/fn_size'', confidence, message)] \<and> 1 \<le> confidence"
proof -
  let ?fs = "\<lparr>in_a_function = True, lines_in_function = 501, current_function = ''main()''\<rparr>"
  have "\<not> Matches T_EST ''main()''" by code_simp
  moreover have "exceeds_trigger 501 NORMAL_TRIGGER 1" by code_simp
  ultimately show ?thesis
    using FunctionState_Check_reports[of ?fs 1 "''a.cc''" 900 "[]"] by (simp add: Let_def) blast
qed

text \<open>A line in the middle of a body: nothing starts or ends on it.\<close>

definition body_line :: "string \<Rightarrow> bool" where
  "body_line line \<longleftrightarrow> starting_function line = Inr False \<and> \<not> Matches CLOSE_BRACE_ONLY line"

lemma body_line_step:
  assumes "body_line (cl_lines c ! l)" and "l < length (cl_lines c)" and "in_a_function fs"
  shows "CheckForFunctionLengths verbose error filename c (int l) fs s =
    Inr (fs\<lparr>lines_in_function := lines_in_function fs + (if Matches BLANK (cl_lines c ! l) then 0 else 1)\<rparr>, s)"
  using assms by (simp add: CheckForFunctionLengths_def body_line_def FunctionState_Count_def)

text \<open>C27: the length of a body is the number of its lines that are not blank.  Over the lines of a
  body, on none of which a function starts or ends, the check counts exactly the lines that are
  not blank once comments are removed, and reports nothing.\<close>

theorem function_length_counts_lines:
  assumes "in_a_function fs" and "\<And>l. l \<in> set ls \<Longrightarrow> l < length (cl_lines c) \<and> body_line (cl_lines c ! l)"
  shows "py_fold (\<lambda>l (fs, s). CheckForFunctionLengths verbose error filename c (int l) fs s) ls (fs, s) =
    Inr (fs\<lparr>lines_in_function := lines_in_function fs +
           int (length (filter (\<lambda>l. \<not> Matches BLANK (cl_lines c ! l)) ls))\<rparr>, s)"
  using assms
proof (induction ls arbitrary: fs)
  case Nil
  then show ?case by simp
next
  case (Cons l ls)
  let ?fs = "fs\<lparr>lines_in_function := lines_in_function fs + (if Matches BLANK (cl_lines c ! l) then 0 else 1)\<rparr>"
  have "CheckForFunctionLengths verbose error filename c (int l) fs s = Inr (?fs, s)"
    using Cons.prems by (intro body_line_step) auto
  moreover have "py_fold (\<lambda>l (fs, s). CheckForFunctionLengths verbose error filename c (int l) fs s) ls (?fs, s) =
    Inr (?fs\<lparr>lines_in_function := lines_in_function ?fs +
           int (length (filter (\<lambda>l. \<not> Matches BLANK (cl_lines c ! l)) ls))\<rparr>, s)"
    using Cons.prems by (intro Cons.IH) auto
  ultimately show ?case by simp
qed

lemma function_length_counts_lines_witness:
  "py_fold (\<lambda>l (fs, s). CheckForFunctionLengths 1 record_error ''a.cc''
      \<lparr>cl_elided = [], cl_lines = [''int f() {'', ''  return 1;'', '''', ''}''], cl_raw_lines = [],
       cl_num_lines = 4, cl_lines_without_raw_strings = []\<rparr> (int l) fs s) [1, 2]
     (\<lparr>in_a_function = True, lines_in_function = 0, current_function = ''f()''\<rparr>, []) =
   Inr (\<lparr>in_a_function = True, lines_in_function = 1, current_function = ''f()''\<rparr>, [])"
proof -
  let ?c = "\<lparr>cl_elided = [], cl_lines = [''int f() {'', ''  return 1;'', '''', ''}''], cl_raw_lines = [],
       cl_num_lines = 4, cl_lines_without_raw_strings = []\<rparr>"
  let ?fs = "\<lparr>in_a_function = True, lines_in_function = 0, current_function = ''f()''\<rparr>"
  have b: "body_line ''  return 1;''" "body_line ''''" "Matches BLANK ''''" "\<not> Matches BLANK ''  return 1;''"
    unfolding body_line_def by code_simp+
  have "py_fold (\<lambda>l (fs, s). CheckForFunctionLengths 1 record_error ''a.cc'' ?c (int l) fs s) [1, 2] (?fs, []) =
    Inr (?fs\<lparr>lines_in_function := lines_in_function ?fs +
           int (length (filter (\<lambda>l. \<not> Matches BLANK (cl_lines ?c ! l)) [1, 2]))\<rparr>, [])"
    by (rule function_length_counts_lines) (auto simp: b)
  also have "\<dots> = Inr (\<lparr>in_a_function = True, lines_in_function = 1, current_function = ''f()''\<rparr>, [])"
    using b(3,4) by simp
  finally show ?thesis .
qed

text \<open>\<open>CheckForFunctionLengths\<close> always returns: the text in front of the parenthesis has a last
  word, and the search for the name of the function succeeds.\<close>

theorem CheckForFunctionLengths_total:
  assumes "filters_ok (cpplint_state w)" and "views_ok c" and "0 \<le> linenum" and "linenum < NumLines c"
  shows "\<exists>fs' w'. CheckForFunctionLengths verbose Error filename c linenum fs w = Inr (fs', w') \<and>
    filters_ok (cpplint_state w')"
  using printing.CheckForFunctionLengths_returns[of w linenum c verbose filename fs] assms
  by (auto simp: returns_def views_ok_def NumLines_def)

lemma CheckForFunctionLengths_total_witness:
  "\<exists>fs' w'. CheckForFunctionLengths 0 Error ''a.cc''
      \<lparr>cl_elided = [''int f() {''], cl_lines = [''int f() {''], cl_raw_lines = [''int f() {''],
       cl_num_lines = 1, cl_lines_without_raw_strings = [''int f() {'']\<rparr> 0 FunctionState_init initial_world = Inr (fs', w') \<and>
    filters_ok (cpplint_state w')"
  by (rule CheckForFunctionLengths_total)
     (simp_all add: views_ok_def NumLines_def filters_ok_def initial_world_def CppLintState_init_def
        DEFAULT_FILTERS_def signed_filter_def)

end
