(* ===== verification/File_Checks.thy ===== *)
theory File_Checks
  imports Includes
begin

text \<open>
  The checks of a whole file: copyright, header guard, the header of a source file, bad
  characters, and the newline at the end.
\<close>

section \<open>Copyright\<close>

definition COPYRIGHT :: string where
  \<open>COPYRIGHT = rx ''(?i)Copyright''\<close>

fun copyright_found :: "string list \<Rightarrow> int list \<Rightarrow> bool py" where
  "copyright_found lines [] = Inr False"
| "copyright_found lines (i # rest) =
     py_bind (py_nth lines i) (\<lambda>line. if Finds COPYRIGHT line then Inr True else copyright_found lines rest)"

definition COPYRIGHT_MESSAGE :: string where
  \<open>COPYRIGHT_MESSAGE = ''No copyright message found.  You should have a line: "Copyright [year] <Copyright Owner>"''\<close>

definition CheckForCopyright :: "'s error_fn \<Rightarrow> string \<Rightarrow> string list \<Rightarrow> 's \<Rightarrow> 's py" where
  "CheckForCopyright error filename lines s =
     py_bind (copyright_found lines (py_range 1 (min (int (length lines)) 11))) (\<lambda>found.
       py_when (\<not> found)
         (error filename (Some 0) ''legal/copyright'' 5 COPYRIGHT_MESSAGE) s)"

definition INDENT :: string where
  \<open>INDENT = rx ''^( *)`S''\<close>

definition GetIndentLevel :: "string \<Rightarrow> int" where
  "GetIndentLevel line =
     (case Match INDENT line of Some indent \<Rightarrow> int (length (grp indent 1)) | None \<Rightarrow> 0)"

section \<open>The header guard\<close>

text \<open>\<open>PathSplitToList\<close>; the list is built from its end, so no reversal is needed.\<close>

function path_split_loop :: "string \<Rightarrow> string list \<Rightarrow> string list" where
  "path_split_loop path lst =
     (let (head, tail) = path_split path
      in if head = path then head # lst
         else if tail = path then tail # lst
         else path_split_loop head (tail # lst))"
  by pat_completeness auto
termination
proof (relation "measure (\<lambda>(path, lst). length path)", goal_cases)
  case 1
  show ?case by simp
next
  case (2 path lst x head tail)
  then have "head = dirname path" by (simp add: dirname_def) (metis fst_conv)
  with 2 dirname_shorter[of path] show ?case by simp
qed

declare path_split_loop.simps [simp del]

definition PathSplitToList :: "string \<Rightarrow> string list" where
  "PathSplitToList path = path_split_loop path []"

definition StripListPrefix :: "string list \<Rightarrow> string list \<Rightarrow> string list option" where
  "StripListPrefix lst prefix =
     (if take (length prefix) lst \<noteq> prefix then None else Some (drop (length prefix) lst))"

definition join_all :: "string list \<Rightarrow> string" where
  "join_all parts = (case parts of [] \<Rightarrow> [] | x # xs \<Rightarrow> path_join x xs)"

text \<open>\<open>FixupPathFromRoot\<close>, without the trace output of \<open>_root_debug\<close>, which is never switched on.\<close>

definition FixupPathFromRoot :: "os_env \<Rightarrow> world \<Rightarrow> string \<Rightarrow> string \<Rightarrow> string" where
  "FixupPathFromRoot env g filename file_path_from_root =
     (case root_flag g of
        None \<Rightarrow> file_path_from_root
      | Some root \<Rightarrow>
          if root = [] then file_path_from_root
          else
            (case StripListPrefix (PathSplitToList file_path_from_root) (PathSplitToList root) of
               Some (p # ps) \<Rightarrow> join_all (p # ps)
             | _ \<Rightarrow>
                 (case StripListPrefix (PathSplitToList (FullName env filename)) (PathSplitToList (abspath env root)) of
                    Some (p # ps) \<Rightarrow> join_all (p # ps)
                  | _ \<Rightarrow> file_path_from_root)))"

definition FLYMAKE_SUFFIX :: string where
  \<open>FLYMAKE_SUFFIX = rx ''_flymake`.h$''\<close>

definition FLYMAKE_DIR :: string where
  \<open>FLYMAKE_DIR = rx ''/`.flymake/([^/]*)$''\<close>

definition NOT_ALNUM :: string where
  \<open>NOT_ALNUM = rx ''[^a-zA-Z0-9]''\<close>

definition guard_of_path :: "string \<Rightarrow> string" where
  "guard_of_path path = py_upper (re_sub NOT_ALNUM (\<lambda>_. ''_'') path) @ ''_''"

definition restore_filename :: "string \<Rightarrow> string" where
  "restore_filename filename =
     py_replace (py_replace
       (re_sub FLYMAKE_DIR (\<lambda>m. ''/'' @ grp m 1) (re_sub FLYMAKE_SUFFIX (\<lambda>_. ''.h'') filename))
       ''C++'' ''cpp'') ''c++'' ''cpp''"

definition GetHeaderGuardCPPVariable :: "os_env \<Rightarrow> world \<Rightarrow> string \<Rightarrow> string py" where
  "GetHeaderGuardCPPVariable env g filename =
     (let filename' = restore_filename filename
      in py_bind (RepositoryName env g filename') (\<lambda>file_path_from_root.
           Inr (guard_of_path (FixupPathFromRoot env g filename' file_path_from_root))))"

text \<open>What the scan of the lines collects: the guard of the first \<open>#ifndef\<close> with its line, the
  first \<open>#define\<close>, and the last \<open>#endif\<close> with its line.\<close>

record guard_scan =
  gs_ifndef :: string
  gs_ifndef_linenum :: int
  gs_define :: string
  gs_endif :: string
  gs_endif_linenum :: int

definition scan_guard_line :: "int \<times> string \<Rightarrow> guard_scan \<Rightarrow> guard_scan" where
  "scan_guard_line entry gs =
     (let (linenum, line) = entry; linesplit = py_words line;
          gs1 = (if length linesplit \<ge> 2 \<and> gs_ifndef gs = [] \<and> linesplit ! 0 = ''#ifndef''
                 then gs\<lparr>gs_ifndef := linesplit ! 1, gs_ifndef_linenum := linenum\<rparr> else gs);
          gs2 = (if length linesplit \<ge> 2 \<and> gs_define gs1 = [] \<and> linesplit ! 0 = ''#define''
                 then gs1\<lparr>gs_define := linesplit ! 1\<rparr> else gs1)
      in if startswith line ''#endif'' then gs2\<lparr>gs_endif := line, gs_endif_linenum := linenum\<rparr> else gs2)"

definition scan_guard :: "string list \<Rightarrow> guard_scan" where
  "scan_guard raw_lines =
     fold scan_guard_line (py_enumerate raw_lines)
       \<lparr>gs_ifndef = [], gs_ifndef_linenum = 0, gs_define = [], gs_endif = [], gs_endif_linenum = 0\<rparr>"

definition NOLINT_HEADER_GUARD :: string where
  \<open>NOLINT_HEADER_GUARD = rx ''//`s*NOLINT`(build/header_guard`)''\<close>

definition PRAGMA_ONCE :: string where
  \<open>PRAGMA_ONCE = rx ''^`s*#pragma`s+once''\<close>

definition ENDIF_COMMENT :: "string \<Rightarrow> string" where
  \<open>ENDIF_COMMENT cppvar = rx ''#endif`s*//`s*'' @ cppvar @ rx ''(_)?`b''\<close>

definition ENDIF_C_COMMENT :: "string \<Rightarrow> string" where
  \<open>ENDIF_C_COMMENT cppvar = rx ''#endif`s*/`*`s*'' @ cppvar @ rx ''(_)?`s*`*/''\<close>

definition LINE_COMMENT :: string where
  \<open>LINE_COMMENT = rx ''^(?:(?:`'(?:`.|[^`'])*`')|(?:"(?:`.|[^"])*")|[^`'"])*//''\<close>

definition no_single_line_comments :: "string list \<Rightarrow> bool" where
  "no_single_line_comments raw_lines =
     list_all (\<lambda>line. \<not> Matches LINE_COMMENT line) (butlast (drop 1 raw_lines))"

text \<open>The last part of \<open>CheckForHeaderGuard\<close>: the comment behind the last \<open>#endif\<close>.\<close>

definition check_endif_comment ::
  "world error_fn \<Rightarrow> string \<Rightarrow> string list \<Rightarrow> string \<Rightarrow> guard_scan \<Rightarrow> world \<Rightarrow> world py" where
  \<open>check_endif_comment error filename raw_lines cppvar gs w =
     (case Match (ENDIF_COMMENT cppvar) (gs_endif gs) of
        Some m \<Rightarrow>
          py_when (group m 1 = Some ''_'')
            (error filename (Some (gs_endif_linenum gs)) ''build/header_guard'' 0
               (''#endif line should be "#endif  // '' @ cppvar @ ''"'')) w
      | None \<Rightarrow>
          (case (if no_single_line_comments raw_lines then Match (ENDIF_C_COMMENT cppvar) (gs_endif gs) else None) of
             Some m \<Rightarrow>
               py_when (group m 1 = Some ''_'')
                 (error filename (Some (gs_endif_linenum gs)) ''build/header_guard'' 0
                    (''#endif line should be "#endif  /* '' @ cppvar @ '' */"'')) w
           | None \<Rightarrow>
               error filename (Some (gs_endif_linenum gs)) ''build/header_guard'' 5
                 (''#endif line should be "#endif  // '' @ cppvar @ ''"'') w))\<close>

definition CheckForHeaderGuard ::
  "os_env \<Rightarrow> world \<Rightarrow> world error_fn \<Rightarrow> string \<Rightarrow> cleansed_lines \<Rightarrow> world \<Rightarrow> world py" where
  \<open>CheckForHeaderGuard env g error filename clean_lines w =
     (let raw_lines = cl_lines_without_raw_strings clean_lines
      in if \<exists>l \<in> set raw_lines. Finds NOLINT_HEADER_GUARD l then Inr w
         else if \<exists>l \<in> set raw_lines. Finds PRAGMA_ONCE l then Inr w
         else
           py_bind (GetHeaderGuardCPPVariable env g filename) (\<lambda>cppvar.
             let gs = scan_guard raw_lines; guard = gs_ifndef gs
             in if guard = [] \<or> gs_define gs = [] \<or> guard \<noteq> gs_define gs
                then error filename (Some 0) ''build/header_guard'' 5
                       (''No #ifndef header guard found, suggested CPP variable is: '' @ cppvar) w
                else
                  py_bind
                    (if guard \<noteq> cppvar then
                       py_bind (py_nth raw_lines (gs_ifndef_linenum gs)) (\<lambda>line.
                       py_bind (ParseNolintSuppressions error filename line (gs_ifndef_linenum gs) w)
                         (error filename (Some (gs_ifndef_linenum gs)) ''build/header_guard''
                            (if guard \<noteq> cppvar @ ''_'' then 5 else 0)
                            (''#ifndef header guard has wrong style, please use: '' @ cppvar)))
                     else Inr w) (\<lambda>w1.
                  py_bind (py_nth raw_lines (gs_endif_linenum gs)) (\<lambda>line.
                  py_bind (ParseNolintSuppressions error filename line (gs_endif_linenum gs) w1)
                    (check_endif_comment error filename raw_lines cppvar gs)))))\<close>

section \<open>The header of a source file\<close>

text \<open>The first line number that counts as true (a number other than zero), or \<open>None\<close> or zero.\<close>

fun first_include_of :: "(string \<times> int) list \<Rightarrow> lineno \<Rightarrow> lineno" where
  "first_include_of [] first = first"
| "first_include_of (f # fs) first =
     first_include_of fs (if first = None \<or> first = Some 0 then Some (snd f) else first)"

fun header_included_loop :: "os_env \<Rightarrow> world \<Rightarrow> 's error_fn \<Rightarrow> string \<Rightarrow> include_state \<Rightarrow> string list \<Rightarrow> 's \<Rightarrow> 's py" where
  "header_included_loop env g error filename st [] s = Inr s"
| "header_included_loop env g error filename st (ext # exts) s =
     py_bind (Extension env g filename) (\<lambda>extension.
       let headerfile = py_slice filename 0 (int (length filename) - int (length extension)) @ ''.'' @ ext
       in if \<not> os_exists env headerfile then header_included_loop env g error filename st exts s
          else
            py_bind (RepositoryName env g headerfile) (\<lambda>headername.
              let includes = concat (include_list st)
              in if \<exists>f \<in> set includes. py_in headername (fst f) \<or> py_in (fst f) headername then Inr s
                 else
                   py_bind (RepositoryName env g filename) (\<lambda>name.
                   py_bind (error filename (first_include_of includes None) ''build/include'' 5
                              (name @ '' should include its header file '' @ headername) s)
                     (header_included_loop env g error filename st exts))))"

definition CheckHeaderFileIncluded ::
  "os_env \<Rightarrow> world \<Rightarrow> 's error_fn \<Rightarrow> string \<Rightarrow> include_state \<Rightarrow> 's \<Rightarrow> 's py" where
  "CheckHeaderFileIncluded env g error filename st s =
     py_bind (BaseName env g filename) (\<lambda>base.
       if Finds TEST_FILE_SUFFIX base then Inr s
       else header_included_loop env g error filename st (GetHeaderExtensions g) s)"

section \<open>Bad characters and the end of the file\<close>

text \<open>
  The Unicode replacement character is compared by its code point; it does not occur in the
  Latin-1 strings of the model.
\<close>

definition bad_characters_line :: "'s error_fn \<Rightarrow> string \<Rightarrow> int \<times> string \<Rightarrow> 's \<Rightarrow> 's py" where
  "bad_characters_line error filename entry s =
     (let (linenum, line) = entry
      in py_bind
           (py_when (65533 \<in> char_code ` set line)
              (error filename (Some linenum) ''readability/utf8'' 5
                 ''Line contains invalid UTF-8 (or Unicode replacement character).'') s)
           (py_when (CHR 0x00 \<in> set line)
              (error filename (Some linenum) ''readability/nul'' 5 ''Line contains NUL byte.'')))"

definition CheckForBadCharacters :: "'s error_fn \<Rightarrow> string \<Rightarrow> string list \<Rightarrow> 's \<Rightarrow> 's py" where
  "CheckForBadCharacters error filename lines s =
     py_fold (bad_characters_line error filename) (py_enumerate lines) s"

definition CheckForNewlineAtEOF :: "'s error_fn \<Rightarrow> string \<Rightarrow> string list \<Rightarrow> 's \<Rightarrow> 's py" where
  "CheckForNewlineAtEOF error filename lines s =
     py_when (length lines < 3 \<or> lines ! (length lines - 2) \<noteq> [])
       (error filename (Some (int (length lines) - 2)) ''whitespace/ending_newline'' 5
          ''Could not find a newline character at the end of the file.'') s"

section \<open>Facts about the checks\<close>

text \<open>Replacing every character of a class by one character is a \<open>map\<close>.\<close>

lemma match_at_class:
  "match_at (RSet p cs) l [] = None"
  "match_at (RSet p cs) l (c # s) = (if set_accepts p cs c then Some (PM (rev l) [c] s []) else None)"
  by (simp_all add: match_at_def match_of_def consumed_def)

lemma scan_class:
  "(let (ms, rest) = scan (RSet p cs) l skipped s
    in concat (map (\<lambda>(skipped, m). skipped @ [x]) ms) @ rest) =
   rev skipped @ map (\<lambda>c. if set_accepts p cs c then x else c) s"
proof (induction s arbitrary: l skipped)
  case Nil
  then show ?case by (simp add: scan.simps[of _ _ _ "[]"] match_at_class)
next
  case (Cons c s)
  show ?case
  proof (cases "set_accepts p cs c")
    case True
    then have "scan (RSet p cs) l skipped (c # s) =
        (let (ms, rest) = scan (RSet p cs) (c # l) [] s in ((rev skipped, PM (rev l) [c] s []) # ms, rest))"
      by (simp add: scan.simps[of _ _ _ "c # s"] match_at_class)
    with True Cons.IH[of "c # l" "[]"] show ?thesis by (auto simp: Let_def split: prod.splits)
  next
    case False
    then have "scan (RSet p cs) l skipped (c # s) = scan (RSet p cs) (c # l) (c # skipped) s"
      by (simp add: scan.simps[of _ _ _ "c # s"] match_at_class)
    with False Cons.IH[of "c # l" "c # skipped"] show ?thesis by simp
  qed
qed

lemma re_sub_class:
  "re_compile pat = Some (RSet p cs) \<Longrightarrow>
   re_sub pat (\<lambda>_. [x]) s = map (\<lambda>c. if set_accepts p cs c then x else c) s"
  using scan_class[of p cs "[]" "[]" s x] by (simp add: re_sub_def sub_re_def)

lemma NOT_ALNUM_compiled:
  "re_compile NOT_ALNUM = Some (RSet False [CRange (CHR ''a'') (CHR ''z''), CRange (CHR ''A'') (CHR ''Z''),
     CRange (CHR ''0'') (CHR ''9'')])"
  by code_simp

definition guard_char :: "char \<Rightarrow> bool" where
  "guard_char c \<longleftrightarrow> is_upper c \<or> is_digit c \<or> c = CHR ''_''"

lemma upper_char_code: "is_lower c \<Longrightarrow> char_code (upper_char c) = char_code c - 32"
  by (simp add: upper_char_def is_lower_def Let_def take_bit_int_eq_self)

lemma guard_of_path_chars: "list_all guard_char (guard_of_path path)"
proof -
  have "guard_char (upper_char (if set_accepts False [CRange (CHR ''a'') (CHR ''z''), CRange (CHR ''A'') (CHR ''Z''),
     CRange (CHR ''0'') (CHR ''9'')] c then CHR ''_'' else c))" for c
  proof (cases "is_lower c \<or> is_upper c \<or> is_digit c")
    case True
    then have acc: "\<not> set_accepts False [CRange (CHR ''a'') (CHR ''z''), CRange (CHR ''A'') (CHR ''Z''),
        CRange (CHR ''0'') (CHR ''9'')] c"
      by (auto simp: set_accepts_def is_lower_def is_upper_def is_digit_def Let_def)
    show ?thesis
    proof (cases "is_lower c")
      case True
      then have "is_upper (upper_char c)" using upper_char_code[OF True] by (simp add: is_upper_def is_lower_def Let_def)
      with acc show ?thesis by (simp add: guard_char_def)
    next
      case False
      with acc \<open>is_lower c \<or> is_upper c \<or> is_digit c\<close> show ?thesis by (auto simp: guard_char_def upper_char_def)
    qed
  next
    case False
    then have "set_accepts False [CRange (CHR ''a'') (CHR ''z''), CRange (CHR ''A'') (CHR ''Z''),
        CRange (CHR ''0'') (CHR ''9'')] c"
      by (auto simp: set_accepts_def is_lower_def is_upper_def is_digit_def Let_def)
    then show ?thesis by (simp add: guard_char_def upper_char_def is_lower_def)
  qed
  then show ?thesis
    by (simp add: guard_of_path_def re_sub_class[OF NOT_ALNUM_compiled] py_upper_def list_all_iff guard_char_def)
qed

text \<open>Which lines the scan for the guard keeps.\<close>

definition directive_arg :: "string \<Rightarrow> string \<Rightarrow> string option" where
  "directive_arg directive line =
     (case py_words line of d # arg # _ \<Rightarrow> if d = directive then Some arg else None | _ \<Rightarrow> None)"

lemma words_acc_no_empty: "[] \<notin> set (words_acc s acc)"
  by (induction s acc rule: words_acc.induct) auto

lemma directive_arg_nonempty: "directive_arg d line = Some arg \<Longrightarrow> arg \<noteq> []"
  using words_acc_no_empty[of line "[]"] by (auto simp: directive_arg_def py_words_def split: list.splits if_splits)

fun first_arg :: "string \<Rightarrow> string list \<Rightarrow> string" where
  "first_arg d [] = []"
| "first_arg d (l # ls) = (case directive_arg d l of Some arg \<Rightarrow> arg | None \<Rightarrow> first_arg d ls)"

lemma scan_guard_line_fields:
  "gs_ifndef (scan_guard_line (n, line) gs) =
     (if gs_ifndef gs = [] then (case directive_arg ''#ifndef'' line of Some a \<Rightarrow> a | None \<Rightarrow> []) else gs_ifndef gs)"
  "gs_define (scan_guard_line (n, line) gs) =
     (if gs_define gs = [] then (case directive_arg ''#define'' line of Some a \<Rightarrow> a | None \<Rightarrow> []) else gs_define gs)"
  "gs_endif (scan_guard_line (n, line) gs) = (if startswith line ''#endif'' then line else gs_endif gs)"
  by (cases "py_words line"; cases "tl (py_words line)";
      auto simp: scan_guard_line_def directive_arg_def Let_def split: list.splits)+

lemma scan_guard_fold_fields:
  "gs_ifndef (fold scan_guard_line es gs) =
     (if gs_ifndef gs = [] then first_arg ''#ifndef'' (map snd es) else gs_ifndef gs)"
  "gs_define (fold scan_guard_line es gs) =
     (if gs_define gs = [] then first_arg ''#define'' (map snd es) else gs_define gs)"
  "gs_endif (fold scan_guard_line es gs) =
     (case find (\<lambda>l. startswith l ''#endif'') (rev (map snd es)) of Some l \<Rightarrow> l | None \<Rightarrow> gs_endif gs)"
proof (induction es arbitrary: gs)
  case (Cons e es)
  { case 1
    then show ?case
      using Cons(1)[of "scan_guard_line e gs"] directive_arg_nonempty[of "''#ifndef''" "snd e"]
      by (cases e) (auto simp: scan_guard_line_fields split: option.splits)
  next
    case 2
    then show ?case
      using Cons(2)[of "scan_guard_line e gs"] directive_arg_nonempty[of "''#define''" "snd e"]
      by (cases e) (auto simp: scan_guard_line_fields split: option.splits)
  next
    case 3
    then show ?case
      using Cons(3)[of "scan_guard_line e gs"]
      by (cases e) (auto simp: scan_guard_line_fields find_append split: option.splits)
  }
qed simp_all

lemma map_snd_enumerate: "map snd (py_enumerate xs) = xs"
  by (simp add: py_enumerate_def case_prod_beta' o_def)

lemma scan_guard_fields:
  "gs_ifndef (scan_guard ls) = first_arg ''#ifndef'' ls"
  "gs_define (scan_guard ls) = first_arg ''#define'' ls"
  "gs_endif (scan_guard ls) = (case find (\<lambda>l. startswith l ''#endif'') (rev ls) of Some l \<Rightarrow> l | None \<Rightarrow> [])"
  by (simp_all add: scan_guard_def scan_guard_fold_fields map_snd_enumerate split: option.split)

lemma scan_guard_linenums:
  "ls \<noteq> [] \<Longrightarrow> 0 \<le> gs_ifndef_linenum (scan_guard ls) \<and> gs_ifndef_linenum (scan_guard ls) < int (length ls) \<and>
     0 \<le> gs_endif_linenum (scan_guard ls) \<and> gs_endif_linenum (scan_guard ls) < int (length ls)"
proof -
  assume ne: "ls \<noteq> []"
  define ok where "ok = (\<lambda>gs :: guard_scan. 0 \<le> gs_ifndef_linenum gs \<and> gs_ifndef_linenum gs < int (length ls) \<and>
     0 \<le> gs_endif_linenum gs \<and> gs_endif_linenum gs < int (length ls))"
  have step: "ok gs \<Longrightarrow> e \<in> set (py_enumerate ls) \<Longrightarrow> ok (scan_guard_line e gs)" for e gs
    by (cases e) (auto simp: ok_def scan_guard_line_def Let_def py_enumerate_def in_set_enumerate_eq)
  have "set es \<subseteq> set (py_enumerate ls) \<Longrightarrow> ok gs \<Longrightarrow> ok (fold scan_guard_line es gs)" for es gs
    by (induction es arbitrary: gs) (auto intro: step)
  from this[of "py_enumerate ls"] ne show ?thesis by (simp add: scan_guard_def ok_def)
qed

lemma GetHeaderGuardCPPVariable_returns:
  "names_return env g \<Longrightarrow> \<exists>cppvar. GetHeaderGuardCPPVariable env g filename = Inr cppvar"
  by (auto simp: GetHeaderGuardCPPVariable_def names_return_def Let_def) (metis py_bind.simps(2))

section \<open>The checks return\<close>

text \<open>Handlers that work on the world may also have suppressions added to it.\<close>

locale world_handler = error_handler error inv for error :: "world error_fn" and inv +
  assumes suppress_keeps: "inv w \<Longrightarrow> inv (suppress k l w)"
begin

lemma ParseNolint_returns: "inv w \<Longrightarrow> returns inv (ParseNolintSuppressions error filename line linenum w)"
  by (auto simp: ParseNolintSuppressions_def Let_def intro!: suppress_keeps error_returns split: option.split)

lemma check_endif_comment_returns:
  "inv w \<Longrightarrow> returns inv (check_endif_comment error filename raw_lines cppvar gs w)"
  unfolding check_endif_comment_def by (intro returns_option error_when error_returns)

lemma CheckForHeaderGuard_returns:
  assumes "names_return env g" and "inv w"
  shows "returns inv (CheckForHeaderGuard env g error filename c w)"
proof -
  let ?raw = "cl_lines_without_raw_strings c"
  let ?gs = "scan_guard ?raw"
  obtain cppvar where v: "GetHeaderGuardCPPVariable env g filename = Inr cppvar"
    using GetHeaderGuardCPPVariable_returns[OF assms(1)] by blast
  have "?raw = [] \<Longrightarrow> gs_ifndef ?gs = []" by (simp add: scan_guard_def py_enumerate_def)
  then have "gs_ifndef ?gs \<noteq> [] \<Longrightarrow> ?raw \<noteq> []" by blast
  then have nth: "gs_ifndef ?gs \<noteq> [] \<Longrightarrow> \<exists>a. py_nth ?raw (gs_ifndef_linenum ?gs) = Inr a"
      "gs_ifndef ?gs \<noteq> [] \<Longrightarrow> \<exists>a. py_nth ?raw (gs_endif_linenum ?gs) = Inr a"
    using scan_guard_linenums[of ?raw] py_nth_in_range[of _ ?raw] by blast+
  show ?thesis
    unfolding CheckForHeaderGuard_def Let_def v py_bind.simps
    using assms(2) nth
    by (auto intro!: error_returns returns_bind[where P = inv] returns_bind[OF ParseNolint_returns]
          check_endif_comment_returns returns_if)
qed

end

interpretation printing_world: world_handler Error "\<lambda>w. filters_ok (cpplint_state w)"
  by unfold_locales (simp add: suppress_def)

context error_handler
begin

lemma copyright_returns:
  "(\<And>i. i \<in> set is \<Longrightarrow> 0 \<le> i \<and> i < int (length ls)) \<Longrightarrow> returns (\<lambda>_. True) (copyright_found ls is)"
proof (induction "is")
  case (Cons i "is")
  then show ?case by (auto simp: py_nth_in_range)
qed simp

lemma CheckForCopyright_returns: "inv s \<Longrightarrow> returns inv (CheckForCopyright error filename ls s)"
  unfolding CheckForCopyright_def
  by (rule returns_bind[OF copyright_returns]) (auto simp: set_py_range intro: error_when)

lemma CheckForBadCharacters_returns: "inv s \<Longrightarrow> returns inv (CheckForBadCharacters error filename ls s)"
  unfolding CheckForBadCharacters_def
  by (rule returns_fold) (auto simp: bad_characters_line_def intro!: returns_bind[where P = inv] error_when split: prod.split)

lemma CheckForNewlineAtEOF_returns: "inv s \<Longrightarrow> returns inv (CheckForNewlineAtEOF error filename ls s)"
  unfolding CheckForNewlineAtEOF_def by (rule error_when)

lemma header_included_loop_returns:
  "names_return env g \<Longrightarrow> inv s \<Longrightarrow> returns inv (header_included_loop env g error filename st exts s)"
proof (induction exts arbitrary: s)
  case (Cons ext exts)
  show ?case
    unfolding header_included_loop.simps Let_def
    using Cons by (intro returns_bind[OF names_return_split(2)] returns_if returns_bind[OF names_return_name]
        returns_Inr error_bind) auto
qed simp

lemma CheckHeaderFileIncluded_returns:
  "names_return env g \<Longrightarrow> inv s \<Longrightarrow> returns inv (CheckHeaderFileIncluded env g error filename st s)"
  unfolding CheckHeaderFileIncluded_def
  by (intro returns_bind[OF names_return_split(1)] returns_if returns_Inr header_included_loop_returns) auto

end

section \<open>What the checks report\<close>

text \<open>A line counts as a copyright line when it contains the word, each letter in either case.\<close>

abbreviation either_case :: "char \<Rightarrow> char \<Rightarrow> bool" where
  "either_case x c \<equiv> x = c \<or> x = upper_char c"

definition says_copyright :: "string \<Rightarrow> bool" where
  "says_copyright line \<longleftrightarrow> (\<exists>a w b. line = a @ w @ b \<and> list_all2 either_case w ''copyright'')"

definition letter_re :: "char \<Rightarrow> char \<Rightarrow> re" where
  "letter_re x c = RSet True [CChar x, CChar c, CChar (upper_char c)]"

lemma bex_runs_letter:
  "either_case x c \<Longrightarrow> (\<exists>s1 \<in> set (runs (letter_re x c) (MS l s cs0)). P s1) \<longleftrightarrow>
     (\<exists>a v. s = a # v \<and> either_case a c \<and> P (MS (a # l) v cs0))"
  unfolding letter_re_def runs_bex by (auto simp: set_accepts_def)

lemma runs_letters:
  "list_all2 either_case xs cs \<Longrightarrow> either_case x c \<Longrightarrow>
   (\<exists>s1 \<in> set (runs (foldr RSeq (map2 letter_re xs cs) (letter_re x c)) (MS l v cs0)). True) \<longleftrightarrow>
   (\<exists>w b. v = w @ b \<and> list_all2 either_case w (cs @ [c]))"
proof (induction xs cs arbitrary: l v rule: list_all2_induct)
  case Nil
  have "(\<exists>w b. v = w @ b \<and> list_all2 either_case w [c]) \<longleftrightarrow> (\<exists>a t. v = a # t \<and> either_case a c)"
  proof
    assume "\<exists>w b. v = w @ b \<and> list_all2 either_case w [c]"
    then show "\<exists>a t. v = a # t \<and> either_case a c" by (auto simp: list_all2_Cons2)
  next
    assume "\<exists>a t. v = a # t \<and> either_case a c"
    then obtain a t where "v = a # t" "either_case a c" by blast
    then show "\<exists>w b. v = w @ b \<and> list_all2 either_case w [c]"
      by (intro exI[of _ "[a]"] exI[of _ t]) simp
  qed
  with bex_runs_letter[OF Nil, of l v cs0 "\<lambda>_. True"] show ?case by simp
next
  case (Cons y ys d ds)
  have "(\<exists>w b. v = w @ b \<and> list_all2 either_case w ((d # ds) @ [c])) \<longleftrightarrow>
      (\<exists>a t. v = a # t \<and> either_case a d \<and> (\<exists>w b. t = w @ b \<and> list_all2 either_case w (ds @ [c])))"
  proof
    assume "\<exists>w b. v = w @ b \<and> list_all2 either_case w ((d # ds) @ [c])"
    then show "\<exists>a t. v = a # t \<and> either_case a d \<and> (\<exists>w b. t = w @ b \<and> list_all2 either_case w (ds @ [c]))"
      unfolding append_Cons list_all2_Cons2 by fastforce
  next
    assume "\<exists>a t. v = a # t \<and> either_case a d \<and> (\<exists>w b. t = w @ b \<and> list_all2 either_case w (ds @ [c]))"
    then obtain a t w b where "v = a # t" "either_case a d" "t = w @ b" "list_all2 either_case w (ds @ [c])" by blast
    then show "\<exists>w b. v = w @ b \<and> list_all2 either_case w ((d # ds) @ [c])"
      by (intro exI[of _ "a # w"] exI[of _ b]) simp
  qed
  moreover have "(\<exists>s1 \<in> set (runs (foldr RSeq (map2 letter_re (y # ys) (d # ds)) (letter_re x c)) (MS l v cs0)). True) \<longleftrightarrow>
      (\<exists>a t. v = a # t \<and> either_case a d \<and> (\<exists>w b. t = w @ b \<and> list_all2 either_case w (ds @ [c])))"
    using Cons by (simp only: zip_Cons_Cons list.map prod.case foldr_Cons o_apply bex_runs_Seq bex_runs_letter)
  ultimately show ?case by blast
qed

lemma COPYRIGHT_compiled:
  "re_compile COPYRIGHT = Some (foldr RSeq (map2 letter_re ''Copyrigh'' ''copyrigh'') (letter_re (CHR ''t'') (CHR ''t'')))"
  by code_simp

lemma C_either: "either_case (CHR ''C'') (CHR ''c'')"
  by code_simp

lemma Finds_COPYRIGHT: "Finds COPYRIGHT line \<longleftrightarrow> says_copyright line"
proof -
  have "list_all2 either_case ''Copyrigh'' ''copyrigh''" using C_either by simp
  note runs_letters[OF this, of "CHR ''t''" "CHR ''t''"]
  then show ?thesis
    unfolding Finds_iff[OF COPYRIGHT_compiled] says_copyright_def runs_nonempty
    by (auto simp del: foldr.simps zip.simps list.map) 
qed

lemma copyright_found_iff:
  "(\<And>i. i \<in> set is \<Longrightarrow> 0 \<le> i \<and> i < int (length ls)) \<Longrightarrow>
   copyright_found ls is = Inr (\<exists>i \<in> set is. says_copyright (ls ! nat i))"
proof (induction "is")
  case (Cons i "is")
  then show ?case using Finds_COPYRIGHT[of "ls ! nat i"] by (auto simp: py_nth_in_range)
qed simp

text \<open>\<open>CheckForCopyright\<close> reports exactly one missing copyright message when none of the first ten
  lines of the file contains the word ``copyright'' in any mixture of cases, and nothing otherwise.
  (Line 0 is the marker that the driver puts in front of the file.)\<close>

theorem CheckForCopyright_reports:
  "CheckForCopyright record_error filename lines log = Inr (log @
     (if \<exists>i. 1 \<le> i \<and> i \<le> 10 \<and> i < length lines \<and> says_copyright (lines ! i) then []
      else [(filename, Some 0, ''legal/copyright'', 5,
             COPYRIGHT_MESSAGE)]))"
proof -
  let ?is = "py_range 1 (min (int (length lines)) 11)"
  have "copyright_found lines ?is = Inr (\<exists>i \<in> set ?is. says_copyright (lines ! nat i))"
    by (rule copyright_found_iff) (auto simp: set_py_range)
  moreover have "(\<exists>i \<in> set ?is. says_copyright (lines ! nat i)) \<longleftrightarrow>
      (\<exists>i. 1 \<le> i \<and> i \<le> 10 \<and> i < length lines \<and> says_copyright (lines ! i))"
  proof
    assume "\<exists>i \<in> set ?is. says_copyright (lines ! nat i)"
    then obtain i where "1 \<le> i" "i < int (length lines)" "i < 11" "says_copyright (lines ! nat i)"
      by (auto simp: set_py_range)
    then show "\<exists>i. 1 \<le> i \<and> i \<le> 10 \<and> i < length lines \<and> says_copyright (lines ! i)"
      by (intro exI[of _ "nat i"]) auto
  next
    assume "\<exists>i. 1 \<le> i \<and> i \<le> 10 \<and> i < length lines \<and> says_copyright (lines ! i)"
    then obtain i where "1 \<le> i" "i \<le> 10" "i < length lines" "says_copyright (lines ! i)" by blast
    then show "\<exists>i \<in> set ?is. says_copyright (lines ! nat i)"
      by (intro bexI[of _ "int i"]) (auto simp: set_py_range)
  qed
  ultimately show ?thesis
    by (simp only: CheckForCopyright_def py_when_def record_error_def py_bind.simps if_not_P if_P split: if_split) simp
qed

text \<open>C36: The guard that \<open>GetHeaderGuardCPPVariable\<close> suggests consists of upper-case letters, digits and
  underscores only, whatever the file is called, and it ends with an underscore.\<close>

theorem GetHeaderGuardCPPVariable_is_macro_name:
  assumes "GetHeaderGuardCPPVariable env g filename = Inr v"
  shows "list_all guard_char v \<and> endswith v ''_''"
  using assms guard_of_path_chars
  by (auto simp: GetHeaderGuardCPPVariable_def Let_def py_bind_eq_Inr) (simp add: guard_of_path_def)

lemma GetHeaderGuardCPPVariable_is_macro_name_witness:
  "list_all guard_char ''SRC_A_H_'' \<and> endswith ''SRC_A_H_'' ''_''"
proof (rule GetHeaderGuardCPPVariable_is_macro_name)
  show "GetHeaderGuardCPPVariable ex_env initial_world ''src/a.h'' = Inr ''SRC_A_H_''" by code_simp
qed

lemma ex_env_names_return: "names_return ex_env g"
proof -
  have no_svn: "\<not> os_exists ex_env (path_join d [''.svn''])" for d
  proof -
    have "path_join d [''.svn''] = ''.svn'' \<or> (\<exists>x. path_join d [''.svn''] = x @ ''.svn'')"
      by (simp add: path_join.simps(2))
    then show ?thesis
      by (auto simp: ex_env_def append_eq_Cons_conv dest: arg_cong[where f = "\<lambda>p. rev p"])
  qed
  show ?thesis unfolding names_return_def
  proof
    fix filename
    obtain r where "svn_top ex_env (dirname (FullName ex_env filename)) (dirname (dirname (FullName ex_env filename))) = Some r"
      using svn_top_returns[OF no_svn] by blast
    then show "\<exists>name. RepositoryName ex_env g filename = Inr name"
      by (simp add: RepositoryName_def Let_def split: option.split)
  qed
qed

lemma py_split_last_empty: "last (py_split t [c]) = [] \<longleftrightarrow> t = [] \<or> last t = c"
proof -
  have "last (split_skip s [c] acc 0) = [] \<longleftrightarrow> (if s = [] then acc = [] else last s = c)" for s acc
  proof (induction s arbitrary: acc)
    case (Cons x xs)
    show ?case using Cons.IH[of "[]"] Cons.IH[of "x # acc"] by (auto simp only: split_skip_char_Cons last.simps split_skip_nonempty split: if_splits)
  qed simp
  from this[of t "[]"] show ?thesis by (auto simp: py_split_def)
qed

text \<open>A file is exempt from the check of the header guard.\<close>

definition guard_exempt :: "string list \<Rightarrow> bool" where
  "guard_exempt ls \<longleftrightarrow> (\<exists>l \<in> set ls. Finds NOLINT_HEADER_GUARD l \<or> Finds PRAGMA_ONCE l)"

lemma CheckForHeaderGuard_exempt:
  "guard_exempt (cl_lines_without_raw_strings c) \<Longrightarrow> CheckForHeaderGuard env g error filename c w = Inr w"
  by (auto simp only: CheckForHeaderGuard_def Let_def guard_exempt_def if_True split: if_splits)

lemma CheckForHeaderGuard_not_exempt:
  "\<not> guard_exempt ls \<Longrightarrow> cl_lines_without_raw_strings c = ls \<Longrightarrow>
   GetHeaderGuardCPPVariable env g filename = Inr v \<Longrightarrow>
   first_arg ''#ifndef'' ls = [] \<or> first_arg ''#define'' ls = [] \<or> first_arg ''#ifndef'' ls \<noteq> first_arg ''#define'' ls \<Longrightarrow>
   CheckForHeaderGuard env g error filename c w = error filename (Some 0) ''build/header_guard'' 5
            (''No #ifndef header guard found, suggested CPP variable is: '' @ v) w"
  by (simp add: CheckForHeaderGuard_def Let_def guard_exempt_def scan_guard_fields)

text \<open>C26: \<open>CheckForHeaderGuard\<close> returns for every file (given that repository names exist), keeps the
  filters legal, does nothing to a file with \<open>#pragma once\<close> or the NOLINT mark, and reports a missing
  guard, once, exactly at line 0, when there is no \<open>#ifndef\<close>, no \<open>#define\<close>, or the first ones of both name
  different macros.\<close>

theorem CheckForHeaderGuard_missing:
  assumes "names_return env g" and "filters_ok (cpplint_state w)"
  shows "\<exists>v w'. GetHeaderGuardCPPVariable env g filename = Inr v \<and>
     CheckForHeaderGuard env g Error filename c w = Inr w' \<and> filters_ok (cpplint_state w') \<and>
     (let ls = cl_lines_without_raw_strings c
      in (guard_exempt ls \<longrightarrow> w' = w) \<and>
         (\<not> guard_exempt ls \<and>
            (first_arg ''#ifndef'' ls = [] \<or> first_arg ''#define'' ls = [] \<or>
             first_arg ''#ifndef'' ls \<noteq> first_arg ''#define'' ls) \<longrightarrow>
          Error filename (Some 0) ''build/header_guard'' 5
            (''No #ifndef header guard found, suggested CPP variable is: '' @ v) w = Inr w'))"
proof -
  obtain v where v: "GetHeaderGuardCPPVariable env g filename = Inr v"
    using assms(1) by (auto simp: GetHeaderGuardCPPVariable_def names_return_def Let_def)
      (metis py_bind.simps(2))
  obtain w' where w': "CheckForHeaderGuard env g Error filename c w = Inr w'" "filters_ok (cpplint_state w')"
    using printing_world.CheckForHeaderGuard_returns[OF assms, of filename c] by (auto simp: returns_def)
  show ?thesis
    using w' v CheckForHeaderGuard_exempt[of c env g Error filename w]
      CheckForHeaderGuard_not_exempt[OF _ refl v, of c Error w]
    unfolding Let_def by (intro exI[of _ v] exI[of _ w'] conjI impI) auto
qed

lemma CheckForHeaderGuard_missing_witness:
  "\<exists>v w'. GetHeaderGuardCPPVariable ex_env initial_world ''src/a.h'' = Inr v \<and>
     CheckForHeaderGuard ex_env initial_world Error ''src/a.h''
       \<lparr>cl_elided = [], cl_lines = [], cl_raw_lines = [], cl_num_lines = 0,
        cl_lines_without_raw_strings = [''#ifndef A_'', ''int i;'']\<rparr> initial_world = Inr w' \<and>
     Error ''src/a.h'' (Some 0) ''build/header_guard'' 5
            (''No #ifndef header guard found, suggested CPP variable is: '' @ v) initial_world = Inr w'"
proof -
  let ?c = "\<lparr>cl_elided = [], cl_lines = [], cl_raw_lines = [], cl_num_lines = 0,
        cl_lines_without_raw_strings = [''#ifndef A_'', ''int i;'']\<rparr>"
  have "\<not> guard_exempt [''#ifndef A_'', ''int i;'']" unfolding guard_exempt_def by code_simp
  moreover have "first_arg ''#define'' [''#ifndef A_'', ''int i;''] = []" by code_simp
  moreover have "names_return ex_env initial_world" by (rule ex_env_names_return)
  moreover have "filters_ok (cpplint_state initial_world)"
    by (simp add: filters_ok_def initial_world_def CppLintState_init_def DEFAULT_FILTERS_def signed_filter_def)
  ultimately show ?thesis
    using CheckForHeaderGuard_missing[of ex_env initial_world initial_world "''src/a.h''" ?c] by (auto simp: Let_def)
qed

text \<open>C35: A guard that is named as the style asks for and closed by an \<open>#endif\<close> with the macro in a line
  comment is accepted: nothing is reported, and at most a NOLINT comment on the last \<open>#endif\<close> line is
  noted.\<close>

theorem CheckForHeaderGuard_accepts:
  assumes "GetHeaderGuardCPPVariable env g filename = Inr v"
    and "\<not> guard_exempt ls" and "cl_lines_without_raw_strings c = ls"
    and "first_arg ''#ifndef'' ls = v" and "first_arg ''#define'' ls = v"
    and "find (\<lambda>l. startswith l ''#endif'') (rev ls) = Some e"
    and "Match (ENDIF_COMMENT v) e = Some m" and "group m 1 \<noteq> Some ''_''"
  shows "\<exists>i < length ls. CheckForHeaderGuard env g error filename c w =
    ParseNolintSuppressions error filename (ls ! i) (int i) w"
proof -
  have v: "v \<noteq> []" using assms(1) by (auto simp: GetHeaderGuardCPPVariable_def guard_of_path_def Let_def py_bind_eq_Inr)
  have ne: "ls \<noteq> []" using assms(6) by auto
  obtain i where i: "gs_endif_linenum (scan_guard ls) = int i" "i < length ls"
    using scan_guard_linenums[OF ne] by (metis nonneg_int_cases of_nat_less_iff)
  have "CheckForHeaderGuard env g error filename c w =
    py_bind (ParseNolintSuppressions error filename (ls ! i) (int i) w) (check_endif_comment error filename ls v (scan_guard ls))"
    using assms v i by (auto simp: CheckForHeaderGuard_def Let_def guard_exempt_def scan_guard_fields)
  also have "check_endif_comment error filename ls v (scan_guard ls) = Inr"
    using assms(6-8) by (auto simp: check_endif_comment_def scan_guard_fields)
  finally have "CheckForHeaderGuard env g error filename c w = ParseNolintSuppressions error filename (ls ! i) (int i) w"
    by (cases "ParseNolintSuppressions error filename (ls ! i) (int i) w") simp_all
  with i(2) show ?thesis by blast
qed

lemma CheckForHeaderGuard_accepts_witness:
  "\<exists>i < length [''#ifndef SRC_A_H_'', ''#define SRC_A_H_'', ''#endif  // SRC_A_H_''].
    CheckForHeaderGuard ex_env initial_world Error ''src/a.h''
      \<lparr>cl_elided = [], cl_lines = [], cl_raw_lines = [], cl_num_lines = 0,
       cl_lines_without_raw_strings = [''#ifndef SRC_A_H_'', ''#define SRC_A_H_'', ''#endif  // SRC_A_H_'']\<rparr> initial_world =
    ParseNolintSuppressions Error ''src/a.h''
      ([''#ifndef SRC_A_H_'', ''#define SRC_A_H_'', ''#endif  // SRC_A_H_''] ! i) (int i) initial_world"
proof (rule CheckForHeaderGuard_accepts)
  let ?ls = "[''#ifndef SRC_A_H_'', ''#define SRC_A_H_'', ''#endif  // SRC_A_H_'']"
  show "GetHeaderGuardCPPVariable ex_env initial_world ''src/a.h'' = Inr ''SRC_A_H_''" by code_simp
  show "\<not> guard_exempt ?ls" unfolding guard_exempt_def by code_simp
  show "first_arg ''#ifndef'' ?ls = ''SRC_A_H_''" "first_arg ''#define'' ?ls = ''SRC_A_H_''" by code_simp+
  show "find (\<lambda>l. startswith l ''#endif'') (rev ?ls) = Some ''#endif  // SRC_A_H_''" by code_simp
  show "Match (ENDIF_COMMENT ''SRC_A_H_'') ''#endif  // SRC_A_H_'' =
      Some (PM [] ''#endif  // SRC_A_H_'' [] [])" by code_simp
  show "group (PM [] ''#endif  // SRC_A_H_'' [] []) 1 \<noteq> Some ''_''" by code_simp
qed simp

text \<open>\<open>CheckForBadCharacters\<close> reports exactly the lines that contain a NUL byte, each once, in the order of the
  file.\<close>

theorem CheckForBadCharacters_reports:
  "CheckForBadCharacters record_error filename lines log =
     Inr (log @ [(filename, Some (int n), ''readability/nul'', 5, ''Line contains NUL byte.'').
       n \<leftarrow> [0..<length lines], CHR 0x00 \<in> set (lines ! n)])"
proof -
  have uni: "65533 \<notin> char_code ` set line" for line
  proof
    assume "65533 \<in> char_code ` set line"
    then obtain c :: char where "char_code c = 65533" by auto
    moreover have "char_code c < 256" using of_char_mod_256[of c, where 'a = int] pos_mod_bound[of 256 "char_code c"] by simp
    ultimately show False by simp
  qed
  have "py_fold (bad_characters_line record_error filename) (map (\<lambda>n. (int n, lines ! n)) ns) log =
     Inr (log @ [(filename, Some (int n), ''readability/nul'', 5, ''Line contains NUL byte.'').
       n \<leftarrow> ns, CHR 0x00 \<in> set (lines ! n)])" for ns
    by (induction ns arbitrary: log) (simp_all add: bad_characters_line_def uni py_when_def record_error_def)
  moreover have "py_enumerate lines = map (\<lambda>n. (int n, lines ! n)) [0..<length lines]"
    by (rule nth_equalityI) (simp_all add: py_enumerate_def nth_enumerate_eq)
  ultimately show ?thesis by (simp add: CheckForBadCharacters_def)
qed

text \<open>On the lines that the driver makes from a text (the text split at newlines, between two marker
  lines), \<open>CheckForNewlineAtEOF\<close> is silent exactly when the text is empty or ends with a newline, and
  otherwise it reports the last line of the text once.\<close>

theorem CheckForNewlineAtEOF_split:
  "CheckForNewlineAtEOF record_error filename (m1 # py_split t [newline_char] @ [m2]) log =
     Inr (log @ (if t = [] \<or> last t = newline_char then []
       else [(filename, Some (int (length (py_split t [newline_char]))), ''whitespace/ending_newline'', 5,
              ''Could not find a newline character at the end of the file.'')]))"
proof -
  let ?ps = "py_split t [newline_char]"
  have join: "py_join [newline_char] ?ps = t" by (rule py_join_py_split)
  have last_iff: "last ?ps = [] \<longleftrightarrow> t = [] \<or> last t = newline_char"
    using py_split_last_empty[of t newline_char] .
  have "(m1 # ?ps @ [m2]) ! (length (m1 # ?ps @ [m2]) - 2) = last ?ps"
    using py_split_nonempty[of t "[newline_char]"] by (simp add: nth_append last_conv_nth nth_Cons')
  moreover have "\<not> length (m1 # ?ps @ [m2]) < 3"
    using py_split_nonempty[of t "[newline_char]"] by (cases ?ps) auto
  ultimately show ?thesis
    by (simp add: CheckForNewlineAtEOF_def last_iff py_when_def record_error_def)
qed

end
