(* ===== verification/Nesting.thy ===== *)
theory Nesting
  imports Brackets File_Checks
begin

text \<open>
  The nesting of blocks: \<open>_BlockInfo\<close> and its subclasses, \<open>_PreprocessorInfo\<close> and
  \<open>NestingState\<close>.  The stack is a list whose head is the top.

  Blocks are Python objects.  The code compares them by identity only once (a check asks whether
  \<open>previous_stack_top\<close> is the block below the top), so a block carries the number under which it
  was created, and \<open>copy.deepcopy\<close> gives the copies new numbers.
\<close>

section \<open>Blocks\<close>

record class_fields =
  class_name :: string
  is_derived :: bool
  access :: string
  is_struct :: bool
  class_indent :: int
  last_line :: int

datatype block_kind =
    PlainBlock
  | ExternCInfo
  | ClassInfo class_fields
  | NamespaceInfo string

record block_info =
  ident :: nat
  starting_linenum :: int
  seen_open_brace :: bool
  open_parentheses :: int
  inline_asm :: asm_state
  check_namespace_indentation :: bool
  kind :: block_kind

definition BlockInfo_init :: "nat \<Rightarrow> int \<Rightarrow> bool \<Rightarrow> block_info" where
  "BlockInfo_init n linenum seen =
     \<lparr>ident = n, starting_linenum = linenum, seen_open_brace = seen, open_parentheses = 0,
      inline_asm = NO_ASM, check_namespace_indentation = False, kind = PlainBlock\<rparr>"

definition ExternCInfo_init :: "nat \<Rightarrow> int \<Rightarrow> block_info" where
  "ExternCInfo_init n linenum = (BlockInfo_init n linenum True)\<lparr>kind := ExternCInfo\<rparr>"

definition NamespaceInfo_init :: "nat \<Rightarrow> string option \<Rightarrow> int \<Rightarrow> block_info" where
  "NamespaceInfo_init n name linenum =
     (BlockInfo_init n linenum False)
       \<lparr>kind := NamespaceInfo (case name of Some s \<Rightarrow> s | None \<Rightarrow> []), check_namespace_indentation := True\<rparr>"

text \<open>The search for the end of a class: the first line at which the braces are balanced.\<close>

fun find_last_line :: "string list \<Rightarrow> int list \<Rightarrow> int \<Rightarrow> int py" where
  "find_last_line elided [] depth = Inr 0"
| "find_last_line elided (i # rest) depth =
     py_bind (py_nth elided i) (\<lambda>line.
       let depth' = depth + (py_count line ''{'' - py_count line ''}'')
       in if depth' = 0 then Inr i else find_last_line elided rest depth')"

definition ClassInfo_init :: "nat \<Rightarrow> string \<Rightarrow> string \<Rightarrow> cleansed_lines \<Rightarrow> int \<Rightarrow> block_info py" where
  "ClassInfo_init n name class_or_struct clean_lines linenum =
     py_bind (py_nth (cl_raw_lines clean_lines) linenum) (\<lambda>raw.
     py_bind (find_last_line (cl_elided clean_lines) (py_range linenum (NumLines clean_lines)) 0) (\<lambda>last.
       Inr ((BlockInfo_init n linenum False)
              \<lparr>check_namespace_indentation := True,
               kind := ClassInfo
                 \<lparr>class_name = name, is_derived = False,
                  access = (if class_or_struct = ''struct'' then ''public'' else ''private''),
                  is_struct = (class_or_struct = ''struct''),
                  class_indent = GetIndentLevel raw, last_line = last\<rparr>\<rparr>)))"

definition IsBlockInfo :: "block_info \<Rightarrow> bool" where
  "IsBlockInfo b = (kind b = PlainBlock)"

definition is_class :: "block_info \<Rightarrow> bool" where
  "is_class b = (case kind b of ClassInfo _ \<Rightarrow> True | _ \<Rightarrow> False)"

definition is_namespace :: "block_info \<Rightarrow> bool" where
  "is_namespace b = (case kind b of NamespaceInfo _ \<Rightarrow> True | _ \<Rightarrow> False)"

section \<open>The checks at the beginning and at the end of a block\<close>

definition BARE_COLON :: string where
  \<open>BARE_COLON = rx ''(^|[^:]):($|[^:])''\<close>

text \<open>\<open>CheckBegin\<close> does something for classes only: it notes a base class list.\<close>

definition CheckBegin :: "cleansed_lines \<Rightarrow> int \<Rightarrow> block_info \<Rightarrow> block_info py" where
  "CheckBegin clean_lines linenum b =
     (case kind b of
        ClassInfo ci \<Rightarrow>
          py_bind (py_nth (cl_elided clean_lines) linenum) (\<lambda>line.
            Inr (if Finds BARE_COLON line then b\<lparr>kind := ClassInfo (ci\<lparr>is_derived := True\<rparr>)\<rparr> else b))
      | _ \<Rightarrow> Inr b)"

definition DISALLOW_IN_CLASS :: "string \<Rightarrow> string" where
  \<open>DISALLOW_IN_CLASS name =
     rx ''`b(DISALLOW_COPY_AND_ASSIGN|DISALLOW_IMPLICIT_CONSTRUCTORS)`('' @ name @ rx ''`)''\<close>

definition ONLY_SPACES :: string where
  \<open>ONLY_SPACES = rx ''^`s*$''\<close>

definition INDENTED_BRACE :: string where
  \<open>INDENTED_BRACE = rx ''^( *)`}''\<close>

definition class_parent :: "class_fields \<Rightarrow> string" where
  "class_parent ci = (if is_struct ci then ''struct '' else ''class '') @ class_name ci"

fun disallow_loop :: "'s error_fn \<Rightarrow> string \<Rightarrow> string list \<Rightarrow> string \<Rightarrow> int list \<Rightarrow> bool \<Rightarrow> 's \<Rightarrow> 's py" where
  "disallow_loop error filename elided name [] seen s = Inr s"
| "disallow_loop error filename elided name (i # rest) seen s =
     py_bind (py_nth elided i) (\<lambda>line.
       case Search (DISALLOW_IN_CLASS name) line of
         Some m \<Rightarrow>
           py_when seen
             (error filename (Some i) ''readability/constructors'' 3
                (grp m 1 @ '' should be the last thing in the class'')) s
       | None \<Rightarrow> disallow_loop error filename elided name rest (seen \<or> \<not> Matches ONLY_SPACES line) s)"

definition ClassInfo_CheckEnd ::
  "'s error_fn \<Rightarrow> string \<Rightarrow> cleansed_lines \<Rightarrow> int \<Rightarrow> block_info \<Rightarrow> class_fields \<Rightarrow> 's \<Rightarrow> 's py" where
  "ClassInfo_CheckEnd error filename clean_lines linenum b ci s =
     py_bind (disallow_loop error filename (cl_elided clean_lines) (class_name ci)
                (py_range_down (linenum - 1) (starting_linenum b)) False s) (\<lambda>s1.
     py_bind (py_nth (cl_elided clean_lines) linenum) (\<lambda>line.
       case Match INDENTED_BRACE line of
         None \<Rightarrow> Inr s1
       | Some indent \<Rightarrow>
           py_when (int (length (grp indent 1)) \<noteq> class_indent ci)
             (error filename (Some linenum) ''whitespace/indent'' 3
                (''Closing brace should be aligned with beginning of '' @ class_parent ci)) s1))"

definition NAMESPACE_END :: string where
  \<open>NAMESPACE_END = rx ''^`s*};*`s*(//|/`*).*`bnamespace`b''\<close>

definition NAMED_NAMESPACE_END :: "string \<Rightarrow> string" where
  \<open>NAMED_NAMESPACE_END name =
     rx ''^`s*};*`s*(//|/`*).*`bnamespace`s+'' @ re_escape name @ rx ''[`*/`.```s]*$''\<close>

definition ANONYMOUS_NAMESPACE_END :: string where
  \<open>ANONYMOUS_NAMESPACE_END = rx ''^`s*};*`s*(//|/`*).*`bnamespace[`*/`.```s]*$''\<close>

definition ANONYMOUS_NAMESPACE_TEXT :: string where
  \<open>ANONYMOUS_NAMESPACE_TEXT = rx ''^`s*}.*`b(namespace anonymous|anonymous namespace)`b''\<close>

definition NAMED_MESSAGE :: "string \<Rightarrow> string" where
  \<open>NAMED_MESSAGE name = ''Namespace should be terminated with "// namespace '' @ name @ ''"''\<close>

definition ANONYMOUS_MESSAGE :: "bool \<Rightarrow> string" where
  \<open>ANONYMOUS_MESSAGE mentioned =
     ''Anonymous namespace should be terminated with "// namespace"'' @
     (if mentioned then '' or "// anonymous namespace"'' else [])\<close>

definition NamespaceInfo_CheckEnd ::
  "'s error_fn \<Rightarrow> string \<Rightarrow> cleansed_lines \<Rightarrow> int \<Rightarrow> block_info \<Rightarrow> string \<Rightarrow> 's \<Rightarrow> 's py" where
  "NamespaceInfo_CheckEnd error filename clean_lines linenum b name s =
     py_bind (py_nth (cl_raw_lines clean_lines) linenum) (\<lambda>line.
       if linenum - starting_linenum b < 10 \<and> \<not> Matches NAMESPACE_END line then Inr s
       else if name \<noteq> [] then
         py_when (\<not> Matches (NAMED_NAMESPACE_END name) line)
           (error filename (Some linenum) ''readability/namespace'' 5 (NAMED_MESSAGE name)) s
       else if \<not> Matches ANONYMOUS_NAMESPACE_END line then
         error filename (Some linenum) ''readability/namespace'' 5
           (ANONYMOUS_MESSAGE (Matches ANONYMOUS_NAMESPACE_TEXT line)) s
       else Inr s)"

definition CheckEnd :: "'s error_fn \<Rightarrow> string \<Rightarrow> cleansed_lines \<Rightarrow> int \<Rightarrow> block_info \<Rightarrow> 's \<Rightarrow> 's py" where
  "CheckEnd error filename clean_lines linenum b s =
     (case kind b of
        ClassInfo ci \<Rightarrow> ClassInfo_CheckEnd error filename clean_lines linenum b ci s
      | NamespaceInfo name \<Rightarrow> NamespaceInfo_CheckEnd error filename clean_lines linenum b name s
      | _ \<Rightarrow> Inr s)"

section \<open>The nesting state\<close>

record preprocessor_info =
  stack_before_if :: "block_info list"
  stack_before_else :: "block_info list"
  seen_else :: bool

text \<open>\<open>previous_stack_top\<close> starts as an empty list in the code, which counts as absent as \<open>None\<close> does.\<close>

record nesting_state =
  stack :: "block_info list"
  previous_stack_top :: "block_info option"
  pp_stack :: "preprocessor_info list"
  next_ident :: nat

definition NestingState_init :: nesting_state where
  "NestingState_init = \<lparr>stack = [], previous_stack_top = None, pp_stack = [], next_ident = 0\<rparr>"

definition SeenOpenBrace :: "nesting_state \<Rightarrow> bool" where
  "SeenOpenBrace ns = (stack ns = [] \<or> seen_open_brace (hd (stack ns)))"

definition InNamespaceBody :: "nesting_state \<Rightarrow> bool" where
  "InNamespaceBody ns = (stack ns \<noteq> [] \<and> is_namespace (hd (stack ns)))"

definition InExternC :: "nesting_state \<Rightarrow> bool" where
  "InExternC ns = (stack ns \<noteq> [] \<and> kind (hd (stack ns)) = ExternCInfo)"

definition InClassDeclaration :: "nesting_state \<Rightarrow> bool" where
  "InClassDeclaration ns = (stack ns \<noteq> [] \<and> is_class (hd (stack ns)))"

definition InAsmBlock :: "nesting_state \<Rightarrow> bool" where
  "InAsmBlock ns = (stack ns \<noteq> [] \<and> inline_asm (hd (stack ns)) \<noteq> NO_ASM)"

definition InnermostClass :: "nesting_state \<Rightarrow> block_info option" where
  "InnermostClass ns = find is_class (stack ns)"

text \<open>\<open>copy.deepcopy\<close> of a stack.\<close>

fun renumber :: "nat \<Rightarrow> block_info list \<Rightarrow> block_info list" where
  "renumber n [] = []"
| "renumber n (b # bs) = b\<lparr>ident := n\<rparr> # renumber (n + 1) bs"

definition deepcopy :: "block_info list \<Rightarrow> nesting_state \<Rightarrow> block_info list \<times> nesting_state" where
  "deepcopy bs ns = (renumber (next_ident ns) bs, ns\<lparr>next_ident := next_ident ns + length bs\<rparr>)"

definition PP_IF :: string where
  \<open>PP_IF = rx ''^`s*#`s*(if|ifdef|ifndef)`b''\<close>

definition PP_ELSE :: string where
  \<open>PP_ELSE = rx ''^`s*#`s*(else|elif)`b''\<close>

definition PP_ENDIF :: string where
  \<open>PP_ENDIF = rx ''^`s*#`s*endif`b''\<close>

definition push_if :: "nesting_state \<Rightarrow> nesting_state" where
  "push_if ns =
     (let (saved, ns1) = deepcopy (stack ns) ns
      in ns1\<lparr>pp_stack := \<lparr>stack_before_if = saved, stack_before_else = [], seen_else = False\<rparr> # pp_stack ns\<rparr>)"

definition restore_else :: "nesting_state \<Rightarrow> nesting_state" where
  "restore_else ns =
     (case pp_stack ns of
        [] \<Rightarrow> ns
      | pp # pps \<Rightarrow>
          let ns1 = (if \<not> seen_else pp then
                       (let (saved, ns') = deepcopy (stack ns) ns
                        in ns'\<lparr>pp_stack := pp\<lparr>seen_else := True, stack_before_else := saved\<rparr> # pps\<rparr>)
                     else ns);
              (copied, ns2) = deepcopy (stack_before_if pp) ns1
          in ns2\<lparr>stack := copied\<rparr>)"

definition pop_endif :: "nesting_state \<Rightarrow> nesting_state" where
  "pop_endif ns =
     (case pp_stack ns of
        [] \<Rightarrow> ns
      | pp # pps \<Rightarrow>
          (if seen_else pp then ns\<lparr>stack := stack_before_else pp\<rparr> else ns)\<lparr>pp_stack := pps\<rparr>)"

definition UpdatePreprocessor :: "string \<Rightarrow> nesting_state \<Rightarrow> nesting_state" where
  "UpdatePreprocessor line ns =
     (if Matches PP_IF line then push_if ns
      else if Matches PP_ELSE line then restore_else ns
      else if Matches PP_ENDIF line then pop_endif ns
      else ns)"

section \<open>Template argument lists\<close>

definition TEMPLATE_TOKEN :: string where
  \<open>TEMPLATE_TOKEN = rx ''^[^{};=`[`]`.<>]*(.)''\<close>

lemma TEMPLATE_TOKEN_progress:
  assumes "Match TEMPLATE_TOKEN s = Some m"
  shows "0 < length (grp m 0)" and "s \<noteq> []"
proof -
  obtain r where r: "re_compile TEMPLATE_TOKEN = Some r" "0 < min_len r"
  proof -
    have "case re_compile TEMPLATE_TOKEN of None \<Rightarrow> False | Some r \<Rightarrow> 0 < min_len r" by code_simp
    then show thesis using that by (cases "re_compile TEMPLATE_TOKEN") auto
  qed
  from match_min_len[OF r(1) assms] r(2) show "0 < length (grp m 0)" by linarith
  with Match_split[OF assms] show "s \<noteq> []" by (auto simp: grp_def group_def)
qed

text \<open>The search moves to a later line or to a later position of the same line.\<close>

function InTemplateArgumentList :: "cleansed_lines \<Rightarrow> int \<Rightarrow> int \<Rightarrow> bool py" where
  "InTemplateArgumentList clean_lines linenum pos =
     (if linenum < NumLines clean_lines then
        (case py_nth (cl_elided clean_lines) linenum of
           Inl e \<Rightarrow> Inl e
         | Inr line \<Rightarrow>
             (case Match TEMPLATE_TOKEN (py_from line pos) of
                None \<Rightarrow> InTemplateArgumentList clean_lines (linenum + 1) 0
              | Some m \<Rightarrow>
                  let token = grp m 1; pos1 = pos + int (length (grp m 0))
                  in if token \<in> {''{'', ''}'', '';''} then Inr False
                     else if token \<in> {''>'', ''='', ''['', '']'', ''.''} then Inr True
                     else if token \<noteq> ''<'' then
                       (if pos1 + 1 \<ge> int (length line) then InTemplateArgumentList clean_lines (linenum + 1) 0
                        else InTemplateArgumentList clean_lines linenum (pos1 + 1))
                     else
                       (case CloseExpression clean_lines linenum (pos1 - 1) of
                          Inl e \<Rightarrow> Inl e
                        | Inr (_, end_line, end_pos) \<Rightarrow>
                            if end_pos < 0 then Inr False
                            else InTemplateArgumentList clean_lines end_line end_pos)))
      else Inr False)"
  by pat_completeness auto
termination
proof (relation "measures [\<lambda>(c, l, p). nat (NumLines c - l),
    \<lambda>(c, l, p). nat ((case py_nth (cl_elided c) l of Inr line \<Rightarrow> int (length line) | Inl _ \<Rightarrow> 0) - p)]", goal_cases)
  case (4 c l p line m token pos1)
  from TEMPLATE_TOKEN_progress[OF 4(3)] 4(5) have "p < pos1" by simp
  with 4(1,2,8,9) show ?case by simp
next
  case (5 c l p line m token pos1 res x y e_line e_pos)
  have p: "p < pos1" using TEMPLATE_TOKEN_progress(1)[OF 5(3)] 5(5) by simp
  have len: "p < int (length line)"
  proof (rule ccontr)
    assume "\<not> p < int (length line)"
    then have "py_from line p = []" using py_from_nonneg[of p line] by simp
    with TEMPLATE_TOKEN_progress(2)[OF 5(3)] show False by simp
  qed
  have ce: "CloseExpression c l (pos1 - 1) = Inr (x, e_line, e_pos)" and pos: "e_pos > -1" using 5 by simp_all
  have "l < e_line \<or> e_line = l \<and> p < e_pos" using CloseExpression_end[OF ce pos] p by auto
  with 5(1,2) len show ?case by auto
qed auto

declare InTemplateArgumentList.simps [simp del]

section \<open>\<open>Update\<close>\<close>

definition push_block :: "block_info \<Rightarrow> nesting_state \<Rightarrow> nesting_state" where
  "push_block b ns = ns\<lparr>stack := b # stack ns, next_ident := next_ident ns + 1\<rparr>"

text \<open>An assignment to a field of the block on the top of the stack, which changes it in place.\<close>

definition update_top :: "(block_info \<Rightarrow> block_info) \<Rightarrow> nesting_state \<Rightarrow> nesting_state" where
  "update_top f ns = (case stack ns of [] \<Rightarrow> ns | b # bs \<Rightarrow> ns\<lparr>stack := f b # bs\<rparr>)"

definition MATCH_ASM :: string where
  \<open>MATCH_ASM = rx ''^`s*(?:asm|_asm|__asm|__asm__)(?:`s+(volatile|__volatile__))?`s*[{(]''\<close>

text \<open>The counting of parentheses and the start and the end of inline assembly.\<close>

definition count_parentheses :: "string \<Rightarrow> block_info \<Rightarrow> block_info" where
  "count_parentheses line b =
     (let depth_change = py_count line ''('' - py_count line '')'';
          open_parens = open_parentheses b + depth_change;
          asm = (if inline_asm b = NO_ASM \<or> inline_asm b = END_ASM then
                   (if depth_change \<noteq> 0 \<and> open_parens = 1 \<and> Matches MATCH_ASM line then INSIDE_ASM else NO_ASM)
                 else if inline_asm b = INSIDE_ASM \<and> open_parens = 0 then END_ASM
                 else inline_asm b)
      in b\<lparr>open_parentheses := open_parens, inline_asm := asm\<rparr>)"

definition NAMESPACE_DECL :: string where
  \<open>NAMESPACE_DECL = rx ''^`s*namespace`b`s*([:`w]+)?(.*)$''\<close>

lemma NAMESPACE_DECL_ends: "ends_in_group NAMESPACE_DECL 2"
  by code_simp

lemma NAMESPACE_DECL_shorter: "Match NAMESPACE_DECL line = Some m \<Longrightarrow> length (grp m 2) < length line"
  by (rule ends_in_group_shorter[OF NAMESPACE_DECL_ends])

text \<open>The namespace declarations at the beginning of the line; the result is the rest of the line.\<close>

function consume_namespaces :: "int \<Rightarrow> string \<Rightarrow> nesting_state \<Rightarrow> string \<times> nesting_state" where
  "consume_namespaces linenum line ns =
     (case Match NAMESPACE_DECL line of
        None \<Rightarrow> (line, ns)
      | Some m \<Rightarrow>
          let new_namespace = NamespaceInfo_init (next_ident ns) (group m 1) linenum;
              rest = grp m 2
          in if py_find rest ''{'' \<noteq> -1
             then consume_namespaces linenum (py_from rest (py_find rest ''{'' + 1))
                    (push_block (new_namespace\<lparr>seen_open_brace := True\<rparr>) ns)
             else consume_namespaces linenum rest (push_block new_namespace ns))"
  by pat_completeness auto
termination
proof (relation "measure (\<lambda>(l, line, ns). length line)", goal_cases)
  case (2 l line ns m new rest)
  have "0 \<le> py_find rest ''{'' + 1" using py_find_ge[of rest "''{''"] by simp
  then have "length (py_from rest (py_find rest ''{'' + 1)) \<le> length rest" by (simp add: py_from_nonneg)
  with NAMESPACE_DECL_shorter[OF 2(1)] 2(3) show ?case by simp
next
  case (3 l line ns m new rest)
  with NAMESPACE_DECL_shorter[OF 3(1)] show ?case by simp
qed simp

declare consume_namespaces.simps [simp del]

definition CLASS_DECL :: string where
  \<open>CLASS_DECL =
     rx (''^(`s*(?:template`s*<[`w`s<>,:=]*>`s*)?'' @
         ''(class|struct)`s+(?:[A-Z_]+`s+)*(`w+(?:::`w+)*))'' @
         ''(.*)$'')\<close>

text \<open>A class declaration in what is left of the line.\<close>

definition consume_class :: "cleansed_lines \<Rightarrow> int \<Rightarrow> string \<Rightarrow> nesting_state \<Rightarrow> (string \<times> nesting_state) py" where
  "consume_class clean_lines linenum line ns =
     (case Match CLASS_DECL line of
        None \<Rightarrow> Inr (line, ns)
      | Some m \<Rightarrow>
          if stack ns = [] \<or> open_parentheses (hd (stack ns)) = 0 then
            py_bind (InTemplateArgumentList clean_lines linenum (int (length (grp m 1)))) (\<lambda>in_template.
              if in_template then Inr (line, ns)
              else
                py_bind (ClassInfo_init (next_ident ns) (grp m 3) (grp m 2) clean_lines linenum) (\<lambda>b.
                  Inr (grp m 4, push_block b ns)))
          else Inr (line, ns))"

definition check_begin :: "cleansed_lines \<Rightarrow> int \<Rightarrow> nesting_state \<Rightarrow> nesting_state py" where
  "check_begin clean_lines linenum ns =
     (case stack ns of
        b # bs \<Rightarrow>
          if \<not> seen_open_brace b then
            py_bind (CheckBegin clean_lines linenum b) (\<lambda>b'. Inr (ns\<lparr>stack := b' # bs\<rparr>))
          else Inr ns
      | [] \<Rightarrow> Inr ns)"

definition ACCESS_KEYWORD :: string where
  \<open>ACCESS_KEYWORD =
     rx (''^(.*)`b(public|private|protected|signals)(`s+(?:slots`s*)?)?'' @
         '':(?:[^:]|$)'')\<close>

text \<open>The access keywords of a class, and their indentation.\<close>

definition check_access ::
  "'s error_fn \<Rightarrow> string \<Rightarrow> int \<Rightarrow> string \<Rightarrow> nesting_state \<Rightarrow> 's \<Rightarrow> (nesting_state \<times> 's) py" where
  "check_access error filename linenum line ns s =
     (case stack ns of
        [] \<Rightarrow> Inr (ns, s)
      | b # bs \<Rightarrow>
          (case kind b of
             ClassInfo ci \<Rightarrow>
               (case Match ACCESS_KEYWORD line of
                  None \<Rightarrow> Inr (ns, s)
                | Some m \<Rightarrow>
                    let indent = grp m 1;
                        ns' = ns\<lparr>stack := b\<lparr>kind := ClassInfo (ci\<lparr>access := grp m 2\<rparr>)\<rparr> # bs\<rparr>
                    in py_bind
                         (py_when (int (length indent) \<noteq> class_indent ci + 1 \<and> Matches ONLY_SPACES indent)
                           (error filename (Some linenum) ''whitespace/indent'' 3
                              (grp m 2 @ grp m 3 @ '': should be indented +1 space inside '' @ class_parent ci)) s)
                         (\<lambda>s'. Inr (ns', s')))
           | _ \<Rightarrow> Inr (ns, s)))"

definition BRACE_TOKEN :: string where
  \<open>BRACE_TOKEN = rx ''^[^{;)}]*([{;)}])(.*)$''\<close>

lemma BRACE_TOKEN_ends: "ends_in_group BRACE_TOKEN 2"
  by code_simp

lemma BRACE_TOKEN_shorter: "Match BRACE_TOKEN line = Some m \<Longrightarrow> length (grp m 2) < length line"
  by (rule ends_in_group_shorter[OF BRACE_TOKEN_ends])

definition EXTERN_C :: string where
  \<open>EXTERN_C = rx ''^extern`s*"[^"]*"`s*`{''\<close>

text \<open>What an opening brace does to the stack.\<close>

definition open_brace :: "int \<Rightarrow> string \<Rightarrow> nesting_state \<Rightarrow> nesting_state" where
  "open_brace linenum line ns =
     (if \<not> SeenOpenBrace ns then update_top (seen_open_brace_update (\<lambda>_. True)) ns
      else if Matches EXTERN_C line then push_block (ExternCInfo_init (next_ident ns) linenum) ns
      else push_block ((BlockInfo_init (next_ident ns) linenum True)
             \<lparr>inline_asm := (if Matches MATCH_ASM line then BLOCK_ASM else NO_ASM)\<rparr>) ns)"

text \<open>One token; the line is the rest from which the token was taken.\<close>

definition brace_step ::
  "'s error_fn \<Rightarrow> string \<Rightarrow> cleansed_lines \<Rightarrow> int \<Rightarrow> string \<Rightarrow> string \<Rightarrow> nesting_state \<Rightarrow> 's
    \<Rightarrow> (nesting_state \<times> 's) py" where
  "brace_step error filename clean_lines linenum line token ns s =
     (if token = ''{'' then Inr (open_brace linenum line ns, s)
      else if token = '';'' \<or> token = '')'' then
        Inr (if \<not> SeenOpenBrace ns then ns\<lparr>stack := tl (stack ns)\<rparr> else ns, s)
      else
        (case stack ns of
           [] \<Rightarrow> Inr (ns, s)
         | b # bs \<Rightarrow>
             py_bind (CheckEnd error filename clean_lines linenum b s) (\<lambda>s'. Inr (ns\<lparr>stack := bs\<rparr>, s'))))"

function consume_braces ::
  "'s error_fn \<Rightarrow> string \<Rightarrow> cleansed_lines \<Rightarrow> int \<Rightarrow> string \<Rightarrow> nesting_state \<Rightarrow> 's
    \<Rightarrow> (nesting_state \<times> 's) py" where
  "consume_braces error filename clean_lines linenum line ns s =
     (case Match BRACE_TOKEN line of
        None \<Rightarrow> Inr (ns, s)
      | Some m \<Rightarrow>
          py_bind (brace_step error filename clean_lines linenum line (grp m 1) ns s) (\<lambda>(ns', s').
            consume_braces error filename clean_lines linenum (grp m 2) ns' s'))"
  by pat_completeness auto
termination
  by (relation "measure (\<lambda>(e, f, c, l, line, ns, s). length line)") (auto dest: BRACE_TOKEN_shorter)

declare consume_braces.simps [simp del]

definition Update ::
  "'s error_fn \<Rightarrow> string \<Rightarrow> cleansed_lines \<Rightarrow> int \<Rightarrow> nesting_state \<Rightarrow> 's \<Rightarrow> (nesting_state \<times> 's) py" where
  "Update error filename clean_lines linenum ns s =
     py_bind (py_nth (cl_elided clean_lines) linenum) (\<lambda>line.
       let ns1 = ns\<lparr>previous_stack_top := (case stack ns of [] \<Rightarrow> None | b # _ \<Rightarrow> Some b)\<rparr>;
           ns2 = UpdatePreprocessor line ns1;
           ns3 = update_top (count_parentheses line) ns2;
           (line4, ns4) = consume_namespaces linenum line ns3
       in py_bind (consume_class clean_lines linenum line4 ns4) (\<lambda>(line5, ns5).
          py_bind (check_begin clean_lines linenum ns5) (\<lambda>ns6.
          py_bind (check_access error filename linenum line5 ns6 s) (\<lambda>(ns7, s7).
            consume_braces error filename clean_lines linenum line5 ns7 s7))))"

section \<open>\<open>CheckCompletedBlocks\<close>\<close>

definition incomplete_block :: "'s error_fn \<Rightarrow> string \<Rightarrow> block_info \<Rightarrow> 's \<Rightarrow> 's py" where
  "incomplete_block error filename b s =
     (case kind b of
        ClassInfo ci \<Rightarrow>
          error filename (Some (starting_linenum b)) ''build/class'' 5
            (''Failed to find complete declaration of class '' @ class_name ci) s
      | NamespaceInfo name \<Rightarrow>
          error filename (Some (starting_linenum b)) ''build/namespaces'' 5
            (''Failed to find complete declaration of namespace '' @ name) s
      | _ \<Rightarrow> Inr s)"

text \<open>The code walks the stack from its bottom.\<close>

definition CheckCompletedBlocks :: "'s error_fn \<Rightarrow> string \<Rightarrow> nesting_state \<Rightarrow> 's \<Rightarrow> 's py" where
  "CheckCompletedBlocks error filename ns s = py_fold (incomplete_block error filename) (rev (stack ns)) s"

section \<open>Facts about blocks and their checks\<close>

text \<open>Block numbers are given out once, and a block starts at a line of the file, below its length \<open>h\<close>.\<close>

definition block_ok :: "int \<Rightarrow> nat \<Rightarrow> block_info \<Rightarrow> bool" where
  "block_ok h n b \<longleftrightarrow> ident b < n \<and> 0 \<le> starting_linenum b \<and> starting_linenum b < h"

definition stack_fine :: "int \<Rightarrow> nat \<Rightarrow> block_info list \<Rightarrow> bool" where
  "stack_fine h n bs \<longleftrightarrow> distinct (map ident bs) \<and> list_all (block_ok h n) bs"

definition pp_fine :: "int \<Rightarrow> nat \<Rightarrow> preprocessor_info \<Rightarrow> bool" where
  "pp_fine h n pp \<longleftrightarrow> stack_fine h n (stack_before_if pp) \<and> stack_fine h n (stack_before_else pp)"

definition nest_ok :: "int \<Rightarrow> nesting_state \<Rightarrow> bool" where
  "nest_ok h ns \<longleftrightarrow> stack_fine h (next_ident ns) (stack ns) \<and> list_all (pp_fine h (next_ident ns)) (pp_stack ns) \<and>
     (\<forall>b \<in> set_option (previous_stack_top ns). block_ok h (next_ident ns) b)"

named_theorems nest_intros \<open>preservation of the invariant of the nesting state\<close>

lemma block_ok_mono: "block_ok h n b \<Longrightarrow> n \<le> m \<Longrightarrow> block_ok h m b"
  by (simp add: block_ok_def)

lemma stack_fine_mono: "stack_fine h n bs \<Longrightarrow> n \<le> m \<Longrightarrow> stack_fine h m bs"
  by (auto simp: stack_fine_def list_all_iff intro: block_ok_mono)

lemma pp_fine_mono: "pp_fine h n pp \<Longrightarrow> n \<le> m \<Longrightarrow> pp_fine h m pp"
  by (auto simp: pp_fine_def intro: stack_fine_mono)

lemma pps_fine_mono: "list_all (pp_fine h n) pps \<Longrightarrow> n \<le> m \<Longrightarrow> list_all (pp_fine h m) pps"
  by (auto simp: list_all_iff intro: pp_fine_mono)

lemma stack_fine_Nil [simp]: "stack_fine h n []"
  by (simp add: stack_fine_def)

lemma stack_fine_Cons: "stack_fine h n (b # bs) \<longleftrightarrow> block_ok h n b \<and> ident b \<notin> ident ` set bs \<and> stack_fine h n bs"
  by (auto simp: stack_fine_def)

lemma stack_fine_new: "stack_fine h n bs \<Longrightarrow> n \<notin> ident ` set bs"
  by (auto simp: stack_fine_def list_all_iff block_ok_def)

lemma renumber_fine:
  "list_all (\<lambda>b. 0 \<le> starting_linenum b \<and> starting_linenum b < h) bs \<Longrightarrow>
   stack_fine h (n + length bs) (renumber n bs) \<and> (\<forall>b \<in> set (renumber n bs). n \<le> ident b)"
proof (induction bs arbitrary: n)
  case (Cons b bs)
  from Cons.IH[of "Suc n"] Cons.prems show ?case by (fastforce simp: stack_fine_Cons block_ok_def)
qed simp

lemma stack_fine_starts: "stack_fine h n bs \<Longrightarrow> list_all (\<lambda>b. 0 \<le> starting_linenum b \<and> starting_linenum b < h) bs"
  by (auto simp: stack_fine_def list_all_iff block_ok_def)

lemma nest_ok_push [nest_intros]:
  "nest_ok h ns \<Longrightarrow> ident b = next_ident ns \<Longrightarrow> 0 \<le> starting_linenum b \<Longrightarrow> starting_linenum b < h \<Longrightarrow> nest_ok h (push_block b ns)"
  by (auto simp: nest_ok_def push_block_def stack_fine_Cons block_ok_def split: option.splits
      intro: stack_fine_mono pps_fine_mono dest: stack_fine_new)

lemma nest_ok_stack: "nest_ok h ns \<Longrightarrow> stack_fine h (next_ident ns) bs \<Longrightarrow> nest_ok h (ns\<lparr>stack := bs\<rparr>)"
  by (simp add: nest_ok_def)

lemma nest_ok_change [nest_intros]:
  "nest_ok h ns \<Longrightarrow> stack ns = b # bs \<Longrightarrow> ident b' = ident b \<Longrightarrow> starting_linenum b' = starting_linenum b \<Longrightarrow>
   nest_ok h (ns\<lparr>stack := b' # bs\<rparr>)"
  by (simp add: nest_ok_def stack_fine_Cons block_ok_def)

lemma nest_ok_pop [nest_intros]: "nest_ok h ns \<Longrightarrow> nest_ok h (ns\<lparr>stack := tl (stack ns)\<rparr>)"
  by (cases "stack ns") (auto simp: nest_ok_def stack_fine_Cons)

lemma nest_ok_update_top [nest_intros]:
  "nest_ok h ns \<Longrightarrow> (\<And>b. ident (f b) = ident b \<and> starting_linenum (f b) = starting_linenum b) \<Longrightarrow> nest_ok h (update_top f ns)"
  unfolding update_top_def by (auto split: list.split intro: nest_ok_change)

lemma nest_ok_push_if: "nest_ok h ns \<Longrightarrow> nest_ok h (push_if ns)"
  using renumber_fine[OF stack_fine_starts, of h "next_ident ns" "stack ns" "next_ident ns"]
  by (auto simp: nest_ok_def push_if_def deepcopy_def pp_fine_def split: option.splits
      intro: stack_fine_mono pps_fine_mono block_ok_mono)

lemma nest_ok_restore_else: "nest_ok h ns \<Longrightarrow> nest_ok h (restore_else ns)"
proof (cases "pp_stack ns")
  case (Cons pp pps)
  assume ok: "nest_ok h ns"
  then have f: "stack_fine h (next_ident ns) (stack ns)" "stack_fine h (next_ident ns) (stack_before_if pp)"
    "stack_fine h (next_ident ns) (stack_before_else pp)" "list_all (pp_fine h (next_ident ns)) pps"
    by (auto simp: nest_ok_def Cons pp_fine_def)
  have r: "stack_fine h m (renumber k (stack ns))" if "k + length (stack ns) \<le> m" for k m
    using renumber_fine[OF stack_fine_starts[OF f(1)]] that by (blast intro: stack_fine_mono)
  have r': "stack_fine h m (renumber k (stack_before_if pp))" if "k + length (stack_before_if pp) \<le> m" for k m
    using renumber_fine[OF stack_fine_starts[OF f(2)]] that by (blast intro: stack_fine_mono)
  show ?thesis
    using ok f by (auto simp: restore_else_def Cons deepcopy_def nest_ok_def pp_fine_def Let_def split: option.splits
      intro: stack_fine_mono pps_fine_mono block_ok_mono r r')
qed (simp add: restore_else_def)

lemma nest_ok_pop_endif: "nest_ok h ns \<Longrightarrow> nest_ok h (pop_endif ns)"
  by (auto simp: pop_endif_def nest_ok_def pp_fine_def split: list.splits)

lemma nest_ok_UpdatePreprocessor [nest_intros]: "nest_ok h ns \<Longrightarrow> nest_ok h (UpdatePreprocessor line ns)"
  by (simp add: UpdatePreprocessor_def nest_ok_push_if nest_ok_restore_else nest_ok_pop_endif)

lemma nest_ok_consume_namespaces [nest_intros]:
  "0 \<le> linenum \<Longrightarrow> linenum < h \<Longrightarrow> nest_ok h ns \<Longrightarrow> nest_ok h (snd (consume_namespaces linenum line ns))"
proof (induction linenum line ns rule: consume_namespaces.induct)
  case (1 linenum line ns)
  show ?case
  proof (cases "Match NAMESPACE_DECL line")
    case None
    then show ?thesis using 1 by (simp add: consume_namespaces.simps)
  next
    case (Some m)
    let ?b = "NamespaceInfo_init (next_ident ns) (group m 1) linenum"
    have "nest_ok h (push_block ?b ns)" "nest_ok h (push_block (?b\<lparr>seen_open_brace := True\<rparr>) ns)"
      using 1(3-5) by (auto simp: NamespaceInfo_init_def BlockInfo_init_def intro!: nest_intros)
    then show ?thesis
      using 1(1)[OF Some refl refl] 1(2)[OF Some refl refl] 1(3,4)
      by (subst consume_namespaces.simps) (simp add: Some Let_def)
  qed
qed

lemma nest_ok_open_brace [nest_intros]: "0 \<le> linenum \<Longrightarrow> linenum < h \<Longrightarrow> nest_ok h ns \<Longrightarrow> nest_ok h (open_brace linenum line ns)"
  by (auto simp: open_brace_def ExternCInfo_init_def BlockInfo_init_def intro!: nest_intros)
section \<open>The operations return\<close>

lemma find_last_line_returns:
  "(\<And>i. i \<in> set is \<Longrightarrow> 0 \<le> i \<and> i < int (length ls)) \<Longrightarrow> returns (\<lambda>_. True) (find_last_line ls is d)"
proof (induction "is" arbitrary: d)
  case (Cons i "is")
  then show ?case by (auto simp: py_nth_in_range Let_def)
qed simp

lemma ClassInfo_init_returns:
  "views_ok c \<Longrightarrow> 0 \<le> linenum \<Longrightarrow> linenum < NumLines c \<Longrightarrow>
   returns (\<lambda>b. ident b = n \<and> starting_linenum b = linenum) (ClassInfo_init n name kw c linenum)"
  unfolding ClassInfo_init_def
  by (rule returns_bind[OF returns_nth])
     (auto simp: views_ok_def NumLines_def set_py_range BlockInfo_init_def
       intro!: returns_bind[OF find_last_line_returns])

lemma InTemplate_returns:
  "views_ok c \<Longrightarrow> 0 \<le> linenum \<Longrightarrow> 0 \<le> pos \<Longrightarrow> returns (\<lambda>_. True) (InTemplateArgumentList c linenum pos)"
proof (induction c linenum pos rule: InTemplateArgumentList.induct)
  case (1 c l p)
  show ?case
  proof (cases "l < NumLines c")
    case True
    then have nth: "py_nth (cl_elided c) l = Inr (cl_elided c ! nat l)" (is "_ = Inr ?line")
      using 1(5,6) by (simp add: py_nth_in_range views_ok_def NumLines_def)
    show ?thesis
    proof (cases "Match TEMPLATE_TOKEN (py_from ?line p)")
      case None
      then show ?thesis using 1(1)[OF True nth None] 1(5,6)
        by (subst InTemplateArgumentList.simps) (simp add: True nth)
    next
      case (Some m)
      let ?pos = "p + int (length (grp m 0))"
      have pos: "p < ?pos" using TEMPLATE_TOKEN_progress(1)[OF Some] by simp
      have "py_from ?line p = m_pre m @ m_text m @ m_post m" "m_pre m = []"
        using Match_split[OF Some] by auto
      then have "length (grp m 0) \<le> length (py_from ?line p)" by (simp add: grp_def group_def)
      then have "length (grp m 0) \<le> length ?line - nat p" using 1(7) by (simp add: py_from_nonneg)
      then have lt: "?pos - 1 < int (length ?line)" using 1(7) TEMPLATE_TOKEN_progress(1)[OF Some] by linarith
      obtain x l' p' where ce: "CloseExpression c l (?pos - 1) = Inr (x, l', p')"
        using CloseExpression_returns[OF 1(5) nth 1(6) _ lt] pos 1(7) by (metis (no_types, opaque_lifting) diff_ge_0_iff_ge order_trans prod.exhaust zle_diff1_eq)
      have "0 \<le> p' \<Longrightarrow> 0 \<le> l'" using CloseExpression_end[OF ce] 1(6) by auto
      then show ?thesis
        using 1(2)[OF True nth Some refl refl] 1(3)[OF True nth Some refl refl] 1(4)[OF True nth Some refl refl _ _ _ ce refl refl]
          1(5,6,7) pos ce
        by (subst InTemplateArgumentList.simps) (auto simp add: True nth Some Let_def)
    qed
  next
    case False
    then show ?thesis by (subst InTemplateArgumentList.simps) simp
  qed
qed

lemma consume_class_returns:
  "views_ok c \<Longrightarrow> 0 \<le> linenum \<Longrightarrow> linenum < NumLines c \<Longrightarrow> nest_ok (NumLines c) ns \<Longrightarrow>
   returns (\<lambda>(_, ns'). nest_ok (NumLines c) ns') (consume_class c linenum line ns)"
  unfolding consume_class_def
  by (intro returns_intros returns_bind[OF InTemplate_returns] returns_bind[OF ClassInfo_init_returns[where n = "next_ident ns"]])
     (auto intro!: nest_intros)

lemma check_begin_returns:
  "views_ok c \<Longrightarrow> 0 \<le> linenum \<Longrightarrow> linenum < NumLines c \<Longrightarrow> nest_ok (NumLines c) ns \<Longrightarrow>
   returns (nest_ok (NumLines c)) (check_begin c linenum ns)"
proof -
  assume c: "views_ok c" "0 \<le> linenum" "linenum < NumLines c" and ns: "nest_ok (NumLines c) ns"
  then have "py_nth (cl_elided c) linenum = Inr (cl_elided c ! nat linenum)"
    by (simp add: py_nth_in_range views_ok_def NumLines_def)
  then show ?thesis using ns
    by (auto simp: check_begin_def CheckBegin_def split: list.split block_kind.split intro!: nest_intros)
qed

lemma nest_ok_starts: "nest_ok h ns \<Longrightarrow> b \<in> set (stack ns) \<Longrightarrow> 0 \<le> starting_linenum b \<and> starting_linenum b < h"
  by (auto simp: nest_ok_def stack_fine_def list_all_iff block_ok_def)

context error_handler
begin

lemma disallow_loop_returns:
  "(\<And>i. i \<in> set is \<Longrightarrow> 0 \<le> i \<and> i < int (length ls)) \<Longrightarrow> inv s \<Longrightarrow>
   returns inv (disallow_loop error filename ls name is seen s)"
proof (induction "is" arbitrary: seen)
  case (Cons i "is")
  then show ?case by (auto simp: py_nth_in_range split: option.split intro!: error_when)
qed simp

lemma CheckEnd_returns:
  assumes "views_ok c" and "0 \<le> linenum" and "linenum < NumLines c" and "0 \<le> starting_linenum b" and "inv s"
  shows "returns inv (CheckEnd error filename c linenum b s)"
proof -
  have len: "linenum < int (length (cl_elided c))" "linenum < int (length (cl_raw_lines c))"
    using assms(1,3) by (auto simp: views_ok_def NumLines_def)
  have "returns inv (ClassInfo_CheckEnd error filename c linenum b ci s)" for ci
    unfolding ClassInfo_CheckEnd_def
    using assms(2,4,5) len
    by (intro returns_bind[OF disallow_loop_returns])
       (auto simp: set_py_range_down py_nth_in_range split: option.split intro!: error_when)
  moreover have "returns inv (NamespaceInfo_CheckEnd error filename c linenum b name s)" for name
    unfolding NamespaceInfo_CheckEnd_def
    using assms(2,5) len by (auto simp: py_nth_in_range intro!: returns_intros error_when error_returns)
  ultimately show ?thesis using assms(5) by (simp add: CheckEnd_def split: block_kind.split)
qed

lemma check_access_returns:
  "nest_ok h ns \<Longrightarrow> inv s \<Longrightarrow>
   returns (\<lambda>(ns', s'). nest_ok h ns' \<and> inv s') (check_access error filename linenum line ns s)"
  unfolding check_access_def
  by (auto simp: Let_def split: list.split block_kind.split option.split intro!: returns_bind[OF error_when] nest_intros)

lemma brace_step_returns:
  "views_ok c \<Longrightarrow> 0 \<le> linenum \<Longrightarrow> linenum < NumLines c \<Longrightarrow> nest_ok (NumLines c) ns \<Longrightarrow> inv s \<Longrightarrow>
   returns (\<lambda>(ns', s'). nest_ok (NumLines c) ns' \<and> inv s') (brace_step error filename c linenum line token ns s)"
  using nest_ok_pop[of _ ns] nest_ok_starts[of _ ns]
  by (auto simp: brace_step_def split: list.split intro!: returns_bind[OF CheckEnd_returns] nest_intros)

lemma consume_braces_returns:
  assumes "views_ok c" and "0 \<le> linenum" and "linenum < NumLines c"
  shows "nest_ok (NumLines c) ns \<Longrightarrow> inv s \<Longrightarrow>
   returns (\<lambda>(ns', s'). nest_ok (NumLines c) ns' \<and> inv s') (consume_braces error filename c linenum line ns s)"
proof (induction "length line" arbitrary: line ns s rule: less_induct)
  case less
  show ?case
  proof (cases "Match BRACE_TOKEN line")
    case None
    then show ?thesis using less.prems by (simp add: consume_braces.simps)
  next
    case (Some m)
    show ?thesis
      by (subst consume_braces.simps)
         (auto simp: Some intro!: returns_bind[OF brace_step_returns[OF assms less.prems]] less.hyps BRACE_TOKEN_shorter[OF Some])
  qed
qed

lemma Update_returns:
  assumes "views_ok c" and "0 \<le> linenum" and "linenum < NumLines c" and "nest_ok (NumLines c) ns" and "inv s"
  shows "returns (\<lambda>(ns', s'). nest_ok (NumLines c) ns' \<and> inv s') (Update error filename c linenum ns s)"
proof -
  have nth: "py_nth (cl_elided c) linenum = Inr (cl_elided c ! nat linenum)" (is "_ = Inr ?line")
    using assms by (simp add: py_nth_in_range views_ok_def NumLines_def)
  let ?ns1 = "ns\<lparr>previous_stack_top := (case stack ns of [] \<Rightarrow> None | b # _ \<Rightarrow> Some b)\<rparr>"
  have "nest_ok (NumLines c) ?ns1"
    using assms(4) by (auto simp: nest_ok_def stack_fine_Cons split: list.splits)
  then have "nest_ok (NumLines c) (update_top (count_parentheses ?line) (UpdatePreprocessor ?line ?ns1))"
    by (intro nest_intros) (auto simp: count_parentheses_def Let_def)
  then have ok: "nest_ok (NumLines c) (snd (consume_namespaces linenum ?line (update_top (count_parentheses ?line) (UpdatePreprocessor ?line ?ns1))))"
    by (rule nest_ok_consume_namespaces[OF assms(2,3)])
  show ?thesis
    unfolding Update_def nth py_bind.simps Let_def
    using ok assms
    by (auto split: prod.split intro!: returns_bind[OF consume_class_returns] returns_bind[OF check_begin_returns]
         returns_bind[OF check_access_returns] consume_braces_returns)
qed

lemma CheckCompletedBlocks_returns: "inv s \<Longrightarrow> returns inv (CheckCompletedBlocks error filename ns s)"
  unfolding CheckCompletedBlocks_def
  by (rule returns_fold) (auto simp: incomplete_block_def split: block_kind.split intro!: error_returns)

end
section \<open>The text of one line as brace tokens\<close>

definition brace_char :: "char \<Rightarrow> bool" where
  "brace_char c \<longleftrightarrow> c \<in> set ''{;)}''"

lemma BRACE_TOKEN_compiled:
  "re_compile BRACE_TOKEN = Some
     (RSeq RBol (RSeq (RStar True (RSet False [CChar (CHR ''{''), CChar (CHR '';''), CChar (CHR '')''), CChar (CHR ''}'')]))
       (RSeq (RGroup 1 (RSet True [CChar (CHR ''{''), CChar (CHR '';''), CChar (CHR '')''), CChar (CHR ''}'')]))
         (RSeq (RGroup 2 (RStar True RAny)) REol))))"
  by code_simp

lemma brace_class:
  "set_accepts True [CChar (CHR ''{''), CChar (CHR '';''), CChar (CHR '')''), CChar (CHR ''}'')] = brace_char"
  "set_accepts False [CChar (CHR ''{''), CChar (CHR '';''), CChar (CHR '')''), CChar (CHR ''}'')] = (\<lambda>c. \<not> brace_char c)"
  by (auto simp: set_accepts_def brace_char_def fun_eq_iff)

lemma BRACE_TOKEN_Some:
  assumes "Match BRACE_TOKEN line = Some m" and "newline_char \<notin> set line"
  shows "\<exists>w t. line = w @ t # grp m 2 \<and> list_all (\<lambda>c. \<not> brace_char c) w \<and> brace_char t \<and> grp m 1 = [t]"
proof -
  let ?p = "\<lambda>c. \<not> brace_char c"
  have first: "list_all ?p w \<Longrightarrow> brace_char t \<Longrightarrow> takeWhile ?p (w @ t # u) = w \<and> dropWhile ?p (w @ t # u) = t # u" for w t u
    by (induction w) auto
  from Match_SomeD[OF assms(1) BRACE_TOKEN_compiled] assms(2)
  have "line = takeWhile ?p line @ hd (dropWhile ?p line) # grp m 2 \<and> list_all ?p (takeWhile ?p line) \<and>
      brace_char (hd (dropWhile ?p line)) \<and> grp m 1 = [hd (dropWhile ?p line)]"
    by (simp only: runs_eval brace_class) (auto simp: first)
  then show ?thesis by blast
qed

lemma BRACE_TOKEN_finds:
  "newline_char \<notin> set u \<Longrightarrow> list_all (\<lambda>c. \<not> brace_char c) w \<Longrightarrow> brace_char t \<Longrightarrow> Matches BRACE_TOKEN (w @ t # u)"
  unfolding Matches_bex[OF BRACE_TOKEN_compiled]
  by (simp only: runs_eval brace_class simp_thms, rule exI[of _ w], rule exI[of _ "t # u"])
     (auto intro: exI[of _ u])

lemma BRACE_TOKEN_None:
  assumes "newline_char \<notin> set line"
  shows "Match BRACE_TOKEN line = None \<longleftrightarrow> list_all (\<lambda>c. \<not> brace_char c) line"
proof
  assume none: "Match BRACE_TOKEN line = None"
  show "list_all (\<lambda>c. \<not> brace_char c) line"
  proof (rule ccontr)
    assume "\<not> ?thesis"
    then obtain w t u where "line = w @ t # u" "brace_char t" "\<forall>c \<in> set w. \<not> brace_char c"
      using split_list_first_prop[of line brace_char] by (auto simp: list_all_iff)
    with BRACE_TOKEN_finds[of u w t] assms none show False by (auto simp: list_all_iff)
  qed
next
  assume "list_all (\<lambda>c. \<not> brace_char c) line"
  then show "Match BRACE_TOKEN line = None"
    using BRACE_TOKEN_Some[of line, OF _ assms] by (cases "Match BRACE_TOKEN line") (auto simp: list_all_iff)
qed
section \<open>Refinement of a stack of numbers\<close>

text \<open>
  The abstract machine: an opening brace pushes a fresh number, a closing brace pops one, and every
  other character is skipped.  A concrete state is seen through the numbers of its blocks.
\<close>

type_synonym brace_stack = "nat list \<times> nat"

fun brace_move :: "char \<Rightarrow> brace_stack \<Rightarrow> brace_stack" where
  "brace_move c (st, n) =
     (if c = CHR ''{'' then (n # st, n + 1) else if c = CHR ''}'' then (tl st, n) else (st, n))"

definition brace_run :: "string \<Rightarrow> brace_stack \<Rightarrow> brace_stack" where
  "brace_run line a = fold brace_move line a"

definition abs_nest :: "nesting_state \<Rightarrow> brace_stack" where
  "abs_nest ns = (map ident (stack ns), next_ident ns)"

definition all_seen :: "nesting_state \<Rightarrow> bool" where
  "all_seen ns \<longleftrightarrow> list_all seen_open_brace (stack ns)"

lemma brace_run_skip: "list_all (\<lambda>c. \<not> brace_char c) w \<Longrightarrow> brace_run (w @ v) a = brace_run v a"
proof (induction w)
  case (Cons c w)
  then show ?case by (cases a) (auto simp: brace_run_def brace_char_def)
qed simp

lemma all_seen_SeenOpenBrace: "all_seen ns \<Longrightarrow> SeenOpenBrace ns"
  by (cases "stack ns") (auto simp: all_seen_def SeenOpenBrace_def)

lemma brace_step_refines:
  assumes "brace_step error filename c linenum line [t] ns s = Inr (ns', s')" and "all_seen ns" and "brace_char t"
  shows "abs_nest ns' = brace_move t (abs_nest ns) \<and> all_seen ns'"
  using assms all_seen_SeenOpenBrace[OF assms(2)]
  by (auto simp: brace_step_def open_brace_def push_block_def abs_nest_def all_seen_def ExternCInfo_init_def
      BlockInfo_init_def brace_char_def py_bind_eq_Inr split: if_splits list.splits)

lemma consume_braces_refines:
  "consume_braces error filename c linenum line ns s = Inr (ns', s') \<Longrightarrow> all_seen ns \<Longrightarrow> newline_char \<notin> set line \<Longrightarrow>
   abs_nest ns' = brace_run line (abs_nest ns) \<and> all_seen ns'"
proof (induction "length line" arbitrary: line ns s rule: less_induct)
  case less
  show ?case
  proof (cases "Match BRACE_TOKEN line")
    case None
    with BRACE_TOKEN_None[OF less.prems(3)] have "list_all (\<lambda>c. \<not> brace_char c) line" by simp
    then have "brace_run line (abs_nest ns) = abs_nest ns"
      using brace_run_skip[of line "[]"] by (simp add: brace_run_def)
    with None less.prems(1,2) show ?thesis by (auto simp: consume_braces.simps)
  next
    case (Some m)
    from BRACE_TOKEN_Some[OF Some less.prems(3)] obtain w t where
      w: "line = w @ t # grp m 2" "list_all (\<lambda>c. \<not> brace_char c) w" "brace_char t" "grp m 1 = [t]" by blast
    from less.prems(1) obtain ns1 s1 where
      step: "brace_step error filename c linenum line [t] ns s = Inr (ns1, s1)"
      and rest: "consume_braces error filename c linenum (grp m 2) ns1 s1 = Inr (ns', s')"
      by (subst (asm) consume_braces.simps[of _ _ _ _ line]) (auto simp: Some w(4)[simplified] py_bind_eq_Inr)
    note s1 = brace_step_refines[OF step less.prems(2) w(3)]
    have "newline_char \<notin> set (grp m 2)"
      using less.prems(3) by (subst (asm) w(1)) simp
    with less.hyps[OF BRACE_TOKEN_shorter[OF Some] rest] s1
    have "abs_nest ns' = brace_run (grp m 2) (brace_move t (abs_nest ns)) \<and> all_seen ns'" by simp
    moreover have "brace_run line (abs_nest ns) = brace_run (grp m 2) (brace_move t (abs_nest ns))"
      using brace_run_skip[OF w(2), of "t # grp m 2"] by (subst w(1)) (simp add: brace_run_def)
    ultimately show ?thesis by simp
  qed
qed

text \<open>A plain line: no preprocessor directive and no declaration of a namespace or a class.\<close>

definition plain_line :: "string \<Rightarrow> bool" where
  "plain_line line \<longleftrightarrow> newline_char \<notin> set line \<and> \<not> Matches PP_IF line \<and> \<not> Matches PP_ELSE line \<and>
     \<not> Matches PP_ENDIF line \<and> \<not> Matches NAMESPACE_DECL line \<and> \<not> Matches CLASS_DECL line"

lemma plain_line_Update:
  assumes "plain_line (cl_elided c ! l)" and "l < length (cl_elided c)"
  shows "Update error filename c (int l) ns s =
    (let line = cl_elided c ! l;
         ns3 = update_top (count_parentheses line)
                 (ns\<lparr>previous_stack_top := (case stack ns of [] \<Rightarrow> None | b # _ \<Rightarrow> Some b)\<rparr>)
     in py_bind (check_begin c (int l) ns3) (\<lambda>ns6.
        py_bind (check_access error filename (int l) line ns6 s) (\<lambda>(ns7, s7).
          consume_braces error filename c (int l) line ns7 s7)))"
proof -
  have "consume_namespaces n line ns = (line, ns)" if "\<not> Matches NAMESPACE_DECL line" for n line ns
    using that by (simp add: consume_namespaces.simps split: option.split)
  moreover have "consume_class c n line ns = Inr (line, ns)" if "\<not> Matches CLASS_DECL line" for n line ns
    using that by (simp add: consume_class_def split: option.split)
  ultimately show ?thesis
    using assms by (simp add: Update_def plain_line_def UpdatePreprocessor_def Let_def)
qed

lemma head_change_abs:
  "abs_nest (update_top (count_parentheses line) ns) = abs_nest ns"
  "all_seen (update_top (count_parentheses line) ns) = all_seen ns"
  by (simp_all add: update_top_def count_parentheses_def abs_nest_def all_seen_def Let_def split: list.split)

lemma check_begin_seen: "all_seen ns \<Longrightarrow> check_begin c l ns = Inr ns"
  by (auto simp: check_begin_def all_seen_def split: list.split)

lemma check_access_abs:
  "check_access error filename l line ns s = Inr (ns', s') \<Longrightarrow> abs_nest ns' = abs_nest ns \<and> all_seen ns' = all_seen ns"
  by (auto simp: check_access_def abs_nest_def all_seen_def Let_def py_bind_eq_Inr
      split: list.splits block_kind.splits option.splits)

lemma plain_Update_refines:
  assumes "plain_line (cl_elided c ! l)" and "l < length (cl_elided c)" and "all_seen ns"
    and "Update error filename c (int l) ns s = Inr (ns', s')"
  shows "abs_nest ns' = brace_run (cl_elided c ! l) (abs_nest ns) \<and> all_seen ns'"
proof -
  let ?line = "cl_elided c ! l"
  let ?ns1 = "ns\<lparr>previous_stack_top := (case stack ns of [] \<Rightarrow> None | b # _ \<Rightarrow> Some b)\<rparr>"
  let ?ns3 = "update_top (count_parentheses ?line) ?ns1"
  have abs: "abs_nest ?ns3 = abs_nest ns" "all_seen ?ns3"
    using assms(3) by (simp_all only: head_change_abs) (simp_all add: abs_nest_def all_seen_def)
  from assms(4) obtain ns7 s7 where
    acc: "check_access error filename (int l) ?line ?ns3 s = Inr (ns7, s7)"
    and braces: "consume_braces error filename c (int l) ?line ns7 s7 = Inr (ns', s')"
    by (auto simp: plain_line_Update[OF assms(1,2)] Let_def check_begin_seen[OF abs(2)] py_bind_eq_Inr)
  from check_access_abs[OF acc] abs have "abs_nest ns7 = abs_nest ns" "all_seen ns7" by simp_all
  with consume_braces_refines[OF braces] assms(1) show ?thesis by (simp add: plain_line_def)
qed
section \<open>What the nesting state promises\<close>

text \<open>The states that any sequence of updates can lead to, with an error function that records.\<close>

inductive reachable_nesting :: "cleansed_lines \<Rightarrow> nesting_state \<Rightarrow> bool" for c where
  reach_init: "reachable_nesting c NestingState_init"
| reach_step: "reachable_nesting c ns \<Longrightarrow> 0 \<le> l \<Longrightarrow> l < NumLines c \<Longrightarrow>
    Update record_error filename c l ns log = Inr (ns', log') \<Longrightarrow> reachable_nesting c ns'"

lemma nest_ok_init: "nest_ok h NestingState_init"
  by (simp add: nest_ok_def NestingState_init_def)

lemma reachable_nest_ok: "reachable_nesting c ns \<Longrightarrow> views_ok c \<Longrightarrow> nest_ok (NumLines c) ns"
proof (induction rule: reachable_nesting.induct)
  case reach_init
  show ?case by (rule nest_ok_init)
next
  case (reach_step ns l filename log ns' log')
  with recording.Update_returns[of c l ns log log filename] show ?case by (auto simp: returns_def)
qed

text \<open>C18: In every reachable state of the nesting analysis the blocks on the stack are pairwise different
  objects, and the next update with any line of the file returns: it neither raises nor loops, whatever the
  error function does as long as it returns.\<close>

theorem reachable_nesting_progress:
  assumes "views_ok c" and "reachable_nesting c ns" and "0 \<le> l" and "l < NumLines c" and "filters_ok (cpplint_state w)"
  shows "distinct (map ident (stack ns)) \<and>
    (\<exists>ns' w'. Update Error filename c l ns w = Inr (ns', w') \<and> distinct (map ident (stack ns')) \<and>
       filters_ok (cpplint_state w'))"
  using printing.Update_returns[OF assms(1,3,4) reachable_nest_ok[OF assms(2,1)] assms(5), of filename]
    reachable_nest_ok[OF assms(2,1)]
  by (auto simp: returns_def nest_ok_def stack_fine_def)

definition ex_class_file :: cleansed_lines where
  "ex_class_file = \<lparr>cl_elided = [''class A {'', ''};''], cl_lines = [''class A {'', ''};''],
     cl_raw_lines = [''class A {'', ''};''], cl_num_lines = 2, cl_lines_without_raw_strings = [''class A {'', ''};'']\<rparr>"

lemma ex_class_file_ok: "views_ok ex_class_file" "NumLines ex_class_file = 2"
  by (simp_all add: views_ok_def ex_class_file_def NumLines_def)

lemma reachable_nesting_progress_witness:
  "\<exists>ns. stack ns \<noteq> [] \<and> distinct (map ident (stack ns)) \<and>
    (\<exists>ns' w'. Update Error ''a.cc'' ex_class_file 1 ns initial_world = Inr (ns', w') \<and>
       distinct (map ident (stack ns')) \<and> filters_ok (cpplint_state w'))"
proof -
  have "case Update record_error ''a.cc'' ex_class_file 0 NestingState_init [] of
      Inr (ns, log) \<Rightarrow> stack ns \<noteq> [] | Inl e \<Rightarrow> False" by code_simp
  then obtain ns log where ns: "Update record_error ''a.cc'' ex_class_file 0 NestingState_init [] = Inr (ns, log)"
    "stack ns \<noteq> []"
    by (cases "Update record_error ''a.cc'' ex_class_file 0 NestingState_init []") auto
  have "reachable_nesting ex_class_file ns"
    by (rule reach_step[OF reach_init _ _ ns(1)]) (simp_all add: ex_class_file_ok)
  with reachable_nesting_progress[OF ex_class_file_ok(1), of ns 1 initial_world "''a.cc''"] ns(2) show ?thesis
    by (auto simp: ex_class_file_ok filters_ok_def initial_world_def CppLintState_init_def DEFAULT_FILTERS_def signed_filter_def)
qed

text \<open>C2: On plain lines (no directive, no declaration) and with every block open, \<open>Update\<close> refines the
  machine that pushes a fresh number for an opening brace and pops one for a closing brace: the numbers of
  the blocks after the update are those the machine computes from the text of the line.\<close>

theorem Update_refines_brace_run:
  assumes "plain_line (cl_elided c ! l)" and "l < length (cl_elided c)" and "all_seen ns"
    and "Update error filename c (int l) ns s = Inr (ns', s')"
  shows "abs_nest ns' = brace_run (cl_elided c ! l) (abs_nest ns) \<and> all_seen ns'"
  using assms by (rule plain_Update_refines)

lemma Update_refines_brace_run_witness:
  "\<exists>ns' log'. Update record_error ''a.cc''
      \<lparr>cl_elided = [''if (x) { y(); { z; } ''], cl_lines = [], cl_raw_lines = [], cl_num_lines = 1,
       cl_lines_without_raw_strings = []\<rparr> 0 NestingState_init [] = Inr (ns', log') \<and>
     abs_nest ns' = brace_run ''if (x) { y(); { z; } '' (abs_nest NestingState_init) \<and> all_seen ns'"
proof -
  let ?c = "\<lparr>cl_elided = [''if (x) { y(); { z; } ''], cl_lines = [], cl_raw_lines = [], cl_num_lines = 1,
       cl_lines_without_raw_strings = []\<rparr>"
  have "case Update record_error ''a.cc'' ?c 0 NestingState_init [] of Inr r \<Rightarrow> True | Inl e \<Rightarrow> False" by code_simp
  then obtain ns' log' where u: "Update record_error ''a.cc'' ?c (int 0) NestingState_init [] = Inr (ns', log')"
    by (cases "Update record_error ''a.cc'' ?c 0 NestingState_init []") auto
  have "plain_line (cl_elided ?c ! 0)" by code_simp
  from Update_refines_brace_run[OF this _ _ u] u show ?thesis by (simp add: all_seen_def NestingState_init_def)
qed

text \<open>Braces that are balanced leave the stack of the machine as it was.\<close>

lemma brace_run_append: "brace_run (v @ w) a = brace_run w (brace_run v a)"
  by (simp add: brace_run_def)

lemma balanced_brace_run: "balanced w \<Longrightarrow> \<exists>m. brace_run w (st, n) = (st, m)"
proof (induction arbitrary: st n rule: balanced.induct)
  case balanced_Nil
  then show ?case by (simp add: brace_run_def)
next
  case (balanced_other c w)
  then have "brace_move c (st, n) = (st, n)" by (auto simp: opens_br_def closes_br_def)
  with balanced_other.IH[of st n] show ?case by (simp add: brace_run_def)
next
  case (balanced_pair a b v w)
  have step: "brace_run (a # v @ b # w) (st, n) = brace_run w (brace_move b (brace_run v (brace_move a (st, n))))"
    by (simp add: brace_run_def)
  show ?case
  proof (cases "a = CHR ''{''")
    case True
    with balanced_pair(1) have b: "b = CHR ''}''" by (simp add: pairs_def)
    obtain m where "brace_run v (n # st, n + 1) = (n # st, m)" using balanced_pair.IH(1) by blast
    with balanced_pair.IH(2)[of st m] show ?thesis unfolding step unfolding True b by simp
  next
    case False
    with balanced_pair(1) have m: "brace_move a x = x" "brace_move b x = x" for x
      by (cases x; auto simp: pairs_def)+
    obtain k where "brace_run v (st, n) = (st, k)" using balanced_pair.IH(1) by blast
    with balanced_pair.IH(2)[of st k] show ?thesis unfolding step m by simp
  qed
qed

definition update_lines :: "'s error_fn \<Rightarrow> string \<Rightarrow> cleansed_lines \<Rightarrow> nat list \<Rightarrow> nesting_state \<times> 's \<Rightarrow> (nesting_state \<times> 's) py" where
  "update_lines error filename c ls = py_fold (\<lambda>l (ns, s). Update error filename c (int l) ns s) ls"

lemma update_lines_refines:
  "update_lines error filename c ls (ns, s) = Inr (ns', s') \<Longrightarrow>
   (\<And>l. l \<in> set ls \<Longrightarrow> plain_line (cl_elided c ! l) \<and> l < length (cl_elided c)) \<Longrightarrow> all_seen ns \<Longrightarrow>
   abs_nest ns' = brace_run (concat (map ((!) (cl_elided c)) ls)) (abs_nest ns) \<and> all_seen ns'"
proof (induction ls arbitrary: ns s)
  case Nil
  then show ?case by (simp add: update_lines_def brace_run_def)
next
  case (Cons l ls)
  from Cons.prems(1) obtain ns1 s1 where
    u: "Update error filename c (int l) ns s = Inr (ns1, s1)" and
    r: "update_lines error filename c ls (ns1, s1) = Inr (ns', s')"
    by (auto simp: update_lines_def py_bind_eq_Inr)
  have p: "plain_line (cl_elided c ! l)" "l < length (cl_elided c)" using Cons.prems(2) by auto
  from plain_Update_refines[OF p Cons.prems(3) u] Cons.IH[OF r] Cons.prems(2) show ?case
    by (simp add: brace_run_append)
qed

lemma update_lines_returns:
  "views_ok c \<Longrightarrow> nest_ok (NumLines c) ns \<Longrightarrow> (\<And>l. l \<in> set ls \<Longrightarrow> l < length (cl_elided c)) \<Longrightarrow>
   \<exists>ns' log'. update_lines record_error filename c ls (ns, log) = Inr (ns', log')"
proof (induction ls arbitrary: ns log)
  case Nil
  then show ?case by (simp add: update_lines_def)
next
  case (Cons l ls)
  then have "returns (\<lambda>(ns', s'). nest_ok (NumLines c) ns' \<and> (\<exists>more. s' = log @ more)) (Update record_error filename c (int l) ns log)"
    by (intro recording.Update_returns) (auto simp: views_ok_def NumLines_def)
  then obtain ns1 log1 where "Update record_error filename c (int l) ns log = Inr (ns1, log1)" "nest_ok (NumLines c) ns1"
    by (auto simp: returns_def)
  with Cons.IH[of ns1 log1] Cons.prems show ?case by (simp add: update_lines_def)
qed

text \<open>C19: A piece of the file of plain lines whose brackets are balanced leaves the nesting of blocks as it
  was: after its last line the stack holds the blocks that it held before its first line.\<close>

theorem balanced_lines_keep_nesting:
  assumes "views_ok c" and "nest_ok (NumLines c) ns" and "all_seen ns"
    and "\<And>l. l \<in> set ls \<Longrightarrow> plain_line (cl_elided c ! l) \<and> l < length (cl_elided c)"
    and "balanced (concat (map ((!) (cl_elided c)) ls))"
  shows "\<exists>ns' log'. update_lines record_error filename c ls (ns, log) = Inr (ns', log') \<and>
    map ident (stack ns') = map ident (stack ns)"
proof -
  obtain ns' log' where u: "update_lines record_error filename c ls (ns, log) = Inr (ns', log')"
    using update_lines_returns[OF assms(1,2)] assms(4) by blast
  from update_lines_refines[OF u assms(4,3)] balanced_brace_run[OF assms(5)]
  have "map ident (stack ns') = map ident (stack ns)"
    by (auto simp: abs_nest_def) (metis fst_conv)
  with u show ?thesis by blast
qed

definition ex_braces_file :: cleansed_lines where
  "ex_braces_file = \<lparr>cl_elided = [''if (x) {'', ''y();'', ''}''], cl_lines = [''if (x) {'', ''y();'', ''}''],
     cl_raw_lines = [''if (x) {'', ''y();'', ''}''], cl_num_lines = 3, cl_lines_without_raw_strings = [''if (x) {'', ''y();'', ''}'']\<rparr>"

lemma ex_braces_balanced: "balanced (concat (map ((!) (cl_elided ex_braces_file)) [0, 1, 2]))"
proof -
  have plain: "balanced ''if ''" "balanced ''x''" "balanced '' ''" "balanced ''y''" "balanced '';''" "balanced []"
    by (intro balanced_plain; code_simp)+
  have call: "balanced (CHR ''('' # [] @ CHR '')'' # '';'')"
    using plain by (intro balanced_pair) (simp_all add: pairs_def)
  have body: "balanced (CHR ''{'' # (''y'' @ CHR ''('' # [] @ CHR '')'' # '';'') @ CHR ''}'' # [])"
    using plain balanced_append[OF plain(4) call] by (intro balanced_pair) (simp_all add: pairs_def)
  have cond: "balanced (CHR ''('' # ''x'' @ CHR '')'' # '' '' @ CHR ''{'' # (''y'' @ CHR ''('' # [] @ CHR '')'' # '';'') @ CHR ''}'' # [])"
    using plain balanced_append[OF plain(3) body] by (intro balanced_pair) (simp_all add: pairs_def)
  from balanced_append[OF plain(1) cond] show ?thesis by (simp add: ex_braces_file_def)
qed

lemma balanced_lines_keep_nesting_witness:
  "\<exists>ns' log'. update_lines record_error ''a.cc'' ex_braces_file [0, 1, 2] (NestingState_init, []) = Inr (ns', log') \<and>
    map ident (stack ns') = map ident (stack NestingState_init)"
proof (rule balanced_lines_keep_nesting)
  show "views_ok ex_braces_file" by (simp add: views_ok_def ex_braces_file_def)
  show "nest_ok (NumLines ex_braces_file) NestingState_init" by (rule nest_ok_init)
  show "all_seen NestingState_init" by code_simp
  show "balanced (concat (map ((!) (cl_elided ex_braces_file)) [0, 1, 2]))" by (rule ex_braces_balanced)
  have "list_all (\<lambda>l. plain_line (cl_elided ex_braces_file ! l) \<and> l < length (cl_elided ex_braces_file)) [0, 1, 2]"
    by code_simp
  then show "l \<in> set [0, 1, 2] \<Longrightarrow> plain_line (cl_elided ex_braces_file ! l) \<and> l < length (cl_elided ex_braces_file)" for l
    by (auto simp: list_all_iff)
qed

section \<open>Preprocessor conditionals\<close>

text \<open>Two stacks with the same blocks, up to the identity of the objects.\<close>

definition contents :: "block_info list \<Rightarrow> block_info list" where
  "contents bs = map (ident_update (\<lambda>_. 0)) bs"

lemma contents_renumber [simp]: "contents (renumber n bs) = contents bs"
  by (induction bs arbitrary: n) (auto simp: contents_def)

text \<open>The three kinds of directive, as \<open>UpdatePreprocessor\<close> tells them apart.\<close>

definition if_line :: "string \<Rightarrow> bool" where
  "if_line l \<longleftrightarrow> Matches PP_IF l"

definition else_line :: "string \<Rightarrow> bool" where
  "else_line l \<longleftrightarrow> \<not> Matches PP_IF l \<and> Matches PP_ELSE l"

definition endif_line :: "string \<Rightarrow> bool" where
  "endif_line l \<longleftrightarrow> \<not> Matches PP_IF l \<and> \<not> Matches PP_ELSE l \<and> Matches PP_ENDIF l"

lemma UpdatePreprocessor_kinds:
  "if_line l \<Longrightarrow> UpdatePreprocessor l ns = push_if ns"
  "else_line l \<Longrightarrow> UpdatePreprocessor l ns = restore_else ns"
  "endif_line l \<Longrightarrow> UpdatePreprocessor l ns = pop_endif ns"
  by (auto simp: UpdatePreprocessor_def if_line_def else_line_def endif_line_def)

text \<open>
  Runs with complete conditionals: any steps that leave the stack of conditionals alone (the parsing
  of blocks is one), and complete conditionals with any number of \<open>#else\<close> and \<open>#elif\<close> parts.
\<close>

inductive complete_run :: "nesting_state \<Rightarrow> nesting_state \<Rightarrow> bool"
  and branches :: "nesting_state \<Rightarrow> nesting_state \<Rightarrow> bool" where
  run_refl: "complete_run ns ns"
| run_other: "complete_run ns ns1 \<Longrightarrow> pp_stack ns2 = pp_stack ns1 \<Longrightarrow> complete_run ns ns2"
| run_conditional: "complete_run ns ns1 \<Longrightarrow> if_line l \<Longrightarrow> branches (UpdatePreprocessor l ns1) ns2 \<Longrightarrow>
    endif_line l' \<Longrightarrow> complete_run ns (UpdatePreprocessor l' ns2)"
| branch_one: "complete_run ns ns1 \<Longrightarrow> branches ns ns1"
| branch_more: "branches ns ns1 \<Longrightarrow> else_line l \<Longrightarrow> complete_run (UpdatePreprocessor l ns1) ns2 \<Longrightarrow> branches ns ns2"

text \<open>The stack of conditionals after a complete run, and within the branches of one.\<close>

lemma complete_run_pp:
  "complete_run ns ns' \<Longrightarrow> pp_stack ns' = pp_stack ns"
  "branches ns ns' \<Longrightarrow> (\<And>pp pps. pp_stack ns = pp # pps \<Longrightarrow>
     \<exists>pp'. pp_stack ns' = pp' # pps \<and> stack_before_if pp' = stack_before_if pp \<and>
       (seen_else pp \<longrightarrow> pp' = pp))"
proof (induction rule: complete_run_branches.inducts)
  case (run_conditional ns ns1 l ns2 l')
  then show ?case
    by (auto simp: UpdatePreprocessor_kinds push_if_def deepcopy_def pop_endif_def)
next
  case (branch_more ns ns1 l ns2)
  then show ?case
    by (fastforce simp: UpdatePreprocessor_kinds restore_else_def deepcopy_def Let_def split: if_splits)
qed auto

lemma after_else:
  assumes "pp_stack ns = pp # pps" and "else_line l"
  shows "contents (stack (UpdatePreprocessor l ns)) = contents (stack_before_if pp)"
    and "\<exists>pp'. pp_stack (UpdatePreprocessor l ns) = pp' # pps \<and> seen_else pp' \<and>
      (seen_else pp \<longrightarrow> pp' = pp) \<and> (\<not> seen_else pp \<longrightarrow> contents (stack_before_else pp') = contents (stack ns))"
  using assms by (auto simp: UpdatePreprocessor_kinds restore_else_def deepcopy_def Let_def)



text \<open>C37: At the end of the file \<open>CheckCompletedBlocks\<close> reports every class and every namespace that is still
  open, each once, at the line where it starts, the outermost first, and nothing else.\<close>

theorem CheckCompletedBlocks_reports:
  "CheckCompletedBlocks record_error filename ns log = Inr (log @ concat (map (\<lambda>b.
     case kind b of
       ClassInfo ci \<Rightarrow> [(filename, Some (starting_linenum b), ''build/class'', 5,
          ''Failed to find complete declaration of class '' @ class_name ci)]
     | NamespaceInfo name \<Rightarrow> [(filename, Some (starting_linenum b), ''build/namespaces'', 5,
          ''Failed to find complete declaration of namespace '' @ name)]
     | _ \<Rightarrow> []) (rev (stack ns))))"
proof -
  have "py_fold (incomplete_block record_error filename) bs log = Inr (log @ concat (map (\<lambda>b.
     case kind b of
       ClassInfo ci \<Rightarrow> [(filename, Some (starting_linenum b), ''build/class'', 5,
          ''Failed to find complete declaration of class '' @ class_name ci)]
     | NamespaceInfo name \<Rightarrow> [(filename, Some (starting_linenum b), ''build/namespaces'', 5,
          ''Failed to find complete declaration of namespace '' @ name)]
     | _ \<Rightarrow> []) bs))" for bs
    by (induction bs arbitrary: log) (simp_all add: incomplete_block_def record_error_def split: block_kind.split)
  then show ?thesis by (simp add: CheckCompletedBlocks_def)
qed

end
