(* ===== verification/Line_Checks.thy ===== *)
theory Line_Checks
  imports Nesting Function_Length
begin

text \<open>
  The short checks of one line: multi-line comments and strings, thread-unsafe functions, \<open>VLOG\<close>,
  increments of pointers, non-standard constructs, constructors, \<open>make_pair\<close>, \<open>virtual\<close> and
  \<open>override\<close>, C++11 and C++14 headers, and the indentation inside namespaces.
\<close>

section \<open>Comments and strings over several lines\<close>

definition MULTILINE_STRING_MESSAGE :: string where
  \<open>MULTILINE_STRING_MESSAGE =
     ''Multi-line string ("...") found.  This lint script doesn't '' @
     ''do well with such strings, and may give bogus warnings.  '' @
     ''Use C++11 raw strings or concatenation instead.''\<close>

definition CheckForMultilineCommentsAndStrings ::
  "'s error_fn \<Rightarrow> string \<Rightarrow> cleansed_lines \<Rightarrow> int \<Rightarrow> 's \<Rightarrow> 's py" where
  "CheckForMultilineCommentsAndStrings error filename clean_lines linenum s =
     py_bind (py_nth (cl_elided clean_lines) linenum) (\<lambda>raw_line.
       let line = py_replace raw_line [backslash_char, backslash_char] []
       in py_seq
            [py_when (py_count line ''/*'' > py_count line ''*/'')
               (error filename (Some linenum) ''readability/multiline_comment'' 5
                  (''Complex multi-line /*...*/-style comment found. '' @
                   ''Lint may give bogus warnings.  '' @
                   ''Consider replacing these with //-style comments, '' @
                   ''with #if 0...#endif, '' @
                   ''or with more clearly structured multi-line comments.'')),
             py_when ((py_count line [CHR 0x22] - py_count line [backslash_char, CHR 0x22]) mod 2 \<noteq> 0)
               (error filename (Some linenum) ''readability/multiline_string'' 5 MULTILINE_STRING_MESSAGE)] s)"

section \<open>Functions that are not thread safe, and other simple patterns\<close>

definition UNSAFE_FUNC_PREFIX :: string where
  \<open>UNSAFE_FUNC_PREFIX = rx ''(?:[-+*/=%^&|(<]`s*|>`s+)''\<close>

text \<open>The function, its replacement and the pattern behind \<open>_UNSAFE_FUNC_PREFIX\<close>.\<close>

definition THREADING_LIST :: "(string \<times> string \<times> string) list" where
  \<open>THREADING_LIST =
     [(''asctime('', ''asctime_r('', UNSAFE_FUNC_PREFIX @ rx ''asctime`([^)]+`)''),
      (''ctime('', ''ctime_r('', UNSAFE_FUNC_PREFIX @ rx ''ctime`([^)]+`)''),
      (''getgrgid('', ''getgrgid_r('', UNSAFE_FUNC_PREFIX @ rx ''getgrgid`([^)]+`)''),
      (''getgrnam('', ''getgrnam_r('', UNSAFE_FUNC_PREFIX @ rx ''getgrnam`([^)]+`)''),
      (''getlogin('', ''getlogin_r('', UNSAFE_FUNC_PREFIX @ rx ''getlogin`(`)''),
      (''getpwnam('', ''getpwnam_r('', UNSAFE_FUNC_PREFIX @ rx ''getpwnam`([^)]+`)''),
      (''getpwuid('', ''getpwuid_r('', UNSAFE_FUNC_PREFIX @ rx ''getpwuid`([^)]+`)''),
      (''gmtime('', ''gmtime_r('', UNSAFE_FUNC_PREFIX @ rx ''gmtime`([^)]+`)''),
      (''localtime('', ''localtime_r('', UNSAFE_FUNC_PREFIX @ rx ''localtime`([^)]+`)''),
      (''rand('', ''rand_r('', UNSAFE_FUNC_PREFIX @ rx ''rand`(`)''),
      (''strtok('', ''strtok_r('', UNSAFE_FUNC_PREFIX @ rx ''strtok`([^)]+`)''),
      (''ttyname('', ''ttyname_r('', UNSAFE_FUNC_PREFIX @ rx ''ttyname`([^)]+`)'')]\<close>

definition CheckPosixThreading :: "'s error_fn \<Rightarrow> string \<Rightarrow> cleansed_lines \<Rightarrow> int \<Rightarrow> 's \<Rightarrow> 's py" where
  "CheckPosixThreading error filename clean_lines linenum s =
     py_bind (py_nth (cl_elided clean_lines) linenum) (\<lambda>line.
       py_fold (\<lambda>(single_thread_func, multithread_safe_func, pattern).
         py_when (Finds pattern line)
           (error filename (Some linenum) ''runtime/threadsafe_fn'' 2
              (''Consider using '' @ multithread_safe_func @
               ''...) instead of '' @ single_thread_func @
               ''...) for improved thread safety.''))) THREADING_LIST s)"

definition VLOG_LEVEL :: string where
  \<open>VLOG_LEVEL = rx ''`bVLOG`((INFO|ERROR|WARNING|DFATAL|FATAL)`)''\<close>

definition CheckVlogArguments :: "'s error_fn \<Rightarrow> string \<Rightarrow> cleansed_lines \<Rightarrow> int \<Rightarrow> 's \<Rightarrow> 's py" where
  "CheckVlogArguments error filename clean_lines linenum s =
     py_bind (py_nth (cl_elided clean_lines) linenum) (\<lambda>line.
       py_when (Finds VLOG_LEVEL line)
         (error filename (Some linenum) ''runtime/vlog'' 5
            (''VLOG() should be used with numeric verbosity level.  '' @
             ''Use LOG() if you want symbolic severity levels.'')) s)"

definition INVALID_INCREMENT :: string where
  \<open>INVALID_INCREMENT = rx ''^`s*`*`w+(`+`+|--);''\<close>

definition CheckInvalidIncrement :: "'s error_fn \<Rightarrow> string \<Rightarrow> cleansed_lines \<Rightarrow> int \<Rightarrow> 's \<Rightarrow> 's py" where
  "CheckInvalidIncrement error filename clean_lines linenum s =
     py_bind (py_nth (cl_elided clean_lines) linenum) (\<lambda>line.
       py_when (Matches INVALID_INCREMENT line)
         (error filename (Some linenum) ''runtime/invalid_increment'' 5
            ''Changing pointer instead of value (or unused value of operator*).'') s)"

definition EXPLICIT_MAKEPAIR :: string where
  \<open>EXPLICIT_MAKEPAIR = rx ''`bmake_pair`s*<''\<close>

definition CheckMakePairUsesDeduction :: "'s error_fn \<Rightarrow> string \<Rightarrow> cleansed_lines \<Rightarrow> int \<Rightarrow> 's \<Rightarrow> 's py" where
  "CheckMakePairUsesDeduction error filename clean_lines linenum s =
     py_bind (py_nth (cl_elided clean_lines) linenum) (\<lambda>line.
       py_when (Finds EXPLICIT_MAKEPAIR line)
         (error filename (Some linenum) ''build/explicit_make_pair'' 4
            (''For C++11-compatibility, omit template arguments from make_pair'' @
             '' OR use pair directly OR if appropriate, construct a pair directly'')) s)"

section \<open>Indentation inside a namespace\<close>

definition DEFINE_START :: string where
  \<open>DEFINE_START = rx ''^#define''\<close>

definition BACKSLASH_AT_END :: string where
  \<open>BACKSLASH_AT_END = rx ''``$''\<close>

definition IsMacroDefinition :: "string list \<Rightarrow> int \<Rightarrow> bool py" where
  "IsMacroDefinition ls linenum =
     py_bind (py_nth ls linenum) (\<lambda>line.
       if Finds DEFINE_START line then Inr True
       else if linenum > 0 then
         py_bind (py_nth ls (linenum - 1)) (\<lambda>prev. Inr (Finds BACKSLASH_AT_END prev))
       else Inr False)"

definition FORWARD_CLASS :: string where
  \<open>FORWARD_CLASS = rx ''^`s*(`btemplate`b)*.*class`s+`w+;`s*$''\<close>

definition IsForwardClassDeclaration :: "string list \<Rightarrow> int \<Rightarrow> bool py" where
  "IsForwardClassDeclaration ls linenum =
     py_bind (py_nth ls linenum) (\<lambda>line. Inr (Matches FORWARD_CLASS line))"

definition IsBlockInNameSpace :: "nesting_state \<Rightarrow> bool \<Rightarrow> bool" where
  "IsBlockInNameSpace ns is_forward_declaration =
     (if is_forward_declaration then length (stack ns) \<ge> 1 \<and> is_namespace (hd (stack ns))
      else length (stack ns) > 1 \<and> check_namespace_indentation (hd (stack ns)) \<and> is_namespace (stack ns ! 1))"

definition ShouldCheckNamespaceIndentation :: "nesting_state \<Rightarrow> bool \<Rightarrow> string list \<Rightarrow> int \<Rightarrow> bool py" where
  "ShouldCheckNamespaceIndentation ns is_namespace_indent_item raw_lines_no_comments linenum =
     py_bind (IsForwardClassDeclaration raw_lines_no_comments linenum) (\<lambda>is_forward_declaration.
       if \<not> (is_namespace_indent_item \<or> is_forward_declaration) then Inr False
       else
         py_bind (IsMacroDefinition raw_lines_no_comments linenum) (\<lambda>macro.
           Inr (if macro then False else IsBlockInNameSpace ns is_forward_declaration)))"

definition SPACE_FIRST :: string where
  \<open>SPACE_FIRST = rx ''^`s+''\<close>

definition CheckItemIndentationInNamespace :: "'s error_fn \<Rightarrow> string \<Rightarrow> string list \<Rightarrow> int \<Rightarrow> 's \<Rightarrow> 's py" where
  "CheckItemIndentationInNamespace error filename raw_lines_no_comments linenum s =
     py_bind (py_nth raw_lines_no_comments linenum) (\<lambda>line.
       py_when (Matches SPACE_FIRST line)
         (error filename (Some linenum) ''runtime/indentation_namespace'' 4
            ''Do not indent within a namespace'') s)"

text \<open>The top of the stack is an item that was just opened directly inside a namespace.\<close>

definition namespace_indent_item :: "nesting_state \<Rightarrow> bool" where
  "namespace_indent_item ns =
     (length (stack ns) > 1 \<and> check_namespace_indentation (hd (stack ns)) \<and>
      (case previous_stack_top ns of
         None \<Rightarrow> False
       | Some p \<Rightarrow> is_namespace p \<and> ident p = ident (stack ns ! 1)))"

definition CheckForNamespaceIndentation ::
  "'s error_fn \<Rightarrow> string \<Rightarrow> nesting_state \<Rightarrow> cleansed_lines \<Rightarrow> int \<Rightarrow> 's \<Rightarrow> 's py" where
  "CheckForNamespaceIndentation error filename ns clean_lines line s =
     py_bind (ShouldCheckNamespaceIndentation ns (namespace_indent_item ns) (cl_elided clean_lines) line) (\<lambda>should.
       py_when should (CheckItemIndentationInNamespace error filename (cl_elided clean_lines) line) s)"

section \<open>C++11 and C++14\<close>

definition INCLUDE_WITH_SPACE :: string where
  \<open>INCLUDE_WITH_SPACE = rx ''`s*#`s*include`s+[<"]([^<"]+)[">]''\<close>

definition UNAPPROVED_CXX11_HEADERS :: "string list" where
  "UNAPPROVED_CXX11_HEADERS =
     [''cfenv'', ''condition_variable'', ''fenv.h'', ''future'', ''mutex'', ''thread'', ''chrono'', ''ratio'',
      ''regex'', ''system_error'']"

definition DIRECTIVE_START :: string where
  \<open>DIRECTIVE_START = rx ''`s*#''\<close>

definition DEFINE_DIRECTIVE :: string where
  \<open>DEFINE_DIRECTIVE = rx ''`s*#`s*define`b''\<close>

definition STD_NAME :: "string \<Rightarrow> string" where
  \<open>STD_NAME name = rx ''`bstd::'' @ name @ rx ''`b''\<close>

definition FlagCxx11Features :: "'s error_fn \<Rightarrow> string \<Rightarrow> cleansed_lines \<Rightarrow> int \<Rightarrow> 's \<Rightarrow> 's py" where
  "FlagCxx11Features error filename clean_lines linenum s =
     py_bind (py_nth (cl_elided clean_lines) linenum) (\<lambda>line.
       let inc = Match INCLUDE_WITH_SPACE line;
           header = (case inc of Some m \<Rightarrow> grp m 1 | None \<Rightarrow> [])
       in py_seq
            [py_when (inc \<noteq> None \<and> startswith header ''tr1/'')
               (error filename (Some linenum) ''build/c++tr1'' 5
                  (''C++ TR1 headers such as <'' @ header @ ''> are unapproved.'')),
             py_when (inc \<noteq> None \<and> header \<in> set UNAPPROVED_CXX11_HEADERS)
               (error filename (Some linenum) ''build/c++11'' 5
                  (''<'' @ header @ ''> is an unapproved C++11 header.'')),
             py_when (\<not> (Matches DIRECTIVE_START line \<and> \<not> Matches DEFINE_DIRECTIVE line))
               (py_fold (\<lambda>top_name. py_when (Finds (STD_NAME top_name) line)
                  (error filename (Some linenum) ''build/c++11'' 5
                     (''std::'' @ top_name @ '' is an unapproved C++11 class or function.  Send c-style '' @
                      ''an example of where it would make your code more readable, and '' @
                      ''they may let you use it.''))) [''alignment_of'', ''aligned_union''])] s)"

definition FlagCxx14Features :: "'s error_fn \<Rightarrow> string \<Rightarrow> cleansed_lines \<Rightarrow> int \<Rightarrow> 's \<Rightarrow> 's py" where
  "FlagCxx14Features error filename clean_lines linenum s =
     py_bind (py_nth (cl_elided clean_lines) linenum) (\<lambda>line.
       case Match INCLUDE_WITH_SPACE line of
         None \<Rightarrow> Inr s
       | Some m \<Rightarrow>
           py_when (grp m 1 \<in> {''scoped_allocator'', ''shared_mutex''})
             (error filename (Some linenum) ''build/c++14'' 5
                (''<'' @ grp m 1 @ ''> is an unapproved C++14 header.'')) s)"

section \<open>Non-standard constructs\<close>

definition PRINTF_Q :: string where
  \<open>PRINTF_Q = rx ''printf`s*`(.*".*%[-+ ]?`d*q''\<close>

definition PRINTF_POSITION :: string where
  \<open>PRINTF_POSITION = rx ''printf`s*`(.*".*%`d+`$''\<close>

definition UNDEFINED_ESCAPE :: string where
  \<open>UNDEFINED_ESCAPE = rx ''("|`').*``(%|`[|`(|{)''\<close>

definition STORAGE_CLASS_LATE :: string where
  \<open>STORAGE_CLASS_LATE =
     rx (''`b(const|volatile|void|char|short|int|long'' @
         ''|float|double|signed|unsigned'' @
         ''|schar|u?int8|u?int16|u?int32|u?int64)'' @
         ''`s+(register|static|extern|typedef)`b'')\<close>

definition ENDIF_TEXT :: string where
  \<open>ENDIF_TEXT = rx ''`s*#`s*endif`s*[^/`s]+''\<close>

definition INNER_FORWARD :: string where
  \<open>INNER_FORWARD = rx ''`s*class`s+(`w+`s*::`s*)+`w+`s*;''\<close>

definition MIN_MAX_OPERATOR :: string where
  \<open>MIN_MAX_OPERATOR = rx ''(`w+|[+-]?`d+(`.`d*)?)`s*(<|>)`?=?`s*(`w+|[+-]?`d+)(`.`d*)?''\<close>

definition STRING_REFERENCE_MEMBER :: string where
  \<open>STRING_REFERENCE_MEMBER = rx ''^`s*const`s*string`s*&`s*`w+`s*;''\<close>

definition EXPLICIT_CONSTRUCTOR :: "string \<Rightarrow> string" where
  \<open>EXPLICIT_CONSTRUCTOR name =
     rx (''`s+(?:(?:inline|constexpr)`s+)*(explicit`s+)?'' @
         ''(?:(?:inline|constexpr)`s+)*'') @ re_escape name @ rx (''`s*'' @
         ''`(((?:[^()]|`([^()]*`))*)`)'')\<close>

definition INITIALIZER_LIST :: string where
  \<open>INITIALIZER_LIST = rx ''`bstd`s*::`s*initializer_list`b''\<close>

definition COPY_CONSTRUCTOR_ARG :: "string \<Rightarrow> string" where
  \<open>COPY_CONSTRUCTOR_ARG name =
     rx ''(const`s+)?'' @ re_escape name @ rx ''(`s*<[^>]*>)?(`s+const)?`s*(?:<`w+>`s*)?&''\<close>

text \<open>
  Collapsing the arguments: an argument with more opening than closing brackets is joined with
  those behind it.  When there is none left, the code indexes behind the end of the list.
\<close>

definition arg_open :: "string \<Rightarrow> bool" where
  "arg_open a \<longleftrightarrow> py_count a ''<'' > py_count a ''>'' \<or> py_count a ''('' > py_count a '')''"

fun collapse_arg :: "string \<Rightarrow> string list \<Rightarrow> (string \<times> string list) py" where
  "collapse_arg a [] = (if arg_open a then Inl IndexError else Inr (a, []))"
| "collapse_arg a (b # rest) = (if arg_open a then collapse_arg (a @ '','' @ b) rest else Inr (a, b # rest))"

lemma collapse_arg_shorter: "collapse_arg a rest = Inr (a', rest') \<Longrightarrow> length rest' \<le> length rest"
  by (induction a rest rule: collapse_arg.induct) (auto split: if_splits)

function collapse_args :: "string list \<Rightarrow> string list py" where
  "collapse_args [] = Inr []"
| "collapse_args (a # rest) =
     (case collapse_arg a rest of
        Inl e \<Rightarrow> Inl e
      | Inr (a', rest') \<Rightarrow> py_bind (collapse_args rest') (\<lambda>args. Inr (a' # args)))"
  by pat_completeness auto
termination
  by (relation "measure length") (auto dest: collapse_arg_shorter simp: less_Suc_eq_le)

definition constructor_args :: "string \<Rightarrow> string list py" where
  "constructor_args arg_text = collapse_args (if arg_text = [] then [] else py_split arg_text '','')"

definition noarg_constructor :: "string list \<Rightarrow> bool" where
  "noarg_constructor args \<longleftrightarrow> args = [] \<or> (length args = 1 \<and> py_strip (hd args) = ''void'')"

definition defaulted_args :: "string list \<Rightarrow> string list" where
  "defaulted_args args = filter (py_in ''='') args"

definition variadic_args :: "string list \<Rightarrow> string list" where
  "variadic_args args = filter (py_in ''&&...'') args"

definition onearg_constructor :: "string list \<Rightarrow> bool" where
  "onearg_constructor args \<longleftrightarrow>
     (length args = 1 \<and> \<not> noarg_constructor args) \<or>
     (length args \<ge> 1 \<and> \<not> noarg_constructor args \<and>
      int (length (defaulted_args args)) \<ge> int (length args) - 1) \<or>
     (length args \<le> 2 \<and> length (variadic_args args) \<ge> 1)"

definition check_constructor :: "'s error_fn \<Rightarrow> string \<Rightarrow> int \<Rightarrow> string \<Rightarrow> bool \<Rightarrow> string list \<Rightarrow> 's \<Rightarrow> 's py" where
  "check_constructor error filename linenum base_classname is_marked_explicit args s =
     (let onearg = onearg_constructor args;
          initializer_list = (if onearg then Finds INITIALIZER_LIST (hd args) else False);
          copy = (if onearg then Matches (COPY_CONSTRUCTOR_ARG base_classname) (py_strip (hd args)) else False)
      in if \<not> is_marked_explicit \<and> onearg \<and> \<not> initializer_list \<and> \<not> copy then
           (if defaulted_args args \<noteq> [] \<or> variadic_args args \<noteq> []
            then error filename (Some linenum) ''runtime/explicit'' 5
                   (''Constructors callable with one argument '' @ ''should be marked explicit.'') s
            else error filename (Some linenum) ''runtime/explicit'' 5
                   ''Single-parameter constructors should be marked explicit.'' s)
         else if is_marked_explicit \<and> \<not> onearg then
           py_when (noarg_constructor args)
             (error filename (Some linenum) ''runtime/explicit'' 5
                ''Zero-parameter constructors should not be marked explicit.'') s
         else Inr s)"

text \<open>The part of the check that looks at the innermost class.\<close>

definition check_explicit :: "'s error_fn \<Rightarrow> string \<Rightarrow> int \<Rightarrow> string \<Rightarrow> nesting_state \<Rightarrow> 's \<Rightarrow> 's py" where
  "check_explicit error filename linenum line ns s =
     (case InnermostClass ns of
        None \<Rightarrow> Inr s
      | Some classinfo \<Rightarrow>
          (case kind classinfo of
             ClassInfo ci \<Rightarrow>
               if \<not> seen_open_brace classinfo then Inr s
               else
                 (let base_classname = last (py_split (class_name ci) ''::'')
                  in case Match (EXPLICIT_CONSTRUCTOR base_classname) line of
                       None \<Rightarrow> Inr s
                     | Some m \<Rightarrow>
                         py_bind (constructor_args (grp m 2))
                           (\<lambda>args. check_constructor error filename linenum base_classname (grp m 1 \<noteq> []) args s))
           | _ \<Rightarrow> Inr s))"

definition CheckForNonStandardConstructs ::
  "'s error_fn \<Rightarrow> string \<Rightarrow> cleansed_lines \<Rightarrow> int \<Rightarrow> nesting_state \<Rightarrow> 's \<Rightarrow> 's py" where
  "CheckForNonStandardConstructs error filename clean_lines linenum ns s =
     py_bind (py_nth (cl_lines clean_lines) linenum) (\<lambda>code.
     py_bind (py_nth (cl_elided clean_lines) linenum) (\<lambda>line.
       let no_escapes = py_replace code [backslash_char, backslash_char] []
       in py_seq
            [py_when (Finds PRINTF_Q code)
               (error filename (Some linenum) ''runtime/printf_format'' 3
                  ''%q in format strings is deprecated.  Use %ll instead.''),
             py_when (Finds PRINTF_POSITION code)
               (error filename (Some linenum) ''runtime/printf_format'' 2
                  ''%N$ formats are unconventional.  Try rewriting to avoid them.''),
             py_when (Finds UNDEFINED_ESCAPE no_escapes)
               (error filename (Some linenum) ''build/printf_format'' 3
                  ''%, [, (, and { are undefined character escapes.  Unescape them.''),
             py_when (Finds STORAGE_CLASS_LATE line)
               (error filename (Some linenum) ''build/storage_class'' 5
                  (''Storage-class specifier (static, extern, typedef, etc) should be '' @
                   ''at the beginning of the declaration.'')),
             py_when (Matches ENDIF_TEXT line)
               (error filename (Some linenum) ''build/endif_comment'' 5
                  ''Uncommented text after #endif is non-standard.  Use a comment.''),
             py_when (Matches INNER_FORWARD line)
               (error filename (Some linenum) ''build/forward_decl'' 5
                  ''Inner-style forward declarations are invalid.  Remove this line.''),
             py_when (Finds MIN_MAX_OPERATOR line)
               (error filename (Some linenum) ''build/deprecated'' 3
                  ''>? and <? (max and min) operators are non-standard and deprecated.''),
             py_when (Finds STRING_REFERENCE_MEMBER line)
               (error filename (Some linenum) ''runtime/member_string_references'' 2
                  (''const string& members are dangerous. It is much better to use '' @
                   ''alternatives, such as pointers or simple constants.'')),
             check_explicit error filename linenum line ns] s))"

section \<open>\<open>virtual\<close>, \<open>override\<close> and \<open>final\<close>\<close>

definition VIRTUAL :: string where
  \<open>VIRTUAL = rx ''^(.*)(`bvirtual`b)(.*)$''\<close>

definition ACCESS_AT_END :: string where
  \<open>ACCESS_AT_END = rx ''`b(public|protected|private)`s+$''\<close>

definition ACCESS_AT_START :: string where
  \<open>ACCESS_AT_START = rx ''^`s+(public|protected|private)`b''\<close>

definition SINGLE_COLON :: string where
  \<open>SINGLE_COLON = rx ''^.*[^:]:[^:].*$''\<close>

definition BEFORE_PAREN :: string where
  \<open>BEFORE_PAREN = rx ''^([^(]*)`(''\<close>

definition OVERRIDE_OR_FINAL :: string where
  \<open>OVERRIDE_OR_FINAL = rx ''`b(override|final)`b''\<close>

definition NON_WORD_AT_END :: string where
  \<open>NON_WORD_AT_END = rx ''[^`w]`s*$''\<close>

text \<open>The search for the parameter list; the result is the end of the list, or -1 and -1.\<close>

fun virtual_parameters :: "cleansed_lines \<Rightarrow> int list \<Rightarrow> int \<Rightarrow> (int \<times> int) py" where
  "virtual_parameters clean_lines [] start_col = Inr (-1, -1)"
| "virtual_parameters clean_lines (start_line # rest) start_col =
     py_bind (py_nth (cl_elided clean_lines) start_line) (\<lambda>line.
       case Match BEFORE_PAREN (py_from line start_col) of
         Some m \<Rightarrow>
           py_bind (CloseExpression clean_lines start_line (start_col + int (length (grp m 1))))
             (\<lambda>(_, end_line, end_col). Inr (end_line, end_col))
       | None \<Rightarrow> virtual_parameters clean_lines rest 0)"

fun override_after ::
  "'s error_fn \<Rightarrow> string \<Rightarrow> int \<Rightarrow> string list \<Rightarrow> int list \<Rightarrow> int \<Rightarrow> 's \<Rightarrow> 's py" where
  "override_after error filename linenum elided [] end_col s = Inr s"
| "override_after error filename linenum elided (i # rest) end_col s =
     py_bind (py_nth elided i) (\<lambda>whole.
       let line = py_from whole end_col
       in py_bind
            (case Search OVERRIDE_OR_FINAL line of
               None \<Rightarrow> Inr s
             | Some m \<Rightarrow>
                 error filename (Some linenum) ''readability/inheritance'' 4
                   ([CHR 0x22] @ ''virtual'' @ [CHR 0x22] @ '' is redundant since function is '' @
                    ''already declared as '' @ [CHR 0x22] @ grp m 1 @ [CHR 0x22]) s)
            (if Finds NON_WORD_AT_END line then Inr
             else override_after error filename linenum elided rest 0))"

definition CheckRedundantVirtual :: "'s error_fn \<Rightarrow> string \<Rightarrow> cleansed_lines \<Rightarrow> int \<Rightarrow> 's \<Rightarrow> 's py" where
  "CheckRedundantVirtual error filename clean_lines linenum s =
     py_bind (py_nth (cl_elided clean_lines) linenum) (\<lambda>line.
       case Match VIRTUAL line of
         None \<Rightarrow> Inr s
       | Some virtual \<Rightarrow>
           if Finds ACCESS_AT_END (grp virtual 1) \<or> Matches ACCESS_AT_START (grp virtual 3) then Inr s
           else if Matches SINGLE_COLON line then Inr s
           else
             py_bind (virtual_parameters clean_lines (py_range linenum (min (linenum + 3) (NumLines clean_lines)))
                        (int (length (grp virtual 2)))) (\<lambda>(end_line, end_col).
               if end_col < 0 then Inr s
               else override_after error filename linenum (cl_elided clean_lines)
                      (py_range end_line (min (end_line + 3) (NumLines clean_lines))) end_col s))"

definition OVERRIDE :: string where
  \<open>OVERRIDE = rx ''`boverride`b''\<close>

definition FINAL :: string where
  \<open>FINAL = rx ''`bfinal`b''\<close>

definition CheckRedundantOverrideOrFinal :: "'s error_fn \<Rightarrow> string \<Rightarrow> cleansed_lines \<Rightarrow> int \<Rightarrow> 's \<Rightarrow> 's py" where
  "CheckRedundantOverrideOrFinal error filename clean_lines linenum s =
     py_bind (py_nth (cl_elided clean_lines) linenum) (\<lambda>line.
       let declarator_end = py_rfind line '')''
       in py_bind
            (if declarator_end \<ge> 0 then Inr (Some (py_from line declarator_end))
             else if linenum > 1 then
               py_bind (py_nth (cl_elided clean_lines) (linenum - 1)) (\<lambda>prev.
                 Inr (if py_rfind prev '')'' \<ge> 0 then Some line else None))
             else Inr None)
            (\<lambda>fragment.
               case fragment of
                 None \<Rightarrow> Inr s
               | Some f \<Rightarrow>
                   py_when (Finds OVERRIDE f \<and> Finds FINAL f)
                     (error filename (Some linenum) ''readability/inheritance'' 4
                        ([CHR 0x22] @ ''override'' @ [CHR 0x22] @ '' is redundant since function is '' @
                         ''already declared as '' @ [CHR 0x22] @ ''final'' @ [CHR 0x22])) s))"

section \<open>The checks return\<close>

text \<open>A line number of the file gives a line in every view.\<close>

definition in_file :: "cleansed_lines \<Rightarrow> int \<Rightarrow> bool" where
  "in_file c l \<longleftrightarrow> views_ok c \<and> 0 \<le> l \<and> l < NumLines c"

lemma in_file_nth:
  assumes "in_file c l"
  shows "py_nth (cl_elided c) l = Inr (cl_elided c ! nat l)" "py_nth (cl_lines c) l = Inr (cl_lines c ! nat l)"
    "py_nth (cl_raw_lines c) l = Inr (cl_raw_lines c ! nat l)"
    "py_nth (cl_lines_without_raw_strings c) l = Inr (cl_lines_without_raw_strings c ! nat l)"
  using assms by (auto simp: in_file_def views_ok_def NumLines_def intro!: py_nth_in_range)

lemma in_file_before: "in_file c l \<Longrightarrow> 0 \<le> k \<Longrightarrow> k \<le> l \<Longrightarrow> in_file c k"
  by (simp add: in_file_def)

lemma in_file_before_nth: "in_file c l \<Longrightarrow> 0 < l \<Longrightarrow> py_nth (cl_elided c) (l - 1) = Inr (cl_elided c ! nat (l - 1))"
  by (rule in_file_nth(1)[OF in_file_before]) auto

lemma CloseExpression_in_file:
  "in_file c l \<Longrightarrow> 0 \<le> p \<Longrightarrow> p < int (length (cl_elided c ! nat l)) \<Longrightarrow> \<exists>r. CloseExpression c l p = Inr r"
  using CloseExpression_returns[of c l "cl_elided c ! nat l" p] in_file_nth(1)[of c l] by (auto simp: in_file_def)

text \<open>The character behind a group that begins the match is in the line.\<close>

lemma IsMacroDefinition_returns: "in_file c l \<Longrightarrow> \<exists>b. IsMacroDefinition (cl_elided c) l = Inr b"
  using in_file_before_nth[of c l] by (cases "0 < l") (auto simp: IsMacroDefinition_def in_file_nth)

lemma ShouldCheck_returns: "in_file c l \<Longrightarrow> \<exists>b. ShouldCheckNamespaceIndentation ns item (cl_elided c) l = Inr b"
  using IsMacroDefinition_returns[of c l]
  by (auto simp: ShouldCheckNamespaceIndentation_def IsForwardClassDeclaration_def in_file_nth)

lemma BEFORE_PAREN_compiled:
  "re_compile BEFORE_PAREN = Some (RSeq RBol (RSeq (RGroup 1 (RStar True (RSet False [CChar (CHR ''('')])))
     (RSet True [CChar (CHR ''('')])))"
  by code_simp

lemma BEFORE_PAREN_Some: "Match BEFORE_PAREN s = Some m \<Longrightarrow> length (grp m 1) < length s"
  by (drule Match_SomeD[OF _ BEFORE_PAREN_compiled], simp only: runs_eval) auto

lemma virtual_parameters_returns:
  "(\<And>i. i \<in> set is \<Longrightarrow> in_file c i) \<Longrightarrow> 0 \<le> k \<Longrightarrow>
   \<exists>l p. virtual_parameters c is k = Inr (l, p) \<and> (0 \<le> p \<longrightarrow> 0 \<le> l \<and> l < NumLines c)"
proof (induction c "is" k rule: virtual_parameters.induct)
  case (2 c i rest k)
  have i: "in_file c i" using 2(2) by simp
  let ?line = "cl_elided c ! nat i"
  show ?case
  proof (cases "Match BEFORE_PAREN (py_from ?line k)")
    case None
    with 2 i show ?thesis by (simp add: in_file_nth)
  next
    case (Some m)
    from BEFORE_PAREN_Some[OF Some] 2(3) have "k + int (length (grp m 1)) < int (length ?line)"
      by (simp add: py_from_nonneg)
    with CloseExpression_in_file[OF i] 2(3) obtain x l p where
      ce: "CloseExpression c i (k + int (length (grp m 1))) = Inr (x, l, p)"
      by (metis add_nonneg_nonneg of_nat_0_le_iff prod.exhaust)
    have "0 \<le> p \<Longrightarrow> 0 \<le> l \<and> l < NumLines c" using CloseExpression_end[OF ce] i by (auto simp: in_file_def)
    with ce Some i show ?thesis by (simp add: in_file_nth)
  qed
qed simp

context error_handler
begin

lemma CheckForMultiline_returns: "in_file c l \<Longrightarrow> inv s \<Longrightarrow> returns inv (CheckForMultilineCommentsAndStrings error f c l s)"
  unfolding CheckForMultilineCommentsAndStrings_def
  by (auto simp: in_file_nth Let_def intro!: error_when returns_bind[where P = inv])

lemma CheckPosixThreading_returns: "in_file c l \<Longrightarrow> inv s \<Longrightarrow> returns inv (CheckPosixThreading error f c l s)"
  unfolding CheckPosixThreading_def in_file_nth py_bind.simps
  by (rule returns_fold) (auto split: prod.split intro!: error_when)

lemma CheckVlogArguments_returns: "in_file c l \<Longrightarrow> inv s \<Longrightarrow> returns inv (CheckVlogArguments error f c l s)"
  unfolding CheckVlogArguments_def by (auto simp: in_file_nth intro!: error_when)

lemma CheckInvalidIncrement_returns: "in_file c l \<Longrightarrow> inv s \<Longrightarrow> returns inv (CheckInvalidIncrement error f c l s)"
  unfolding CheckInvalidIncrement_def by (auto simp: in_file_nth intro!: error_when)

lemma CheckMakePair_returns: "in_file c l \<Longrightarrow> inv s \<Longrightarrow> returns inv (CheckMakePairUsesDeduction error f c l s)"
  unfolding CheckMakePairUsesDeduction_def by (auto simp: in_file_nth intro!: error_when)

lemma CheckForNamespaceIndentation_returns:
  "in_file c l \<Longrightarrow> inv s \<Longrightarrow> returns inv (CheckForNamespaceIndentation error f ns c l s)"
  using ShouldCheck_returns[of c l ns "namespace_indent_item ns"]
  by (auto simp: CheckForNamespaceIndentation_def CheckItemIndentationInNamespace_def in_file_nth
      intro!: returns_intros error_when)

lemma FlagCxx11Features_returns: "in_file c l \<Longrightarrow> inv s \<Longrightarrow> returns inv (FlagCxx11Features error f c l s)"
  unfolding FlagCxx11Features_def in_file_nth py_bind.simps Let_def
  by (rule returns_seq) (auto intro!: returns_intros error_when returns_bind[where P = inv])

lemma check_constructor_returns: "inv s \<Longrightarrow> returns inv (check_constructor error f l base expl args s)"
  unfolding check_constructor_def Let_def by (intro returns_intros error_when error_returns)

lemma override_after_returns:
  "(\<And>i. i \<in> set is \<Longrightarrow> 0 \<le> i \<and> i < int (length ls)) \<Longrightarrow> inv s \<Longrightarrow> returns inv (override_after error f l ls is p s)"
proof (induction "is" arbitrary: p s)
  case (Cons i "is")
  then show ?case
    by (auto simp: py_nth_in_range Let_def split: option.split intro!: returns_bind[where P = inv] error_returns)
qed simp

lemma CheckRedundantVirtual_returns:
  assumes "in_file c l" and "inv s"
  shows "returns inv (CheckRedundantVirtual error f c l s)"
proof -
  have rng: "in_file c i" if "i \<in> set (py_range l (min (l + 3) (NumLines c)))" for i
    using that assms(1) by (auto simp: set_py_range in_file_def)
  have "returns inv (py_bind (virtual_parameters c (py_range l (min (l + 3) (NumLines c))) (int n)) (\<lambda>(end_line, end_col).
      if end_col < 0 then Inr s
      else override_after error f l (cl_elided c) (py_range end_line (min (end_line + 3) (NumLines c))) end_col s))" for n
  proof -
    obtain e p where v: "virtual_parameters c (py_range l (min (l + 3) (NumLines c))) (int n) = Inr (e, p)"
      "0 \<le> p \<Longrightarrow> 0 \<le> e \<and> e < NumLines c"
      using virtual_parameters_returns[OF rng] by (metis of_nat_0_le_iff)
    show ?thesis
      unfolding v(1) using assms v(2)
      by (auto intro!: override_after_returns simp: set_py_range in_file_def views_ok_def NumLines_def)
  qed
  then show ?thesis
    unfolding CheckRedundantVirtual_def using assms by (auto simp: in_file_nth split: option.split)
qed

lemma CheckRedundantOverrideOrFinal_returns:
  "in_file c l \<Longrightarrow> inv s \<Longrightarrow> returns inv (CheckRedundantOverrideOrFinal error f c l s)"
  using in_file_before_nth[of c l]
  by (auto simp: CheckRedundantOverrideOrFinal_def in_file_nth Let_def split: option.split intro!: error_when returns_intros)

end
section \<open>Constructors\<close>

text \<open>The arguments of the constructor that the check looks at, when there is one.\<close>

definition constructor_match :: "nesting_state \<Rightarrow> string \<Rightarrow> (string \<times> pmatch) option" where
  "constructor_match ns line =
     (case InnermostClass ns of
        None \<Rightarrow> None
      | Some b \<Rightarrow>
          (case kind b of
             ClassInfo ci \<Rightarrow>
               let base = last (py_split (class_name ci) ''::'')
               in if seen_open_brace b then map_option (\<lambda>m. (base, m)) (Match (EXPLICIT_CONSTRUCTOR base) line) else None
           | _ \<Rightarrow> None))"

lemma check_explicit_cases:
  "check_explicit error f l line ns s =
     (case constructor_match ns line of
        None \<Rightarrow> Inr s
      | Some (base, m) \<Rightarrow>
          py_bind (constructor_args (grp m 2)) (\<lambda>args. check_constructor error f l base (grp m 1 \<noteq> []) args s))"
  by (auto simp: check_explicit_def constructor_match_def Let_def split: option.split block_kind.split)

lemma collapse_arg_error: "collapse_arg a rest = Inl e \<Longrightarrow> e = IndexError"
  by (induction a rest rule: collapse_arg.induct) (auto split: if_splits)

lemma collapse_args_error: "collapse_args as = Inl e \<Longrightarrow> e = IndexError"
  by (induction "as" rule: collapse_args.induct)
     (auto simp: py_bind_eq_Inl dest: collapse_arg_error split: sum.splits)

text \<open>
  An argument list closes when the arguments can be cut into groups of consecutive ones, each
  joined group the first closed one from its start.
\<close>

fun joined :: "string \<Rightarrow> string list \<Rightarrow> string" where
  "joined a [] = a"
| "joined a (b # bs) = joined (a @ '','' @ b) bs"

inductive closes_up :: "string list \<Rightarrow> bool" where
  closes_nil: "closes_up []"
| closes_group: "\<not> arg_open (joined a bs) \<Longrightarrow> (\<And>k. k < length bs \<Longrightarrow> arg_open (joined a (take k bs))) \<Longrightarrow>
    closes_up rest \<Longrightarrow> closes_up (a # bs @ rest)"

lemma collapse_arg_group:
  "collapse_arg a xs = Inr (a', rest) \<Longrightarrow>
   \<exists>bs. xs = bs @ rest \<and> a' = joined a bs \<and> \<not> arg_open a' \<and> (\<forall>k < length bs. arg_open (joined a (take k bs)))"
proof (induction a xs rule: collapse_arg.induct)
  case (1 a)
  then show ?case by (auto split: if_splits)
next
  case (2 a b xs)
  show ?case
  proof (cases "arg_open a")
    case True
    with 2 obtain bs where bs: "xs = bs @ rest" "a' = joined (a @ '','' @ b) bs" "\<not> arg_open a'"
      "\<forall>k < length bs. arg_open (joined (a @ '','' @ b) (take k bs))" by auto
    have "arg_open (joined a (take k (b # bs)))" if "k < length (b # bs)" for k
      using that bs(4) True by (cases k) auto
    with bs show ?thesis by (intro exI[of _ "b # bs"]) auto
  next
    case False
    with 2(2) show ?thesis by (intro exI[of _ "[]"]) auto
  qed
qed

lemma collapse_arg_of_group:
  "\<not> arg_open (joined a bs) \<Longrightarrow> (\<And>k. k < length bs \<Longrightarrow> arg_open (joined a (take k bs))) \<Longrightarrow>
   collapse_arg a (bs @ rest) = Inr (joined a bs, rest)"
proof (induction bs arbitrary: a)
  case Nil
  then show ?case by (cases rest) auto
next
  case (Cons b bs)
  from Cons.prems(2)[of 0] have "arg_open a" by simp
  moreover have "arg_open (joined (a @ '','' @ b) (take k bs))" if "k < length bs" for k
    using Cons.prems(2)[of "Suc k"] that by simp
  ultimately show ?case using Cons.IH[of "a @ '','' @ b"] Cons.prems(1) by simp
qed

lemma collapse_args_iff: "(\<exists>r. collapse_args as = Inr r) \<longleftrightarrow> closes_up as"
proof
  assume "\<exists>r. collapse_args as = Inr r"
  then show "closes_up as"
  proof (induction "as" rule: collapse_args.induct)
    case 1
    show ?case by (rule closes_nil)
  next
    case (2 a xs)
    then obtain a' rest where ca: "collapse_arg a xs = Inr (a', rest)" and r: "\<exists>r. collapse_args rest = Inr r"
      by (auto simp: py_bind_eq_Inr split: sum.splits)
    from collapse_arg_group[OF ca] obtain bs where "xs = bs @ rest" "\<not> arg_open (joined a bs)"
      "\<forall>k < length bs. arg_open (joined a (take k bs))" by blast
    with 2(1)[OF ca refl r] show ?case by (auto intro: closes_group)
  qed
next
  assume "closes_up as"
  then show "\<exists>r. collapse_args as = Inr r"
  proof (induction rule: closes_up.induct)
    case (closes_group a bs rest)
    then show ?case by (auto simp: collapse_arg_of_group)
  qed simp
qed

lemma bind_raises: "returns P m \<Longrightarrow> (\<And>x. P x \<Longrightarrow> f x = Inl e) \<Longrightarrow> py_bind m f = Inl e"
  by (auto simp: returns_def)

definition constructor_crash :: "nesting_state \<Rightarrow> string \<Rightarrow> bool" where
  "constructor_crash ns line \<longleftrightarrow>
     (\<exists>base m. constructor_match ns line = Some (base, m) \<and> grp m 2 \<noteq> [] \<and> \<not> closes_up (py_split (grp m 2) '',''))"

lemma constructor_args_iff:
  "(\<exists>args. constructor_args t = Inr args) \<longleftrightarrow> t = [] \<or> closes_up (py_split t '','')"
  using collapse_args_iff[of "py_split t '',''"] by (simp add: constructor_args_def)

lemma no_constructor_crash:
  "\<not> constructor_crash ns line \<Longrightarrow> constructor_match ns line = Some (base, m) \<Longrightarrow> \<exists>args. constructor_args (grp m 2) = Inr args"
  by (auto simp: constructor_crash_def constructor_args_iff)

lemma constructor_crash_raises:
  assumes "constructor_crash ns line" shows "check_explicit error f l line ns s = Inl IndexError"
proof -
  from assms obtain base m where m: "constructor_match ns line = Some (base, m)" "\<nexists>args. constructor_args (grp m 2) = Inr args"
    by (auto simp: constructor_crash_def constructor_args_iff)
  then obtain e where e: "constructor_args (grp m 2) = Inl e" by (cases "constructor_args (grp m 2)") auto
  then have "e = IndexError" by (auto simp: constructor_args_def dest: collapse_args_error)
  with m(1) e show ?thesis by (simp add: check_explicit_cases)
qed

context error_handler
begin

lemma CheckForNonStandardConstructs_returns:
  assumes "in_file c l" and "inv s" and "\<not> constructor_crash ns (cl_elided c ! nat l)"
  shows "returns inv (CheckForNonStandardConstructs error f c l ns s)"
proof -
  have "returns inv (check_explicit error f l (cl_elided c ! nat l) ns s)" if "inv s" for s
    using no_constructor_crash[OF assms(3)] that
    by (fastforce simp: check_explicit_cases split: option.split intro!: check_constructor_returns)
  then show ?thesis
    unfolding CheckForNonStandardConstructs_def Let_def using assms(1,2)
    by (auto simp: in_file_nth intro!: returns_bind[where P = inv] error_when)
qed

lemma CheckForNonStandardConstructs_raises:
  assumes "in_file c l" and "inv s" and "constructor_crash ns (cl_elided c ! nat l)"
  shows "CheckForNonStandardConstructs error f c l ns s = Inl IndexError"
  unfolding CheckForNonStandardConstructs_def Let_def in_file_nth[OF assms(1)] py_bind.simps py_seq.simps
  by (rule bind_raises[OF error_when], (rule assms(2) | assumption))+ (simp add: constructor_crash_raises[OF assms(3)])

end

text \<open>C23: \<open>CheckForNonStandardConstructs\<close> returns on a line of the file, unless the line declares a
  constructor of the innermost class whose arguments cannot be closed: cutting the argument list at its
  commas and joining neighbours until the angle brackets and parentheses are closed runs out of arguments.
  On such a line, and only there, it raises an IndexError.\<close>

theorem CheckForNonStandardConstructs_raises_iff:
  assumes "in_file c l" and "filters_ok (cpplint_state w)"
  shows "if constructor_crash ns (cl_elided c ! nat l)
    then CheckForNonStandardConstructs Error filename c l ns w = Inl IndexError
    else \<exists>w'. CheckForNonStandardConstructs Error filename c l ns w = Inr w' \<and> filters_ok (cpplint_state w')"
  using printing.CheckForNonStandardConstructs_raises[OF assms, of ns filename]
    printing.CheckForNonStandardConstructs_returns[OF assms, of ns filename]
  by (auto simp: returns_def)

text \<open>A constructor whose default argument is a comparison is enough.\<close>

definition ex_constructor_file :: cleansed_lines where
  "ex_constructor_file =
     (let ls = [''class Foo {'', '' Foo(bool b = x < y);'', ''};'']
      in \<lparr>cl_elided = ls, cl_lines = ls, cl_raw_lines = ls, cl_num_lines = 3, cl_lines_without_raw_strings = ls\<rparr>)"

definition ex_constructor_nesting :: nesting_state where
  "ex_constructor_nesting =
     (case Update record_error ''foo.h'' ex_constructor_file 0 NestingState_init [] of Inr (ns, log) \<Rightarrow> ns | Inl e \<Rightarrow> NestingState_init)"

lemma ex_constructor_match:
  "map_option (\<lambda>(base, m). grp m 2) (constructor_match ex_constructor_nesting (cl_elided ex_constructor_file ! 1)) =
   Some ''bool b = x < y''"
  by code_simp

lemma single_open_argument: "arg_open a \<Longrightarrow> \<not> closes_up [a]"
  using collapse_args_iff[of "[a]"] by auto

lemma CheckForNonStandardConstructs_raises_iff_witness:
  "CheckForNonStandardConstructs Error ''foo.h'' ex_constructor_file 1 ex_constructor_nesting initial_world = Inl IndexError"
proof -
  have "in_file ex_constructor_file 1"
    by (simp add: in_file_def views_ok_def NumLines_def ex_constructor_file_def Let_def)
  moreover have "filters_ok (cpplint_state initial_world)"
    by (simp add: filters_ok_def initial_world_def CppLintState_init_def DEFAULT_FILTERS_def signed_filter_def)
  moreover have "constructor_crash ex_constructor_nesting (cl_elided ex_constructor_file ! nat 1)"
  proof -
    obtain base m where "constructor_match ex_constructor_nesting (cl_elided ex_constructor_file ! 1) = Some (base, m)"
      "grp m 2 = ''bool b = x < y''" using ex_constructor_match by auto
    moreover have "py_split ''bool b = x < y'' '','' = [''bool b = x < y'']" by code_simp
    moreover have "arg_open ''bool b = x < y''" by code_simp
    ultimately show ?thesis by (auto simp: constructor_crash_def single_open_argument)
  qed
  ultimately show ?thesis
    using CheckForNonStandardConstructs_raises_iff[of ex_constructor_file 1 initial_world ex_constructor_nesting "''foo.h''"] by simp
qed

end
