(* ===== verification/Spacing.thy ===== *)
theory Spacing
  imports Line_Checks
begin

text \<open>
  Horizontal and vertical spacing: \<open>CheckSpacingForFunctionCall\<close>, \<open>CheckComment\<close>,
  \<open>CheckSpacing\<close>, \<open>CheckOperatorSpacing\<close>, \<open>CheckParenthesisSpacing\<close>, \<open>CheckCommaSpacing\<close>,
  \<open>CheckBracesSpacing\<close> with \<open>_IsType\<close>, and \<open>CheckSectionSpacing\<close>.
\<close>

section \<open>Function calls\<close>

definition CONTROL_PATTERNS :: "string list" where
  \<open>CONTROL_PATTERNS =
     [rx ''`bif`s*`((.*)`)`s*{'', rx ''`bfor`s*`((.*)`)`s*{'', rx ''`bwhile`s*`((.*)`)`s*[{;]'',
      rx ''`bswitch`s*`((.*)`)`s*{'']\<close>

text \<open>The text in which function calls are looked for.\<close>

fun call_text :: "string list \<Rightarrow> string \<Rightarrow> string" where
  "call_text [] line = line"
| "call_text (pattern # rest) line =
     (case Search pattern line of Some m \<Rightarrow> grp m 1 | None \<Rightarrow> call_text rest line)"

definition CONTROL_KEYWORD :: string where
  \<open>CONTROL_KEYWORD = rx ''`b(if|for|while|switch|return|new|delete|catch|sizeof)`b''\<close>

definition FUNCTION_POINTER :: string where
  \<open>FUNCTION_POINTER = rx '' `([^)]+`)`([^)]*(`)|,$)''\<close>

definition ARRAY_POINTER :: string where
  \<open>ARRAY_POINTER = rx '' `([^)]+`)`[[^`]]+`]''\<close>

definition SPACE_IN_CALL :: string where
  \<open>SPACE_IN_CALL = rx ''`w`s*`(`s(?!`s*``$)''\<close>

definition SPACE_AFTER_PAREN :: string where
  \<open>SPACE_AFTER_PAREN = rx ''`(`s+(?!(`s*``)|`()''\<close>

definition SPACE_BEFORE_PAREN :: string where
  \<open>SPACE_BEFORE_PAREN = rx ''`w`s+`(''\<close>

definition ASM_VOLATILE :: string where
  \<open>ASM_VOLATILE = rx ''_{0,2}asm_{0,2}`s+_{0,2}volatile_{0,2}`s+`(''\<close>

definition DEFINE_OR_TYPEDEF :: string where
  \<open>DEFINE_OR_TYPEDEF = rx ''#`s*define|typedef|using`s+`w+`s*=''\<close>

definition MEMBER_POINTER :: string where
  \<open>MEMBER_POINTER = rx ''`w`s+`((`w+::)*`*`w+`)`(''\<close>

definition CASE_PAREN :: string where
  \<open>CASE_PAREN = rx ''`bcase`s+`(''\<close>

definition OPERATOR_WORD :: string where
  \<open>OPERATOR_WORD = rx ''`boperator_*`b''\<close>

definition SPACE_BEFORE_CLOSE :: string where
  \<open>SPACE_BEFORE_CLOSE = rx ''[^)]`s+`)`s*[^{`s]''\<close>

definition CLOSE_FIRST :: string where
  \<open>CLOSE_FIRST = rx ''^`s+`)''\<close>

definition CheckSpacingForFunctionCall ::
  "'s error_fn \<Rightarrow> string \<Rightarrow> cleansed_lines \<Rightarrow> int \<Rightarrow> 's \<Rightarrow> 's py" where
  "CheckSpacingForFunctionCall error filename clean_lines linenum s =
     py_bind (py_nth (cl_elided clean_lines) linenum) (\<lambda>line.
       let fncall = call_text CONTROL_PATTERNS line
       in py_when (\<not> Finds CONTROL_KEYWORD fncall \<and> \<not> Finds FUNCTION_POINTER fncall
                   \<and> \<not> Finds ARRAY_POINTER fncall)
            (py_seq
              [if Finds SPACE_IN_CALL fncall then
                 error filename (Some linenum) ''whitespace/parens'' 4 ''Extra space after ( in function call''
               else
                 py_when (Finds SPACE_AFTER_PAREN fncall)
                   (error filename (Some linenum) ''whitespace/parens'' 2 ''Extra space after (''),
               py_when (Finds SPACE_BEFORE_PAREN fncall \<and> \<not> Finds ASM_VOLATILE fncall
                        \<and> \<not> Finds DEFINE_OR_TYPEDEF fncall \<and> \<not> Finds MEMBER_POINTER fncall
                        \<and> \<not> Finds CASE_PAREN fncall)
                 (if Finds OPERATOR_WORD line then
                    error filename (Some linenum) ''whitespace/parens'' 0 ''Extra space before ( in function call''
                  else
                    error filename (Some linenum) ''whitespace/parens'' 4 ''Extra space before ( in function call''),
               py_when (Finds SPACE_BEFORE_CLOSE fncall)
                 (if Finds CLOSE_FIRST fncall then
                    error filename (Some linenum) ''whitespace/parens'' 2
                      ''Closing ) should be moved to the previous line''
                  else error filename (Some linenum) ''whitespace/parens'' 2 ''Extra space before )'')]) s)"

section \<open>Comments\<close>

definition IsBlankLine :: "string \<Rightarrow> bool" where
  "IsBlankLine line = (line = [] \<or> py_isspace line)"

definition PATTERN_TODO :: string where
  \<open>PATTERN_TODO = rx ''^//(`s*)TODO(`(.+?`))?:?(`s|$)?''\<close>

definition ESCAPED_CHAR :: string where
  \<open>ESCAPED_CHAR = rx ''``.''\<close>

definition SCOPE_COMMENT :: string where
  \<open>SCOPE_COMMENT = rx ''^.*{ *//''\<close>

definition WORD_IN_COMMENT :: string where
  \<open>WORD_IN_COMMENT = rx ''//[^ ]*`w''\<close>

definition DOXYGEN :: string where
  \<open>DOXYGEN = rx ''(///|//`!)(`s+|$)''\<close>

definition check_todo :: "'s error_fn \<Rightarrow> string \<Rightarrow> int \<Rightarrow> pmatch \<Rightarrow> 's \<Rightarrow> 's py" where
  \<open>check_todo error filename linenum m = py_seq
     [py_when (length (grp m 1) > 1)
        (error filename (Some linenum) ''whitespace/todo'' 2 ''Too many spaces before TODO''),
      py_when (grp m 2 = [])
        (error filename (Some linenum) ''readability/todo'' 2
           (''Missing username in TODO; it should look like '' @ ''"// TODO(my_username): Stuff."'')),
      py_when (group m 3 \<noteq> Some '' '' \<and> group m 3 \<noteq> Some [])
        (error filename (Some linenum) ''whitespace/todo'' 2 ''TODO(my_username) should be followed by a space'')]\<close>

text \<open>The comment starts at \<open>commentpos\<close>; the one or two characters before it are looked at.\<close>

definition crowded :: "string \<Rightarrow> int \<Rightarrow> bool" where
  "crowded line commentpos \<longleftrightarrow>
     (commentpos \<ge> 1 \<and> \<not> in_whitespace (line ! nat (commentpos - 1))) \<or>
     (commentpos \<ge> 2 \<and> \<not> in_whitespace (line ! nat (commentpos - 2)))"

definition CheckComment :: "'s error_fn \<Rightarrow> string \<Rightarrow> string \<Rightarrow> int \<Rightarrow> int \<Rightarrow> 's \<Rightarrow> 's py" where
  "CheckComment error line filename linenum next_line_start =
     (let commentpos = py_find line ''//'';
          comment = py_from line commentpos
      in py_when (commentpos \<noteq> -1 \<and>
                  py_count (re_sub ESCAPED_CHAR (\<lambda>_. []) (py_upto line commentpos)) [CHR 0x22] mod 2 = 0)
           (py_seq
              [py_when (\<not> (Matches SCOPE_COMMENT line \<and> next_line_start = commentpos) \<and> crowded line commentpos)
                 (error filename (Some linenum) ''whitespace/comments'' 2
                    ''At least two spaces is best between code and comments''),
               (case Match PATTERN_TODO comment of
                  Some m \<Rightarrow> check_todo error filename linenum m
                | None \<Rightarrow> Inr),
               py_when (Matches WORD_IN_COMMENT comment \<and> \<not> Matches DOXYGEN comment)
                 (error filename (Some linenum) ''whitespace/comments'' 4
                    ''Should have a space between // and comment'')]))"

section \<open>Blank lines, brackets and colons\<close>

definition SIX_SPACES :: string where
  \<open>SIX_SPACES = rx '' {6}`w''\<close>

definition LAST_PARAMETER_LINE :: string where
  \<open>LAST_PARAMETER_LINE = rx '' {4}`w[^`(]*`)`s*(const`s*)?(`{`s*$|:)''\<close>

definition INITIALIZER_COLON :: string where
  \<open>INITIALIZER_COLON = rx '' {4}:''\<close>

definition CLOSING_BRACE_FIRST :: string where
  \<open>CLOSING_BRACE_FIRST = rx ''`s*}''\<close>

definition ACCESS_LABEL :: string where
  \<open>ACCESS_LABEL = rx ''`s*(public|protected|private):''\<close>

definition SPACE_BEFORE_BRACKET :: string where
  \<open>SPACE_BEFORE_BRACKET = rx ''`w`s+`[''\<close>

definition BRACKET_KEYWORD :: string where
  \<open>BRACKET_KEYWORD = rx ''(?:auto&?|delete|return)`s+`[''\<close>

definition COLON_NO_SPACE_AFTER :: string where
  \<open>COLON_NO_SPACE_AFTER = rx ''for *`(.*[^:]:[^: ]''\<close>

definition COLON_NO_SPACE_BEFORE :: string where
  \<open>COLON_NO_SPACE_BEFORE = rx ''for *`(.*[^: ]:[^:]''\<close>

text \<open>A blank line behind an opening brace is excused below the head of a function.\<close>

definition blank_line_exception :: "string list \<Rightarrow> int \<Rightarrow> string \<Rightarrow> bool py" where
  "blank_line_exception elided linenum prev_line =
     (if Matches SIX_SPACES prev_line then
        py_bind (py_find_index (\<lambda>l. \<not> Matches SIX_SPACES l) elided (py_range_down (linenum - 2) (-1)))
          (\<lambda>search_position.
             case search_position of
               None \<Rightarrow> Inr False
             | Some p \<Rightarrow> py_bind (py_nth elided p) (\<lambda>l. Inr (py_upto l 5 = ''    :'')))
      else Inr (Matches LAST_PARAMETER_LINE prev_line \<or> Matches INITIALIZER_COLON prev_line))"

definition blank_after_brace :: "'s error_fn \<Rightarrow> string \<Rightarrow> string list \<Rightarrow> int \<Rightarrow> string \<Rightarrow> 's \<Rightarrow> 's py" where
  "blank_after_brace error filename elided linenum prev_line s =
     (let prevbrace = py_rfind prev_line ''{''
      in if prevbrace \<noteq> -1 \<and> py_find (py_from prev_line prevbrace) ''}'' = -1 then
           py_bind (blank_line_exception elided linenum prev_line) (\<lambda>exception.
             py_when (\<not> exception)
               (error filename (Some linenum) ''whitespace/blank_line'' 2
                  (''Redundant blank line at the start of a code block '' @ ''should be deleted.'')) s)
         else Inr s)"

definition blank_before_brace :: "'s error_fn \<Rightarrow> string \<Rightarrow> cleansed_lines \<Rightarrow> int \<Rightarrow> 's \<Rightarrow> 's py" where
  "blank_before_brace error filename clean_lines linenum s =
     (if linenum + 1 < NumLines clean_lines then
        py_bind (py_nth (cl_lines_without_raw_strings clean_lines) (linenum + 1)) (\<lambda>next_line.
          py_when (next_line \<noteq> [] \<and> Matches CLOSING_BRACE_FIRST next_line \<and> py_find next_line ''} else '' = -1)
            (error filename (Some linenum) ''whitespace/blank_line'' 3
               (''Redundant blank line at the end of a code block '' @ ''should be deleted.'')) s)
      else Inr s)"

definition check_blank_line ::
  "'s error_fn \<Rightarrow> string \<Rightarrow> cleansed_lines \<Rightarrow> int \<Rightarrow> 's \<Rightarrow> 's py" where
  \<open>check_blank_line error filename clean_lines linenum s =
     py_bind (py_nth (cl_elided clean_lines) (linenum - 1)) (\<lambda>prev_line. py_seq
       [blank_after_brace error filename (cl_elided clean_lines) linenum prev_line,
        blank_before_brace error filename clean_lines linenum,
        (case Match ACCESS_LABEL prev_line of
           None \<Rightarrow> Inr
         | Some m \<Rightarrow>
             error filename (Some linenum) ''whitespace/blank_line'' 3
               (''Do not leave a blank line after "'' @ grp m 1 @ '':"''))] s)\<close>

definition next_line_start :: "cleansed_lines \<Rightarrow> int \<Rightarrow> int py" where
  "next_line_start clean_lines linenum =
     (if linenum + 1 < NumLines clean_lines then
        py_bind (py_nth (cl_lines_without_raw_strings clean_lines) (linenum + 1)) (\<lambda>next_line.
          Inr (int (length next_line) - int (length (py_lstrip next_line))))
      else Inr 0)"

definition CheckSpacing ::
  "'s error_fn \<Rightarrow> string \<Rightarrow> cleansed_lines \<Rightarrow> int \<Rightarrow> nesting_state \<Rightarrow> 's \<Rightarrow> 's py" where
  "CheckSpacing error filename clean_lines linenum ns s =
     py_bind (py_nth (cl_lines_without_raw_strings clean_lines) linenum) (\<lambda>raw_line.
       py_seq
         [py_when (IsBlankLine raw_line \<and> \<not> InNamespaceBody ns \<and> \<not> InExternC ns)
            (check_blank_line error filename clean_lines linenum),
          (\<lambda>s. py_bind (next_line_start clean_lines linenum) (\<lambda>start.
             CheckComment error raw_line filename linenum start s)),
          (\<lambda>s. py_bind (py_nth (cl_elided clean_lines) linenum) (\<lambda>line. py_seq
             [py_when (Finds SPACE_BEFORE_BRACKET line \<and> \<not> Finds BRACKET_KEYWORD line)
                (error filename (Some linenum) ''whitespace/braces'' 5 ''Extra space before [''),
              py_when (Finds COLON_NO_SPACE_AFTER line \<or> Finds COLON_NO_SPACE_BEFORE line)
                (error filename (Some linenum) ''whitespace/forcolon'' 2
                   ''Missing space around colon in range-based for loop'')] s))] s)"

section \<open>Operators\<close>

definition OPERATOR_METHOD :: string where
  \<open>OPERATOR_METHOD = rx ''^(.*`boperator`b)(`S+)(`s*`(.*)$''\<close>

text \<open>
  The names of operator methods are overwritten with underscores.  Each round overwrites a
  character that is not a word character, so the number of other characters goes down.
\<close>

definition unmasked :: "string \<Rightarrow> nat" where
  "unmasked line = length (filter (\<lambda>c. c \<noteq> CHR ''_'') line)"

definition mask_method :: "pmatch \<Rightarrow> string" where
  "mask_method m = grp m 1 @ replicate (length (grp m 2)) (CHR ''_'') @ grp m 3"

lemma OPERATOR_METHOD_compiled:
  "re_compile OPERATOR_METHOD = Some
    (RSeq RBol (RSeq (RGroup 1 (RSeq (RStar True RAny) (RSeq RWordB
       (RSeq (RLit (CHR ''o'')) (RSeq (RLit (CHR ''p'')) (RSeq (RLit (CHR ''e'')) (RSeq (RLit (CHR ''r''))
       (RSeq (RLit (CHR ''a'')) (RSeq (RLit (CHR ''t'')) (RSeq (RLit (CHR ''o'')) (RSeq (RLit (CHR ''r'')) RWordB)))))))))))
     (RSeq (RGroup 2 (RSeq (RSet True [CSpace False]) (RStar True (RSet True [CSpace False]))))
     (RSeq (RGroup 3 (RSeq (RStar True (RSet True [CSpace True])) (RSeq (RLit (CHR ''('')) (RStar True RAny)))) REol))))"
  by code_simp

lemma OPERATOR_METHOD_Some:
  assumes "Match OPERATOR_METHOD s = Some m"
  shows "\<exists>rest. s = grp m 1 @ grp m 2 @ grp m 3 @ rest \<and> rest \<in> {[], [newline_char]} \<and> grp m 2 \<noteq> [] \<and>
    \<not> is_word (hd (grp m 2))"
proof -
  have r: "is_word (CHR ''r'')" by code_simp
  from Match_SomeD[OF assms OPERATOR_METHOD_compiled] r show ?thesis
    by (simp only: runs_eval) (auto simp: at_word_boundary_def set_accepts_def head_is_word_def)
qed

lemma mask_method_decreases:
  assumes "Match OPERATOR_METHOD s = Some m"
  shows "unmasked (mask_method m) < unmasked s" and "length (mask_method m) \<le> length s"
proof -
  obtain rest where s: "s = grp m 1 @ grp m 2 @ grp m 3 @ rest" and ne: "grp m 2 \<noteq> []"
    and nw: "\<not> is_word (hd (grp m 2))"
    using OPERATOR_METHOD_Some[OF assms] by blast
  have "is_word (CHR ''_'')" by code_simp
  with nw ne have "filter (\<lambda>c. c \<noteq> CHR ''_'') (grp m 2) \<noteq> []"
    by (cases "grp m 2") auto
  then show "unmasked (mask_method m) < unmasked s"
    by (subst s) (simp add: unmasked_def mask_method_def)
  show "length (mask_method m) \<le> length s"
    by (subst s) (simp add: mask_method_def)
qed

function mask_operators :: "string \<Rightarrow> string" where
  "mask_operators line =
     (case Match OPERATOR_METHOD line of
        Some m \<Rightarrow> mask_operators (mask_method m)
      | None \<Rightarrow> line)"
  by pat_completeness auto
termination
  by (relation "measure unmasked") (auto dest: mask_method_decreases)

declare mask_operators.simps [simp del]

definition EQUALS_AFTER :: string where
  \<open>EQUALS_AFTER = rx ''[`w.]=''\<close>

definition EQUALS_BEFORE :: string where
  \<open>EQUALS_BEFORE = rx ''=[`w.]''\<close>

definition CONDITION_WORD :: string where
  \<open>CONDITION_WORD = rx ''`b(if|while|for) ''\<close>

definition COMPOUND_OPERATOR :: string where
  \<open>COMPOUND_OPERATOR = rx ''(>=|<=|==|!=|&=|`^=|`|=|`+=|`*=|`/=|`%=)''\<close>

definition OPERATOR_EQUALS :: string where
  \<open>OPERATOR_EQUALS = rx ''operator=''\<close>

definition COMPARISON :: string where
  \<open>COMPARISON = rx ''[^<>=!`s](==|!=|<=|>=|`|`|)[^<>=!`s,;`)]''\<close>

definition INCLUDE_LINE :: string where
  \<open>INCLUDE_LINE = rx ''#.*include''\<close>

definition LESS_NO_SPACE :: string where
  \<open>LESS_NO_SPACE = rx ''^(.*[^`s<])<[^`s=<,]''\<close>

definition GREATER_NO_SPACE :: string where
  \<open>GREATER_NO_SPACE = rx ''^(.*[^-`s>])>[^`s=>,]''\<close>

definition SHIFT_LEFT :: string where
  \<open>SHIFT_LEFT = rx ''(operator|[^`s(<])(?:L|UL|LL|ULL|l|ul|ll|ull)?<<([^`s,=<])''\<close>

definition SHIFT_RIGHT :: string where
  \<open>SHIFT_RIGHT = rx ''>>[a-zA-Z_]''\<close>

definition UNARY_SPACE :: string where
  \<open>UNARY_SPACE = rx ''(!`s|~`s|[`s]--[`s;]|[`s]`+`+[`s;])''\<close>

definition check_less :: "'s error_fn \<Rightarrow> string \<Rightarrow> cleansed_lines \<Rightarrow> int \<Rightarrow> string \<Rightarrow> 's \<Rightarrow> 's py" where
  "check_less error filename clean_lines linenum line s =
     (case Match LESS_NO_SPACE line of
        None \<Rightarrow> Inr s
      | Some m \<Rightarrow>
          py_bind (CloseExpression clean_lines linenum (int (length (grp m 1)))) (\<lambda>(_, _, end_pos).
            py_when (end_pos \<le> -1)
              (error filename (Some linenum) ''whitespace/operators'' 3 ''Missing spaces around <'') s))"

definition check_greater :: "'s error_fn \<Rightarrow> string \<Rightarrow> cleansed_lines \<Rightarrow> int \<Rightarrow> string \<Rightarrow> 's \<Rightarrow> 's py" where
  "check_greater error filename clean_lines linenum line s =
     (case Match GREATER_NO_SPACE line of
        None \<Rightarrow> Inr s
      | Some m \<Rightarrow>
          py_bind (ReverseCloseExpression clean_lines linenum (int (length (grp m 1)))) (\<lambda>(_, _, start_pos).
            py_when (start_pos \<le> -1)
              (error filename (Some linenum) ''whitespace/operators'' 3 ''Missing spaces around >'') s))"

text \<open>Shifts of one number by another may go without spaces.\<close>

definition shift_reported :: "pmatch \<Rightarrow> bool" where
  "shift_reported m \<longleftrightarrow>
     \<not> (py_isdigit (grp m 1) \<and> py_isdigit (grp m 2)) \<and> \<not> (grp m 1 = ''operator'' \<and> grp m 2 = '';'')"

definition CheckOperatorSpacing :: "'s error_fn \<Rightarrow> string \<Rightarrow> cleansed_lines \<Rightarrow> int \<Rightarrow> 's \<Rightarrow> 's py" where
  "CheckOperatorSpacing error filename clean_lines linenum s =
     py_bind (py_nth (cl_elided clean_lines) linenum) (\<lambda>elided_line.
       let line = mask_operators elided_line
       in py_seq
            [py_when ((Finds EQUALS_AFTER line \<or> Finds EQUALS_BEFORE line) \<and> \<not> Finds CONDITION_WORD line
                      \<and> \<not> Finds COMPOUND_OPERATOR line \<and> \<not> Finds OPERATOR_EQUALS line)
               (error filename (Some linenum) ''whitespace/operators'' 4 ''Missing spaces around =''),
             (case Search COMPARISON line of
                Some m \<Rightarrow>
                  error filename (Some linenum) ''whitespace/operators'' 3 (''Missing spaces around '' @ grp m 1)
              | None \<Rightarrow>
                  py_when (\<not> Matches INCLUDE_LINE line)
                    (py_seq [check_less error filename clean_lines linenum line,
                             check_greater error filename clean_lines linenum line])),
             (case Search SHIFT_LEFT line of
                None \<Rightarrow> Inr
              | Some m \<Rightarrow>
                  py_when (shift_reported m)
                    (error filename (Some linenum) ''whitespace/operators'' 3 ''Missing spaces around <<'')),
             py_when (Finds SHIFT_RIGHT line)
               (error filename (Some linenum) ''whitespace/operators'' 3 ''Missing spaces around >>''),
             (case Search UNARY_SPACE line of
                None \<Rightarrow> Inr
              | Some m \<Rightarrow>
                  error filename (Some linenum) ''whitespace/operators'' 4
                    (''Extra space for operator '' @ grp m 1))] s)"

section \<open>Parentheses, commas and semicolons\<close>

definition KEYWORD_PAREN :: string where
  \<open>KEYWORD_PAREN = rx '' (if`(|for`(|while`(|switch`()''\<close>

definition CONDITION_PARENS :: string where
  \<open>CONDITION_PARENS = rx (''`b(if|for|while|switch)`s*'' @ ''`(([ ]*)(.).*[^ ]+([ ]*)`)`s*{`s*$'')\<close>

definition FOR_NO_STEP :: string where
  \<open>FOR_NO_STEP = rx ''`bfor`s*`(.*; `)''\<close>

definition CheckParenthesisSpacing :: "'s error_fn \<Rightarrow> string \<Rightarrow> cleansed_lines \<Rightarrow> int \<Rightarrow> 's \<Rightarrow> 's py" where
  "CheckParenthesisSpacing error filename clean_lines linenum s =
     py_bind (py_nth (cl_elided clean_lines) linenum) (\<lambda>line.
       py_seq
         [(case Search KEYWORD_PAREN line of
             None \<Rightarrow> Inr
           | Some m \<Rightarrow>
               error filename (Some linenum) ''whitespace/parens'' 5 (''Missing space before ( in '' @ grp m 1)),
          (case Search CONDITION_PARENS line of
             None \<Rightarrow> Inr
           | Some m \<Rightarrow>
               let before = length (grp m 2); behind = length (grp m 4)
               in py_seq
                    [py_when (before \<noteq> behind \<and>
                              \<not> (grp m 3 = '';'' \<and> before = 1 + behind \<or> grp m 2 = [] \<and> Finds FOR_NO_STEP line))
                       (error filename (Some linenum) ''whitespace/parens'' 5
                          (''Mismatching spaces inside () in '' @ grp m 1)),
                     py_when (before \<notin> {0, 1})
                       (error filename (Some linenum) ''whitespace/parens'' 5
                          (''Should have zero or one spaces inside ( and ) in '' @ grp m 1))])] s)"

definition OPERATOR_COMMA :: string where
  \<open>OPERATOR_COMMA = rx ''`boperator`s*,`s*`(''\<close>

definition COMMA_NO_SPACE :: string where
  \<open>COMMA_NO_SPACE = rx '',[^,`s]''\<close>

definition SEMICOLON_NO_SPACE :: string where
  \<open>SEMICOLON_NO_SPACE = rx '';[^`s};``)/]''\<close>

definition CheckCommaSpacing :: "'s error_fn \<Rightarrow> string \<Rightarrow> cleansed_lines \<Rightarrow> int \<Rightarrow> 's \<Rightarrow> 's py" where
  "CheckCommaSpacing error filename clean_lines linenum s =
     py_bind (py_nth (cl_elided clean_lines) linenum) (\<lambda>line.
       py_bind (if Finds COMMA_NO_SPACE (ReplaceAll OPERATOR_COMMA ''F('' line)
                then py_bind (py_nth (cl_lines_without_raw_strings clean_lines) linenum)
                       (\<lambda>raw_line. Inr (Finds COMMA_NO_SPACE raw_line))
                else Inr False) (\<lambda>missing.
         py_seq
           [py_when missing (error filename (Some linenum) ''whitespace/comma'' 3 ''Missing space after ,''),
            py_when (Finds SEMICOLON_NO_SPACE line)
              (error filename (Some linenum) ''whitespace/semicolon'' 3 ''Missing space after ;'')] s))"

section \<open>Types\<close>

definition TYPES :: string where
  \<open>TYPES =
     rx (''^(?:'' @
         ''(char(16_t|32_t)?)|wchar_t|'' @
         ''bool|short|int|long|signed|unsigned|float|double|'' @
         ''(ptrdiff_t|size_t|max_align_t|nullptr_t)|'' @
         ''(u?int(_fast|_least)?(8|16|32|64)_t)|'' @
         ''(u?int(max|ptr)_t)|'' @
         '')$'')\<close>

definition LAST_WORD :: string where
  \<open>LAST_WORD = rx ''^.*(`b`S+)$''\<close>

definition last_token :: "string \<Rightarrow> string" where
  "last_token expr = (case Match LAST_WORD expr of Some m \<Rightarrow> grp m 1 | None \<Rightarrow> expr)"

definition TYPENAME_DECL :: "string \<Rightarrow> string" where
  \<open>TYPENAME_DECL token = rx ''`b(?:typename|class|struct)`s+'' @ re_escape token @ rx ''`b''\<close>

text \<open>
  The walk up the nesting stack.  For a block, the lines from its start up to the start of the
  enclosing block are searched for \<open>template\<close>; from there on the lines of its head are searched
  for a declaration of the name.  A namespace ends the walk.
\<close>

fun is_type_in_blocks :: "string list \<Rightarrow> string \<Rightarrow> block_info list \<Rightarrow> bool py" where
  "is_type_in_blocks elided pattern [] = Inr False"
| "is_type_in_blocks elided pattern (b # bs) =
     (if is_namespace b then Inr False
      else
        (let last_line = starting_linenum b;
             next_block_start = (case bs of [] \<Rightarrow> 0 | b' # _ \<Rightarrow> starting_linenum b')
         in py_bind (py_find_index (\<lambda>l. py_find l ''template'' \<ge> 0) elided
                       (py_range_down last_line (next_block_start - 1))) (\<lambda>found.
              case found of
                None \<Rightarrow> is_type_in_blocks elided pattern bs
              | Some first_line \<Rightarrow>
                  py_bind (py_find_index (Finds pattern) elided (py_range first_line (last_line + 1))) (\<lambda>hit.
                    if hit \<noteq> None then Inr True else is_type_in_blocks elided pattern bs))))"

definition IsType :: "cleansed_lines \<Rightarrow> nesting_state \<Rightarrow> string \<Rightarrow> bool py" where
  "IsType clean_lines ns expr =
     (let token = last_token expr
      in if Matches TYPES token then Inr True
         else is_type_in_blocks (cl_elided clean_lines) (TYPENAME_DECL token) (stack ns))"

section \<open>Braces\<close>

definition NO_SPACE_BRACE :: string where
  \<open>NO_SPACE_BRACE = rx ''^(.*[^ ({>]){''\<close>

definition AFTER_INITIALIZER :: string where
  \<open>AFTER_INITIALIZER = rx ''^[`s}]*[{.;,)<>`]:]''\<close>

definition BRACE_ELSE :: string where
  \<open>BRACE_ELSE = rx ''}else''\<close>

definition LABEL_SEMICOLON :: string where
  \<open>LABEL_SEMICOLON = rx '':`s*;`s*$''\<close>

definition ONLY_SEMICOLON :: string where
  \<open>ONLY_SEMICOLON = rx ''^`s*;`s*$''\<close>

definition SPACE_SEMICOLON :: string where
  \<open>SPACE_SEMICOLON = rx ''`s+;`s*$''\<close>

definition FOR_WORD :: string where
  \<open>FOR_WORD = rx ''`bfor`b''\<close>

fun concat_lines :: "string list \<Rightarrow> int list \<Rightarrow> string \<Rightarrow> string py" where
  "concat_lines elided [] acc = Inr acc"
| "concat_lines elided (i # is) acc = py_bind (py_nth elided i) (\<lambda>l. concat_lines elided is (acc @ l))"

definition check_brace_space ::
  "'s error_fn \<Rightarrow> string \<Rightarrow> cleansed_lines \<Rightarrow> int \<Rightarrow> nesting_state \<Rightarrow> pmatch \<Rightarrow> 's \<Rightarrow> 's py" where
  "check_brace_space error filename clean_lines linenum ns m s =
     py_bind (CloseExpression clean_lines linenum (int (length (grp m 1)))) (\<lambda>(endline, endlinenum, endpos).
     py_bind (concat_lines (cl_elided clean_lines)
                (py_range (endlinenum + 1) (min (endlinenum + 3) (NumLines clean_lines - 1)))
                (if endpos > -1 then py_from endline endpos else [])) (\<lambda>trailing_text.
     py_bind (if Matches AFTER_INITIALIZER trailing_text then Inr True
              else IsType clean_lines ns (grp m 1)) (\<lambda>initialization.
       py_when (\<not> initialization)
         (error filename (Some linenum) ''whitespace/braces'' 5 ''Missing space before {'') s)))"

definition CheckBracesSpacing ::
  "'s error_fn \<Rightarrow> string \<Rightarrow> cleansed_lines \<Rightarrow> int \<Rightarrow> nesting_state \<Rightarrow> 's \<Rightarrow> 's py" where
  "CheckBracesSpacing error filename clean_lines linenum ns s =
     py_bind (py_nth (cl_elided clean_lines) linenum) (\<lambda>line.
       py_seq
         [(case Match NO_SPACE_BRACE line of
             None \<Rightarrow> Inr
           | Some m \<Rightarrow> check_brace_space error filename clean_lines linenum ns m),
          py_when (Finds BRACE_ELSE line)
            (error filename (Some linenum) ''whitespace/braces'' 5 ''Missing space before else''),
          (if Finds LABEL_SEMICOLON line then
             error filename (Some linenum) ''whitespace/semicolon'' 5
               ''Semicolon defining empty statement. Use {} instead.''
           else if Finds ONLY_SEMICOLON line then
             error filename (Some linenum) ''whitespace/semicolon'' 5
               (''Line contains only semicolon. If this should be an empty statement, '' @ ''use {} instead.'')
           else
             py_when (Finds SPACE_SEMICOLON line \<and> \<not> Finds FOR_WORD line)
               (error filename (Some linenum) ''whitespace/semicolon'' 5
                  (''Extra space before last semicolon. If this should be an empty '' @
                   ''statement, use {} instead.'')))] s)"

definition DECLTYPE :: string where
  \<open>DECLTYPE = rx ''`bdecltype`s*$''\<close>

definition IsDecltype :: "cleansed_lines \<Rightarrow> int \<Rightarrow> int \<Rightarrow> bool py" where
  "IsDecltype clean_lines linenum column =
     py_bind (ReverseCloseExpression clean_lines linenum column) (\<lambda>(line, _, start_col).
       Inr (if start_col < 0 then False else Finds DECLTYPE (py_upto line start_col)))"

section \<open>Sections of a class\<close>

definition CLASS_OR_STRUCT :: string where
  \<open>CLASS_OR_STRUCT = rx ''`b(class|struct)`b''\<close>

definition ENDS_WITH_BACKSLASH :: string where
  \<open>ENDS_WITH_BACKSLASH = rx ''``$''\<close>

definition BRACE_AT_END :: string where
  \<open>BRACE_AT_END = rx ''`{`s*$''\<close>

definition check_section ::
  "'s error_fn \<Rightarrow> string \<Rightarrow> cleansed_lines \<Rightarrow> block_info \<Rightarrow> int \<Rightarrow> pmatch \<Rightarrow> 's \<Rightarrow> 's py" where
  \<open>check_section error filename clean_lines b linenum m s =
     py_bind (py_nth (cl_lines clean_lines) (linenum - 1)) (\<lambda>prev_line.
       if \<not> IsBlankLine prev_line \<and> \<not> Finds CLASS_OR_STRUCT prev_line
          \<and> \<not> Finds ENDS_WITH_BACKSLASH prev_line then
         py_bind (py_find_index (Finds BRACE_AT_END) (cl_lines clean_lines)
                    (py_range (starting_linenum b) linenum)) (\<lambda>found.
           let end_class_head = (case found of Some i \<Rightarrow> i | None \<Rightarrow> starting_linenum b)
           in py_when (end_class_head < linenum - 1)
                (error filename (Some linenum) ''whitespace/blank_line'' 3
                   (''"'' @ grp m 1 @ '':" should be preceded by a blank line'')) s)
       else Inr s)\<close>

definition CheckSectionSpacing ::
  "'s error_fn \<Rightarrow> string \<Rightarrow> cleansed_lines \<Rightarrow> block_info \<Rightarrow> int \<Rightarrow> 's \<Rightarrow> 's py" where
  "CheckSectionSpacing error filename clean_lines class_info linenum s =
     (case kind class_info of
        ClassInfo ci \<Rightarrow>
          if last_line ci - starting_linenum class_info \<le> 24 \<or> linenum \<le> starting_linenum class_info
          then Inr s
          else
            py_bind (py_nth (cl_lines clean_lines) linenum) (\<lambda>line.
              case Match ACCESS_LABEL line of
                None \<Rightarrow> Inr s
              | Some m \<Rightarrow> check_section error filename clean_lines class_info linenum m s)
      | _ \<Rightarrow> Inl AttributeError)"

section \<open>The checks return\<close>

lemma in_file_range: "in_file c l \<Longrightarrow> 0 \<le> k \<Longrightarrow> k < NumLines c \<Longrightarrow> in_file c k"
  by (simp add: in_file_def)

text \<open>Searching lines of the file.\<close>

lemma find_lines_returns:
  assumes "views_ok c" and "\<And>i. i \<in> set is \<Longrightarrow> 0 \<le> i \<and> i < NumLines c"
  shows "returns (\<lambda>found. \<forall>i. found = Some i \<longrightarrow> i \<in> set is) (py_find_index P (cl_elided c) is)"
    "returns (\<lambda>found. \<forall>i. found = Some i \<longrightarrow> i \<in> set is) (py_find_index P (cl_lines c) is)"
  using assms
  by (auto intro!: returns_weaken[OF py_find_index_returns] simp: views_ok_def NumLines_def)

lemma py_nth_last: "xs \<noteq> [] \<Longrightarrow> py_nth xs (-1) = Inr (last xs)"
  by (simp add: py_nth_def last_conv_nth Let_def nat_diff_distrib' Suc_le_eq)

text \<open>The line before the first one is the last one of the file.\<close>

lemma in_file_prev: "in_file c l \<Longrightarrow> \<exists>x. py_nth (cl_elided c) (l - 1) = Inr x"
proof (cases "l = 0")
  case True
  assume "in_file c l"
  with True show ?thesis by (auto simp: in_file_def views_ok_def NumLines_def intro!: exI py_nth_last)
next
  case False
  assume "in_file c l"
  with False in_file_before_nth[of c l] show ?thesis by (auto simp: in_file_def)
qed

lemma concat_lines_returns:
  "(\<And>i. i \<in> set is \<Longrightarrow> 0 \<le> i \<and> i < int (length ls)) \<Longrightarrow> \<exists>t. concat_lines ls is acc = Inr t"
  by (induction "is" arbitrary: acc) (auto simp: py_nth_in_range)

lemma is_type_in_blocks_returns:
  assumes "views_ok c"
  shows "(\<And>b. b \<in> set bs \<Longrightarrow> 0 \<le> starting_linenum b \<and> starting_linenum b < NumLines c) \<Longrightarrow>
    returns (\<lambda>_. True) (is_type_in_blocks (cl_elided c) pattern bs)"
proof (induction bs)
  case (Cons b bs)
  let ?next = "case bs of [] \<Rightarrow> 0 | b' # _ \<Rightarrow> starting_linenum b'"
  have b: "0 \<le> starting_linenum b" "starting_linenum b < NumLines c" using Cons.prems by auto
  have n: "0 \<le> ?next" using Cons.prems by (auto split: list.split)
  have rest: "returns (\<lambda>_. True) (is_type_in_blocks (cl_elided c) pattern bs)" using Cons by auto
  have down: "0 \<le> i \<and> i < NumLines c" if "i \<in> set (py_range_down (starting_linenum b) (?next - 1))" for i
    using that b n by (auto simp: set_py_range_down)
  have up: "0 \<le> i \<and> i < NumLines c" if "0 \<le> k" "i \<in> set (py_range k (starting_linenum b + 1))" for i k
    using that b by (auto simp: set_py_range)
  show ?case
    unfolding is_type_in_blocks.simps Let_def
    by (intro returns_intros returns_bind[OF find_lines_returns(1)[OF assms down]] rest
          returns_bind[OF find_lines_returns(1)[OF assms up]]) (use down in auto)
qed simp

lemma IsType_returns: "views_ok c \<Longrightarrow> nest_ok (NumLines c) ns \<Longrightarrow> returns (\<lambda>_. True) (IsType c ns e)"
  unfolding IsType_def Let_def
  by (intro returns_intros is_type_in_blocks_returns) (auto dest: nest_ok_starts)

lemma blank_line_exception_returns:
  "in_file c l \<Longrightarrow> returns (\<lambda>_. True) (blank_line_exception (cl_elided c) l prev)"
proof -
  assume l: "in_file c l"
  then have rng: "0 \<le> i \<and> i < NumLines c" if "i \<in> set (py_range_down (l - 2) (-1))" for i
    using that by (auto simp: set_py_range_down in_file_def)
  from l have c: "views_ok c" by (simp add: in_file_def)
  have "returns (\<lambda>_. True) (py_bind (py_nth (cl_elided c) i) (\<lambda>x. Inr (P x)))"
    if "i \<in> set (py_range_down (l - 2) (-1))" for i and P :: "string \<Rightarrow> bool"
    using in_file_nth(1)[OF in_file_range[OF l]] rng[OF that] by simp
  then show ?thesis
    unfolding blank_line_exception_def
    by (intro returns_intros returns_bind[OF find_lines_returns(1)[OF c rng]]) auto
qed

lemma next_line_start_returns: "in_file c l \<Longrightarrow> \<exists>n. next_line_start c l = Inr n"
  using in_file_nth(4)[of c "l + 1"] by (auto simp: next_line_start_def in_file_def)

lemma mask_operators_length: "length (mask_operators line) \<le> length line"
proof (induction line rule: mask_operators.induct)
  case (1 line)
  then show ?case
    using mask_method_decreases(2)
    by (subst mask_operators.simps) (auto split: option.split intro: order_trans)
qed

lemma first_groups: "group_then_more LESS_NO_SPACE" "group_then_more GREATER_NO_SPACE" "group_then_more NO_SPACE_BRACE"
  by code_simp+

context error_handler
begin

lemma CheckSpacingForFunctionCall_returns:
  "in_file c l \<Longrightarrow> inv s \<Longrightarrow> returns inv (CheckSpacingForFunctionCall error f c l s)"
  unfolding CheckSpacingForFunctionCall_def Let_def
  by (auto simp: in_file_nth intro!: returns_intros returns_bind[where P = inv] error_when error_returns)

lemma CheckComment_returns: "inv s \<Longrightarrow> returns inv (CheckComment error line f l n s)"
  unfolding CheckComment_def check_todo_def Let_def
  by (auto intro!: returns_intros returns_bind[where P = inv] error_when split: option.split)

lemma check_blank_line_returns: "in_file c l \<Longrightarrow> inv s \<Longrightarrow> returns inv (check_blank_line error f c l s)"
proof -
  assume l: "in_file c l" and s: "inv s"
  obtain prev where prev: "py_nth (cl_elided c) (l - 1) = Inr prev" using in_file_prev[OF l] by blast
  have "returns inv (blank_after_brace error f (cl_elided c) l prev s)" if "inv s" for s
    unfolding blank_after_brace_def Let_def
    using that by (intro returns_intros returns_bind[OF blank_line_exception_returns[OF l]] error_when)
  moreover have "returns inv (blank_before_brace error f c l s)" if "inv s" for s
    using in_file_nth(4)[of c "l + 1"] l that by (auto simp: blank_before_brace_def in_file_def intro!: error_when)
  ultimately show ?thesis
    using s by (auto simp: check_blank_line_def prev intro!: returns_bind[where P = inv] error_returns split: option.split)
qed

lemma CheckSpacing_returns: "in_file c l \<Longrightarrow> inv s \<Longrightarrow> returns inv (CheckSpacing error f c l ns s)"
  using next_line_start_returns[of c l]
  by (auto simp: CheckSpacing_def in_file_nth
      intro!: returns_bind[where P = inv] returns_when check_blank_line_returns CheckComment_returns error_when)

lemma CheckOperatorSpacing_returns:
  assumes "in_file c l" and "inv s"
  shows "returns inv (CheckOperatorSpacing error f c l s)"
proof -
  let ?line = "mask_operators (cl_elided c ! nat l)"
  have pos: "int (length (grp m 1)) < int (length (cl_elided c ! nat l))"
    if "Match p ?line = Some m" "group_then_more p" for p m
    using group_then_more_shorter[OF that(2,1)] mask_operators_length[of "cl_elided c ! nat l"] by simp
  have "returns inv (check_less error f c l ?line s)" if "inv s" for s
  proof (cases "Match LESS_NO_SPACE ?line")
    case (Some m)
    obtain x where "CloseExpression c l (int (length (grp m 1))) = Inr x"
      using CloseExpression_in_file[OF assms(1) _ pos[OF Some first_groups(1)]] by auto
    with Some that show ?thesis by (auto simp: check_less_def split: prod.split intro!: error_when)
  qed (use that in \<open>simp add: check_less_def\<close>)
  moreover have "returns inv (check_greater error f c l ?line s)" if "inv s" for s
  proof (cases "Match GREATER_NO_SPACE ?line")
    case (Some m)
    obtain x where "ReverseCloseExpression c l (int (length (grp m 1))) = Inr x"
      using ReverseCloseExpression_returns[OF in_file_nth(1)[OF assms(1)] _ _ pos[OF Some first_groups(2)]] assms(1)
      by (auto simp: in_file_def)
    with Some that show ?thesis by (auto simp: check_greater_def split: prod.split intro!: error_when)
  qed (use that in \<open>simp add: check_greater_def\<close>)
  ultimately show ?thesis
    using assms by (auto simp: CheckOperatorSpacing_def Let_def in_file_nth split: option.split
        intro!: returns_bind[where P = inv] error_when returns_when error_returns)
qed

lemma CheckParenthesisSpacing_returns: "in_file c l \<Longrightarrow> inv s \<Longrightarrow> returns inv (CheckParenthesisSpacing error f c l s)"
  by (auto simp: CheckParenthesisSpacing_def Let_def in_file_nth split: option.split
      intro!: returns_bind[where P = inv] error_when error_returns)

lemma CheckCommaSpacing_returns: "in_file c l \<Longrightarrow> inv s \<Longrightarrow> returns inv (CheckCommaSpacing error f c l s)"
  by (auto simp: CheckCommaSpacing_def in_file_nth intro!: returns_bind[where P = inv] error_when)

lemma check_brace_space_returns:
  assumes "in_file c l" and "nest_ok (NumLines c) ns" and "Match NO_SPACE_BRACE (cl_elided c ! nat l) = Some m" and "inv s"
  shows "returns inv (check_brace_space error f c l ns m s)"
proof -
  obtain line' l' p where ce: "CloseExpression c l (int (length (grp m 1))) = Inr (line', l', p)"
    using CloseExpression_in_file[OF assms(1), of "int (length (grp m 1))"] group_then_more_shorter[OF first_groups(3) assms(3)]
    by (metis of_nat_0_le_iff of_nat_less_iff prod.exhaust)
  then have l': "0 \<le> l'"
    using CloseExpression_line[OF ce] CloseExpression_end[OF ce] assms(1) by (auto simp: in_file_def)
  have "0 \<le> i \<and> i < int (length (cl_elided c))"
    if "i \<in> set (py_range (l' + 1) (min (l' + 3) (NumLines c - 1)))" for i
    using that l' assms(1) by (auto simp: set_py_range in_file_def views_ok_def NumLines_def)
  note lines = concat_lines_returns[OF this]
  obtain t where t: "concat_lines (cl_elided c) (py_range (l' + 1) (min (l' + 3) (NumLines c - 1)))
      (if p > -1 then py_from line' p else []) = Inr t" using lines by blast
  have "returns (\<lambda>_. True) (IsType c ns (grp m 1))"
    using IsType_returns assms(1,2) by (simp add: in_file_def)
  then show ?thesis
    unfolding check_brace_space_def ce py_bind.simps prod.case t
    by (intro returns_bind[where P = "\<lambda>_. True"] returns_intros) (auto intro!: error_returns assms(4))
qed

lemma CheckBracesSpacing_returns:
  "in_file c l \<Longrightarrow> nest_ok (NumLines c) ns \<Longrightarrow> inv s \<Longrightarrow> returns inv (CheckBracesSpacing error f c l ns s)"
  by (auto simp: CheckBracesSpacing_def in_file_nth split: option.split
      intro!: returns_bind[where P = inv] check_brace_space_returns error_when error_returns)

lemma CheckSectionSpacing_returns:
  assumes "in_file c l" and "is_class b" and "0 \<le> starting_linenum b" and "inv s"
  shows "returns inv (CheckSectionSpacing error f c b l s)"
proof -
  have c: "views_ok c" using assms(1) by (simp add: in_file_def)
  have rng: "0 \<le> i \<and> i < NumLines c" if "i \<in> set (py_range (starting_linenum b) l)" for i
    using that assms(1,3) by (auto simp: set_py_range in_file_def)
  have "returns inv (check_section error f c b l m s)" if "starting_linenum b < l" for m
    using that assms(3,4) in_file_nth(2)[OF in_file_before[OF assms(1), of "l - 1"]]
    by (auto simp: check_section_def Let_def intro!: returns_bind[OF find_lines_returns(2)[OF c rng]] error_when)
  then show ?thesis
    using assms by (auto simp: CheckSectionSpacing_def is_class_def in_file_nth split: block_kind.split option.split)
qed

end

section \<open>Masking the operator methods\<close>

text \<open>C25: Before the operators of a line are checked, the names of operator methods are overwritten until
  none is left. The loop ends; every character keeps its column, and each is kept or becomes an underscore;
  and in the result no operator method is left to overwrite.\<close>

theorem mask_operators_columns:
  assumes "newline_char \<notin> set line"
  shows "list_all2 (\<lambda>before after. after = before \<or> after = CHR ''_'') line (mask_operators line) \<and>
    \<not> Matches OPERATOR_METHOD (mask_operators line)"
  using assms
proof (induction line rule: mask_operators.induct)
  case (1 line)
  show ?case
  proof (cases "Match OPERATOR_METHOD line")
    case None
    then show ?thesis by (simp add: mask_operators.simps[of line] list_all2_same)
  next
    case (Some m)
    from OPERATOR_METHOD_Some[OF Some] 1(2) have line: "line = grp m 1 @ grp m 2 @ grp m 3" by auto
    then have masked: "list_all2 (\<lambda>before after. after = before \<or> after = CHR ''_'') line (mask_method m)"
      by (subst line) (auto simp: mask_method_def list_all2_conv_all_nth nth_append)
    have "newline_char \<notin> set (mask_method m)"
      using 1(2) by (subst (asm) line) (auto simp: mask_method_def)
    from 1(1)[OF Some this] masked show ?thesis
      by (subst (1 2) mask_operators.simps) (auto simp: Some elim: list_all2_trans[rotated])
  qed
qed

lemma mask_operators_columns_witness:
  "mask_operators ''bool operator==(A a, A b);'' = ''bool operator__(A a, A b);'' \<and>
   \<not> Matches OPERATOR_METHOD (mask_operators ''bool operator==(A a, A b);'')"
proof -
  have "newline_char \<notin> set ''bool operator==(A a, A b);''" by code_simp
  from mask_operators_columns[OF this]
  have "\<not> Matches OPERATOR_METHOD (mask_operators ''bool operator==(A a, A b);'')" by blast
  moreover have "mask_operators ''bool operator==(A a, A b);'' = ''bool operator__(A a, A b);''" by code_simp
  ultimately show ?thesis by blast
qed

end
