(* ===== verification/Style.thy ===== *)
theory Style
  imports Spacing File_Checks
begin

text \<open>
  The style of one line: \<open>CheckBraces\<close>, \<open>CheckTrailingSemicolon\<close>, \<open>CheckEmptyBlockBody\<close>,
  \<open>CheckCheck\<close>, \<open>CheckAltTokens\<close>, and \<open>CheckStyle\<close>, which also checks tabs, indentation, line
  length and commands on one line and then calls the other checks of this theory and of
  \<open>Spacing\<close>.
\<close>

section \<open>Braces\<close>

definition GetPreviousNonBlankLine :: "cleansed_lines \<Rightarrow> int \<Rightarrow> (string \<times> int) py" where
  "GetPreviousNonBlankLine clean_lines linenum =
     py_bind (py_find_index (\<lambda>l. \<not> IsBlankLine l) (cl_elided clean_lines) (py_range_down (linenum - 1) (-1)))
       (\<lambda>found.
          case found of
            None \<Rightarrow> Inr ([], -1)
          | Some i \<Rightarrow> py_bind (py_nth (cl_elided clean_lines) i) (\<lambda>prevline. Inr (prevline, i)))"

text \<open>
  \<open>GetLineWidth\<close>: below code point 256 there are no wide and no combining characters, and NFC
  leaves the text as it is, so every character counts once.
\<close>

definition GetLineWidth :: "string \<Rightarrow> int" where
  "GetLineWidth line = int (length line)"

definition BRACE_LINE :: string where
  \<open>BRACE_LINE = rx ''`s*{`s*$''\<close>

definition ALLOWS_BRACE_LINE :: string where
  \<open>ALLOWS_BRACE_LINE = rx ''[,;:}{(]`s*$''\<close>

definition HASH_FIRST :: string where
  \<open>HASH_FIRST = rx ''`s*#''\<close>

definition ELSE_FIRST :: string where
  \<open>ELSE_FIRST = rx ''`s*else`b`s*(?:if`b|`{|$)''\<close>

definition CLOSING_BRACE_LINE :: string where
  \<open>CLOSING_BRACE_LINE = rx ''`s*}`s*$''\<close>

definition ELSE_IF :: string where
  \<open>ELSE_IF = rx ''else if`s*`(''\<close>

definition BRACE_ELSE_IF :: string where
  \<open>BRACE_ELSE_IF = rx ''}`s*else if`s*`(''\<close>

definition BRACE_LEFT_OF_ELSE :: string where
  \<open>BRACE_LEFT_OF_ELSE = rx ''}`s*else[^{]*$''\<close>

definition BRACE_RIGHT_OF_ELSE :: string where
  \<open>BRACE_RIGHT_OF_ELSE = rx ''[^}]*else`s*{''\<close>

definition ELSE_CLAUSE :: string where
  \<open>ELSE_CLAUSE = rx ''`belse [^`s{]''\<close>

definition ELSE_IF_WORD :: string where
  \<open>ELSE_IF_WORD = rx ''`belse if`b''\<close>

definition DO_CLAUSE :: string where
  \<open>DO_CLAUSE = rx ''`s*do [^`s{]''\<close>

definition IF_ELSE :: string where
  \<open>IF_ELSE = rx ''`b(if`s*`(|else`b)''\<close>

definition IF_PAREN :: string where
  \<open>IF_PAREN = rx ''`bif`s*`(''\<close>

definition OPENING_BRACE :: string where
  \<open>OPENING_BRACE = rx ''`s*{''\<close>

definition SPACES_TO_END :: string where
  \<open>SPACES_TO_END = rx ''`s*$''\<close>

definition SEMICOLON_AT_END :: string where
  \<open>SEMICOLON_AT_END = rx '';[`s}]*(``?)$''\<close>

definition LAMBDA_LINE :: string where
  \<open>LAMBDA_LINE = rx ''^[^{};]*`[[^`[`]]*`][^{}]*`{[^{}]*`}`s*`)*[;,]`s*$''\<close>

definition ELSE_WORD_FIRST :: string where
  \<open>ELSE_WORD_FIRST = rx ''`s*else`b''\<close>

definition check_brace_line :: "world \<Rightarrow> 's error_fn \<Rightarrow> string \<Rightarrow> cleansed_lines \<Rightarrow> int \<Rightarrow> 's \<Rightarrow> 's py" where
  "check_brace_line g error filename clean_lines linenum s =
     py_bind (GetPreviousNonBlankLine clean_lines linenum) (\<lambda>(prevline, _).
       py_when (\<not> Finds ALLOWS_BRACE_LINE prevline \<and> \<not> Matches HASH_FIRST prevline
                \<and> \<not> (GetLineWidth prevline > line_length g - 2 \<and> py_in ''[]'' prevline))
         (error filename (Some linenum) ''whitespace/braces'' 4
            ''{ should almost always be at the end of the previous line'') s)"

definition check_else_line :: "'s error_fn \<Rightarrow> string \<Rightarrow> cleansed_lines \<Rightarrow> int \<Rightarrow> 's \<Rightarrow> 's py" where
  "check_else_line error filename clean_lines linenum s =
     py_bind (GetPreviousNonBlankLine clean_lines linenum) (\<lambda>(prevline, _).
       py_when (Matches CLOSING_BRACE_LINE prevline)
         (error filename (Some linenum) ''whitespace/newline'' 4
            ''An else should appear on the same line as the preceding }'') s)"

definition ONE_SIDED_MESSAGE :: string where
  "ONE_SIDED_MESSAGE = ''If an else has a brace on one side, it should have it on both''"

definition check_else_braces :: "'s error_fn \<Rightarrow> string \<Rightarrow> cleansed_lines \<Rightarrow> int \<Rightarrow> string \<Rightarrow> 's \<Rightarrow> 's py" where
  "check_else_braces error filename clean_lines linenum line s =
     (if Finds ELSE_IF line then
        (let brace_on_left = Finds BRACE_ELSE_IF line;
             pos = py_find_from line ''('' (nat (py_find line ''else if''))
         in if pos > 0 then
              py_bind (CloseExpression clean_lines linenum pos) (\<lambda>(endline, _, endpos).
                let brace_on_right = (py_find (py_from endline endpos) ''{'' \<noteq> -1)
                in py_when (brace_on_left \<noteq> brace_on_right)
                     (error filename (Some linenum) ''readability/braces'' 5 ONE_SIDED_MESSAGE) s)
            else Inr s)
      else
        py_when (Finds BRACE_LEFT_OF_ELSE line \<or> Matches BRACE_RIGHT_OF_ELSE line)
          (error filename (Some linenum) ''readability/braces'' 5 ONE_SIDED_MESSAGE) s)"

text \<open>The first line with a semicolon, from \<open>endpos\<close> on in the first line.\<close>

fun semicolon_line :: "string list \<Rightarrow> int list \<Rightarrow> int \<Rightarrow> int option py" where
  "semicolon_line elided [] endpos = Inr None"
| "semicolon_line elided (i # is) endpos =
     py_bind (py_nth elided i) (\<lambda>l.
       if py_in '';'' (py_from l endpos) then Inr (Some i) else semicolon_line elided is 0)"

definition MULTIPLE_STATEMENTS_MESSAGE :: string where
  "MULTIPLE_STATEMENTS_MESSAGE = ''If/else bodies with multiple statements require braces''"

definition check_single_statement ::
  "'s error_fn \<Rightarrow> string \<Rightarrow> string list \<Rightarrow> int \<Rightarrow> int \<Rightarrow> bool \<Rightarrow> int \<Rightarrow> 's \<Rightarrow> 's py" where
  "check_single_statement error filename elided linenum if_indent is_if endlinenum s =
     py_bind (py_nth elided endlinenum) (\<lambda>endline.
       let endpos = py_find endline '';''
       in if \<not> Matches SEMICOLON_AT_END (py_from endline endpos) then
            py_when (\<not> Matches LAMBDA_LINE endline)
              (error filename (Some linenum) ''readability/braces'' 4 MULTIPLE_STATEMENTS_MESSAGE) s
          else if endlinenum < int (length elided) - 1 then
            py_bind (py_nth elided (endlinenum + 1)) (\<lambda>next_line.
              let next_indent = GetIndentLevel next_line
              in if is_if \<and> Matches ELSE_WORD_FIRST next_line \<and> next_indent \<noteq> if_indent then
                   error filename (Some linenum) ''readability/braces'' 4
                     (''Else clause should be indented at the same level as if. '' @
                      ''Ambiguous nested if/else chains require braces.'') s
                 else
                   py_when (next_indent > if_indent)
                     (error filename (Some linenum) ''readability/braces'' 4 MULTIPLE_STATEMENTS_MESSAGE) s)
          else Inr s)"

definition brace_follows :: "string list \<Rightarrow> string \<Rightarrow> int \<Rightarrow> bool py" where
  "brace_follows elided rest endlinenum =
     (if Matches OPENING_BRACE rest then Inr True
      else if Matches SPACES_TO_END rest \<and> endlinenum < int (length elided) - 1 then
        py_bind (py_nth elided (endlinenum + 1)) (\<lambda>l. Inr (Matches OPENING_BRACE l))
      else Inr False)"

definition check_if_body :: "'s error_fn \<Rightarrow> string \<Rightarrow> cleansed_lines \<Rightarrow> int \<Rightarrow> string \<Rightarrow> pmatch \<Rightarrow> 's \<Rightarrow> 's py" where
  "check_if_body error filename clean_lines linenum line if_else_match s =
     (let elided = cl_elided clean_lines; if_match = Search IF_PAREN line
      in py_bind (case if_match of
                    None \<Rightarrow> Inr (line, linenum, m_end if_else_match)
                  | Some m \<Rightarrow> CloseExpression clean_lines linenum (m_end m - 1))
           (\<lambda>(endline, endlinenum, endpos).
         py_bind (brace_follows elided (py_from endline endpos) endlinenum) (\<lambda>brace.
           if brace then Inr s
           else
             py_bind (semicolon_line elided (py_range endlinenum (int (length elided))) endpos) (\<lambda>found.
               case found of
                 None \<Rightarrow> Inr s
               | Some i \<Rightarrow>
                   check_single_statement error filename elided linenum (GetIndentLevel line) (if_match \<noteq> None) i s))))"

definition CheckBraces :: "world \<Rightarrow> 's error_fn \<Rightarrow> string \<Rightarrow> cleansed_lines \<Rightarrow> int \<Rightarrow> 's \<Rightarrow> 's py" where
  "CheckBraces g error filename clean_lines linenum s =
     py_bind (py_nth (cl_elided clean_lines) linenum) (\<lambda>line. py_seq
       [py_when (Matches BRACE_LINE line) (check_brace_line g error filename clean_lines linenum),
        py_when (Matches ELSE_FIRST line) (check_else_line error filename clean_lines linenum),
        check_else_braces error filename clean_lines linenum line,
        py_when (Finds ELSE_CLAUSE line \<and> \<not> Finds ELSE_IF_WORD line)
          (error filename (Some linenum) ''whitespace/newline'' 4
             ''Else clause should never be on same line as else (use 2 lines)''),
        py_when (Matches DO_CLAUSE line)
          (error filename (Some linenum) ''whitespace/newline'' 4
             ''do/while clauses should not be on a single line''),
        (case Search IF_ELSE line of
           None \<Rightarrow> Inr
         | Some m \<Rightarrow>
             if Matches HASH_FIRST line then Inr
             else check_if_body error filename clean_lines linenum line m)] s)"

section \<open>Trailing semicolons\<close>

definition PAREN_BRACE :: string where
  \<open>PAREN_BRACE = rx ''^(.*`)`s*)`{''\<close>

definition MACRO_BEFORE_PAREN :: string where
  \<open>MACRO_BEFORE_PAREN = rx ''`b([A-Z_][A-Z0-9_]*)`s*$''\<close>

definition BRACKET_AT_END_GROUP :: string where
  \<open>BRACKET_AT_END_GROUP = rx ''^(.*`])`s*$''\<close>

definition OPERATOR_BRACKETS :: string where
  \<open>OPERATOR_BRACKETS = rx ''`boperator`s*`[`s*`]''\<close>

definition ALIGNAS :: string where
  \<open>ALIGNAS = rx ''`b(?:struct|union)`s+alignas`s*$''\<close>

definition DECLTYPE_AT_END :: string where
  \<open>DECLTYPE_AT_END = rx ''`bdecltype$''\<close>

definition EQUALS_AT_END :: string where
  \<open>EQUALS_AT_END = rx ''`s+=`s*$''\<close>

definition BRACKET_AT_END :: string where
  \<open>BRACKET_AT_END = rx ''`]`s*$''\<close>

definition ELSE_OR_CONST_BRACE :: string where
  \<open>ELSE_OR_CONST_BRACE = rx ''^(.*(?:else|`)`s*const)`s*)`{''\<close>

definition ENDS_STATEMENT :: string where
  \<open>ENDS_STATEMENT = rx ''[;{}]`s*$''\<close>

definition BRACE_FIRST_GROUP :: string where
  \<open>BRACE_FIRST_GROUP = rx ''^(`s*)`{''\<close>

definition SEMICOLON_NEXT :: string where
  \<open>SEMICOLON_NEXT = rx ''^`s*;''\<close>

definition SAFE_MACROS :: "string list" where
  "SAFE_MACROS =
     [''TEST'', ''TEST_F'', ''MATCHER'', ''MATCHER_P'', ''TYPED_TEST'',
      ''EXCLUSIVE_LOCKS_REQUIRED'', ''SHARED_LOCKS_REQUIRED'', ''LOCKS_EXCLUDED'', ''INTERFACE_DEF'']"

text \<open>What stands before the parameter list does not look like a function or a control statement.\<close>

definition not_a_block :: "string \<Rightarrow> bool" where
  "not_a_block line_prefix \<longleftrightarrow>
     (case Search MACRO_BEFORE_PAREN line_prefix of None \<Rightarrow> False | Some macro \<Rightarrow> grp macro 1 \<notin> set SAFE_MACROS) \<or>
     (case Match BRACKET_AT_END_GROUP line_prefix of None \<Rightarrow> False | Some func \<Rightarrow> \<not> Finds OPERATOR_BRACKETS (grp func 1)) \<or>
     Finds ALIGNAS line_prefix \<or> Finds DECLTYPE_AT_END line_prefix \<or> Finds EQUALS_AT_END line_prefix"

definition paren_block :: "cleansed_lines \<Rightarrow> int \<Rightarrow> pmatch \<Rightarrow> pmatch option py" where
  "paren_block clean_lines linenum m =
     py_bind (ReverseCloseExpression clean_lines linenum (py_rfind (grp m 1) '')'')) (\<lambda>(open_line, open_linenum, open_pos).
       if open_pos > -1 \<and> not_a_block (py_upto open_line open_pos) then Inr None
       else if open_linenum > 1 then
         py_bind (py_nth (cl_elided clean_lines) (open_linenum - 1)) (\<lambda>prev.
           Inr (if Finds BRACKET_AT_END prev then None else Some m))
       else Inr (Some m))"

definition block_match :: "cleansed_lines \<Rightarrow> int \<Rightarrow> string \<Rightarrow> pmatch option py" where
  "block_match clean_lines linenum line =
     (case Match PAREN_BRACE line of
        Some m \<Rightarrow> paren_block clean_lines linenum m
      | None \<Rightarrow>
          (case Match ELSE_OR_CONST_BRACE line of
             Some m \<Rightarrow> Inr (Some m)
           | None \<Rightarrow>
               py_bind (GetPreviousNonBlankLine clean_lines linenum) (\<lambda>(prevline, _).
                 Inr (if prevline \<noteq> [] \<and> Finds ENDS_STATEMENT prevline
                      then Match BRACE_FIRST_GROUP line else None))))"

definition CheckTrailingSemicolon ::
  "world error_fn \<Rightarrow> string \<Rightarrow> cleansed_lines \<Rightarrow> int \<Rightarrow> world \<Rightarrow> world py" where
  \<open>CheckTrailingSemicolon error filename clean_lines linenum w =
     py_bind (py_nth (cl_elided clean_lines) linenum) (\<lambda>line.
     py_bind (block_match clean_lines linenum line) (\<lambda>found.
       case found of
         None \<Rightarrow> Inr w
       | Some m \<Rightarrow>
           py_bind (CloseExpression clean_lines linenum (int (length (grp m 1)))) (\<lambda>(endline, endlinenum, endpos).
             if endpos > -1 \<and> Matches SEMICOLON_NEXT (py_from endline endpos) then
               py_bind (py_nth (cl_raw_lines clean_lines) (endlinenum - 1)) (\<lambda>raw_before.
               py_bind (ParseNolintSuppressions error filename raw_before (endlinenum - 1) w) (\<lambda>w1.
               py_bind (py_nth (cl_raw_lines clean_lines) endlinenum) (\<lambda>raw_line.
               py_bind (ParseNolintSuppressions error filename raw_line endlinenum w1) (\<lambda>w2.
                 error filename (Some endlinenum) ''readability/braces'' 4
                   (''You don'' @ [CHR 0x27] @ ''t need a ; after a }'') w2))))
             else Inr w)))\<close>

section \<open>Empty bodies\<close>

definition CONDITION_KEYWORD :: string where
  \<open>CONDITION_KEYWORD = rx ''`s*(for|while|if)`s*`(''\<close>

definition SEMICOLON :: string where
  \<open>SEMICOLON = rx '';''\<close>

definition BRACE_FIRST :: string where
  \<open>BRACE_FIRST = rx ''^`s*`{''\<close>

definition NOT_BLANK :: string where
  \<open>NOT_BLANK = rx ''^(?!`s*$)''\<close>

definition EMPTY_CONDITIONAL_BODY_PATTERN :: string where
  \<open>EMPTY_CONDITIONAL_BODY_PATTERN = rx ''^`s*$''\<close>

definition BLANK_OR_ELSE :: string where
  \<open>BLANK_OR_ELSE = rx ''^`s*$|^(?=`s*else)''\<close>

definition ELSE_NEXT :: string where
  \<open>ELSE_NEXT = rx ''^(?=`s*else)''\<close>

text \<open>The line of the opening brace and the part of it that is looked at; \<open>None\<close> when other code comes first.\<close>

fun find_opening :: "string list \<Rightarrow> int list \<Rightarrow> int \<Rightarrow> string \<Rightarrow> (int \<times> string) option py" where
  "find_opening elided is linenum fragment =
     (if Finds BRACE_FIRST fragment then Inr (Some (linenum, fragment))
      else if Finds NOT_BLANK fragment then Inr None
      else
        (case is of
           [] \<Rightarrow> Inr None
         | i # is' \<Rightarrow> py_bind (py_nth elided i) (find_opening elided is' i)))"

fun else_follows :: "string list \<Rightarrow> int list \<Rightarrow> string \<Rightarrow> bool py" where
  "else_follows elided is fragment =
     (if \<not> Finds BLANK_OR_ELSE fragment then Inr False
      else if Finds ELSE_NEXT fragment then Inr True
      else
        (case is of
           [] \<Rightarrow> Inr False
         | i # is' \<Rightarrow> py_bind (py_nth elided i) (else_follows elided is')))"

declare find_opening.simps [simp del] else_follows.simps [simp del]

text \<open>The text between the braces; \<open>list(s)\<close> takes the opening line apart into its characters.\<close>

definition body_text :: "cleansed_lines \<Rightarrow> string \<Rightarrow> int \<Rightarrow> int \<Rightarrow> int \<Rightarrow> int \<Rightarrow> string py" where
  "body_text clean_lines opening_line opening_linenum opening_pos closing_linenum closing_pos =
     (if closing_linenum > opening_linenum then
        py_bind (py_nth (cl_elided clean_lines) closing_linenum) (\<lambda>last_line.
          Inr (py_join [newline_char]
                 (map (\<lambda>c. [c]) (py_from opening_line (opening_pos + 1)) @
                  py_slice (cl_raw_lines clean_lines) (opening_linenum + 1) closing_linenum @
                  [py_upto last_line (closing_pos - 1)])))
      else Inr (py_slice opening_line (opening_pos + 1) (closing_pos - 1)))"

definition check_if_braces ::
  "'s error_fn \<Rightarrow> string \<Rightarrow> cleansed_lines \<Rightarrow> int \<Rightarrow> int \<Rightarrow> string \<Rightarrow> int \<Rightarrow> 's \<Rightarrow> 's py" where
  "check_if_braces error filename clean_lines end_linenum opening_linenum opening_line opening_pos s =
     (let elided = cl_elided clean_lines
      in py_bind (CloseExpression clean_lines opening_linenum opening_pos) (\<lambda>(closing_line, closing_linenum, closing_pos).
           if closing_pos < 0 then Inr s
           else
             py_bind (py_nth (cl_raw_lines clean_lines) opening_linenum) (\<lambda>raw_line.
               if raw_line \<noteq> CleanseComments raw_line then Inr s
               else
                 py_bind (body_text clean_lines opening_line opening_linenum opening_pos closing_linenum closing_pos) (\<lambda>body.
                   if \<not> Finds EMPTY_CONDITIONAL_BODY_PATTERN body then Inr s
                   else
                     py_bind (else_follows elided (py_range (closing_linenum + 1) (int (length elided)))
                                (py_from closing_line closing_pos)) (\<lambda>has_else.
                       py_when (\<not> has_else)
                         (error filename (Some end_linenum) ''whitespace/empty_if_body'' 4
                            ''If statement had no body and no else clause'') s)))))"

definition check_empty_if :: "'s error_fn \<Rightarrow> string \<Rightarrow> cleansed_lines \<Rightarrow> string \<Rightarrow> int \<Rightarrow> int \<Rightarrow> 's \<Rightarrow> 's py" where
  "check_empty_if error filename clean_lines end_line end_linenum end_pos s =
     (let elided = cl_elided clean_lines
      in py_bind (find_opening elided (py_range (end_linenum + 1) (int (length elided))) end_linenum
                    (py_from end_line end_pos)) (\<lambda>found.
           case found of
             None \<Rightarrow> Inr s
           | Some (opening_linenum, fragment) \<Rightarrow>
               py_bind (py_nth elided opening_linenum) (\<lambda>opening_line.
                 check_if_braces error filename clean_lines end_linenum opening_linenum opening_line
                   (py_find fragment ''{'' + (if opening_linenum = end_linenum then end_pos else 0)) s)))"

definition CheckEmptyBlockBody :: "'s error_fn \<Rightarrow> string \<Rightarrow> cleansed_lines \<Rightarrow> int \<Rightarrow> 's \<Rightarrow> 's py" where
  "CheckEmptyBlockBody error filename clean_lines linenum s =
     py_bind (py_nth (cl_elided clean_lines) linenum) (\<lambda>line.
       case Match CONDITION_KEYWORD line of
         None \<Rightarrow> Inr s
       | Some matched \<Rightarrow>
           py_bind (CloseExpression clean_lines linenum (py_find line ''('')) (\<lambda>(end_line, end_linenum, end_pos). py_seq
             [py_when (end_pos \<ge> 0 \<and> Matches SEMICOLON (py_from end_line end_pos))
                (if grp matched 1 = ''if'' then
                   error filename (Some end_linenum) ''whitespace/empty_conditional_body'' 5
                     ''Empty conditional bodies should use {}''
                 else
                   error filename (Some end_linenum) ''whitespace/empty_loop_body'' 5
                     ''Empty loop bodies should use {} or continue''),
              py_when (end_pos \<ge> 0 \<and> grp matched 1 = ''if'')
                (check_empty_if error filename clean_lines end_line end_linenum end_pos)] s))"

section \<open>CHECK macros\<close>

definition CHECK_MACROS :: "string list" where
  "CHECK_MACROS = [''DCHECK'', ''CHECK'', ''EXPECT_TRUE'', ''ASSERT_TRUE'', ''EXPECT_FALSE'', ''ASSERT_FALSE'']"

definition OPERATOR_NAMES :: "(string \<times> string) list" where
  "OPERATOR_NAMES =
     [(''=='', ''EQ''), (''!='', ''NE''), (''>='', ''GE''), (''>'', ''GT''), (''<='', ''LE''), (''<'', ''LT'')]"

definition INVERSE_NAMES :: "(string \<times> string) list" where
  "INVERSE_NAMES =
     [(''=='', ''NE''), (''!='', ''EQ''), (''>='', ''LT''), (''>'', ''LE''), (''<='', ''GT''), (''<'', ''GE'')]"

definition replacements :: "string \<Rightarrow> (string \<times> string) list \<Rightarrow> string \<rightharpoonup> string" where
  "replacements prefix names = map_of (map (\<lambda>(op, name). (op, prefix @ name)) names)"

definition CHECK_REPLACEMENT :: "string \<rightharpoonup> (string \<rightharpoonup> string)" where
  "CHECK_REPLACEMENT =
     map_of [(''DCHECK'', replacements ''DCHECK_'' OPERATOR_NAMES),
             (''CHECK'', replacements ''CHECK_'' OPERATOR_NAMES),
             (''EXPECT_TRUE'', replacements ''EXPECT_'' OPERATOR_NAMES),
             (''ASSERT_TRUE'', replacements ''ASSERT_'' OPERATOR_NAMES),
             (''EXPECT_FALSE'', replacements ''EXPECT_'' INVERSE_NAMES),
             (''ASSERT_FALSE'', replacements ''ASSERT_'' INVERSE_NAMES)]"

text \<open>\<open>d[k]\<close> of a dict.\<close>

definition py_key :: "('k \<rightharpoonup> 'v) \<Rightarrow> 'k \<Rightarrow> 'v py" where
  "py_key d k = (case d k of None \<Rightarrow> Inl KeyError | Some v \<Rightarrow> Inr v)"

definition MACRO_CALL :: "string \<Rightarrow> string" where
  \<open>MACRO_CALL macro = rx ''^(.*`b'' @ macro @ rx ''`s*)`(''\<close>

text \<open>The macro with the length of what stands before its parenthesis, or \<open>None\<close>.\<close>

fun find_check_macro :: "string list \<Rightarrow> string \<Rightarrow> (string \<times> int) option" where
  "find_check_macro [] line = None"
| "find_check_macro (macro # rest) line =
     (if py_find line macro \<ge> 0 then
        (case Match (MACRO_CALL macro) line of
           None \<Rightarrow> find_check_macro rest line
         | Some m \<Rightarrow> Some (macro, int (length (grp m 1))))
      else find_check_macro rest line)"

definition FindCheckMacro :: "string \<Rightarrow> (string \<times> int) option" where
  "FindCheckMacro line = find_check_macro CHECK_MACROS line"

definition EXPRESSION_TOKEN :: string where
  \<open>EXPRESSION_TOKEN =
     rx (''^`s*(<<|<<=|>>|>>=|->`*|->|&&|`|`||'' @ ''==|!=|>=|>|<=|<|`()(.*)$'')\<close>

definition OPERAND :: string where
  \<open>OPERAND = rx ''^([^-=!<>()&|]+)(.*)$''\<close>

definition ONE_CHARACTER :: string where
  \<open>ONE_CHARACTER = rx ''^(`s*`S)(.*)$''\<close>

definition CONSTANT :: string where
  \<open>CONSTANT = rx ''^([-+]?(`d+|0[xX][0-9a-fA-F]+)[lLuU]{0,3}|".*"|`'.*`')$''\<close>

lemma token_rest: "ends_in_group EXPRESSION_TOKEN 2" "ends_in_group OPERAND 2" "ends_in_group ONE_CHARACTER 2"
  by code_simp+

text \<open>
  The expression is split at its first relational operator outside parentheses.  The value is
  \<open>None\<close> where the code returns or leaves the loop without an operator.
\<close>

function parse_check :: "string \<Rightarrow> string \<Rightarrow> (string \<times> string \<times> string) option py" where
  "parse_check lhs expression =
     (if expression = [] then Inr None
      else
        (case Match EXPRESSION_TOKEN expression of
           Some m \<Rightarrow>
             (let token = grp m 1; rest = grp m 2
              in if token = ''('' then
                   (case FindEndOfExpressionInLine rest 0 ''('' of
                      Inl e \<Rightarrow> Inl e
                    | Inr (end_pos, _) \<Rightarrow>
                        if end_pos < 0 then Inr None
                        else parse_check (lhs @ ''('' @ py_upto rest end_pos) (py_from rest end_pos))
                 else if token \<in> {''&&'', ''||''} then Inr None
                 else if token \<in> {''<<'', ''<<='', ''>>'', ''>>='', ''->*'', ''->''} then
                   parse_check (lhs @ token) rest
                 else Inr (Some (lhs, token, rest)))
         | None \<Rightarrow>
             (case Match OPERAND expression of
                Some m \<Rightarrow> parse_check (lhs @ grp m 1) (grp m 2)
              | None \<Rightarrow>
                  (case Match ONE_CHARACTER expression of
                     Some m \<Rightarrow> parse_check (lhs @ grp m 1) (grp m 2)
                   | None \<Rightarrow> Inr None))))"
  by pat_completeness auto
termination
  by (relation "measure (\<lambda>(lhs, expression). length expression)")
     (auto intro: le_less_trans[OF py_from_length] dest: ends_in_group_shorter[OF token_rest(1)]
        ends_in_group_shorter[OF token_rest(2)] ends_in_group_shorter[OF token_rest(3)])

declare parse_check.simps [simp del]

fun concat_range :: "string list \<Rightarrow> int list \<Rightarrow> string py" where
  "concat_range ls [] = Inr []"
| "concat_range ls (i # is) = py_bind (py_nth ls i) (\<lambda>l. py_bind (concat_range ls is) (\<lambda>t. Inr (l @ t)))"

definition check_expression :: "cleansed_lines \<Rightarrow> int \<Rightarrow> int \<Rightarrow> string \<Rightarrow> int \<Rightarrow> int \<Rightarrow> string py" where
  "check_expression clean_lines linenum start_pos end_text end_line end_pos =
     py_bind (py_nth (cl_elided clean_lines) linenum) (\<lambda>line.
       if linenum = end_line then Inr (py_slice line (start_pos + 1) (end_pos - 1))
       else
         py_bind (concat_range (cl_elided clean_lines) (py_range (linenum + 1) end_line)) (\<lambda>middle.
           Inr (py_from line (start_pos + 1) @ middle @ py_upto end_text (end_pos - 1))))"

definition check_message :: "string \<Rightarrow> string \<Rightarrow> string \<Rightarrow> string" where
  "check_message replacement macro op =
     ''Consider using '' @ replacement @ '' instead of '' @ macro @ ''(a '' @ op @ '' b)''"

text \<open>The replacement is suggested when one of the operands is a literal.\<close>

definition suggest_check ::
  "'s error_fn \<Rightarrow> string \<Rightarrow> int \<Rightarrow> string \<Rightarrow> string \<times> string \<times> string \<Rightarrow> 's \<Rightarrow> 's py" where
  "suggest_check error filename linenum check_macro parts s =
     (case parts of
        (lhs, op, rhs) \<Rightarrow>
          if lhs = [] \<or> op = [] \<or> rhs = [] then Inr s
          else if py_find rhs ''&&'' > -1 \<or> py_find rhs ''||'' > -1 then Inr s
          else if Matches CONSTANT (py_strip lhs) \<or> Matches CONSTANT (py_strip rhs) then
            py_bind (py_key CHECK_REPLACEMENT check_macro) (\<lambda>by_operator.
            py_bind (py_key by_operator op) (\<lambda>replacement.
              error filename (Some linenum) ''readability/check'' 2
                (check_message replacement check_macro op) s))
          else Inr s)"

definition CheckCheck :: "'s error_fn \<Rightarrow> string \<Rightarrow> cleansed_lines \<Rightarrow> int \<Rightarrow> 's \<Rightarrow> 's py" where
  "CheckCheck error filename clean_lines linenum s =
     py_bind (py_nth (cl_elided clean_lines) linenum) (\<lambda>line.
       case FindCheckMacro line of
         None \<Rightarrow> Inr s
       | Some (check_macro, start_pos) \<Rightarrow>
           py_bind (CloseExpression clean_lines linenum start_pos) (\<lambda>(end_text, end_line, end_pos).
             if end_pos < 0 then Inr s
             else if \<not> Matches (rx ''`s*;'') (py_from end_text end_pos) then Inr s
             else
               py_bind (check_expression clean_lines linenum start_pos end_text end_line end_pos) (\<lambda>expression.
               py_bind (parse_check [] expression) (\<lambda>parts.
                 case parts of
                   None \<Rightarrow> Inr s
                 | Some p \<Rightarrow> suggest_check error filename linenum check_macro p s))))"

section \<open>Alternative tokens\<close>

definition ALT_TOKEN_REPLACEMENT :: "(string \<times> string) list" where
  "ALT_TOKEN_REPLACEMENT =
     [(''and'', ''&&''), (''bitor'', ''|''), (''or'', ''||''), (''xor'', ''^''), (''compl'', ''~''), (''bitand'', ''&''),
      (''and_eq'', ''&=''), (''or_eq'', ''|=''), (''xor_eq'', ''^=''), (''not'', ''!''), (''not_eq'', ''!='')]"

definition ALT_TOKEN_REPLACEMENT_PATTERN :: string where
  \<open>ALT_TOKEN_REPLACEMENT_PATTERN =
     rx ''[ =()]('' @ py_join ''|'' (map fst ALT_TOKEN_REPLACEMENT) @ rx '')(?=[ (]|$)''\<close>

definition DIRECTIVE :: string where
  \<open>DIRECTIVE = rx ''^`s*#''\<close>

definition CheckAltTokens :: "'s error_fn \<Rightarrow> string \<Rightarrow> cleansed_lines \<Rightarrow> int \<Rightarrow> 's \<Rightarrow> 's py" where
  "CheckAltTokens error filename clean_lines linenum s =
     py_bind (py_nth (cl_elided clean_lines) linenum) (\<lambda>line.
       if Matches DIRECTIVE line \<or> py_find line ''/*'' \<ge> 0 \<or> py_find line ''*/'' \<ge> 0 then Inr s
       else
         py_fold (\<lambda>m s. py_bind (py_key (map_of ALT_TOKEN_REPLACEMENT) (grp m 1)) (\<lambda>token.
             error filename (Some linenum) ''readability/alt_tokens'' 2
               (''Use operator '' @ token @ '' instead of '' @ grp m 1) s))
           (finditer ALT_TOKEN_REPLACEMENT_PATTERN line) s)"

section \<open>The style of a line\<close>

definition SCOPE_OR_LABEL :: string where
  \<open>SCOPE_OR_LABEL = rx ''`s*`w+`s*:`s*``?$''\<close>

definition CONTINUED_LINE :: string where
  \<open>CONTINUED_LINE = rx ''[",=><] *$''\<close>

definition RAW_STRING_LINE :: string where
  \<open>RAW_STRING_LINE = rx ''^`s*""''\<close>

definition COMMENT_URL :: string where
  \<open>COMMENT_URL = rx ''^`s*//.*http(s?)://`S*$''\<close>

definition COMMENT_WORD :: string where
  \<open>COMMENT_WORD = rx ''^`s*//`s*[^`s]*$''\<close>

definition COMMENT_ID :: string where
  \<open>COMMENT_ID = rx ''^// `$Id:.*#[0-9]+ `$$''\<close>

definition COMMENT_COPYDOC :: string where
  \<open>COMMENT_COPYDOC = rx ''^`s*/// [@``](copydoc|copydetails|copybrief) .*$''\<close>

definition SINGLE_LINE_LAMBDA :: string where
  \<open>SINGLE_LINE_LAMBDA = rx ''^[^{};]*`[[^`[`]]*`][^{}]*`{[^{}`n`r]*`}''\<close>

definition initial_spaces :: "string \<Rightarrow> int" where
  "initial_spaces line = int (length (takeWhile (\<lambda>c. c = CHR '' '') line))"

definition weird_indent :: "string \<Rightarrow> string \<Rightarrow> string \<Rightarrow> string \<Rightarrow> bool" where
  "weird_indent prev line cleansed_line raw_line \<longleftrightarrow>
     \<not> Finds CONTINUED_LINE prev \<and> (initial_spaces line = 1 \<or> initial_spaces line = 3) \<and>
     \<not> Matches SCOPE_OR_LABEL cleansed_line \<and> \<not> (raw_line \<noteq> line \<and> Matches RAW_STRING_LINE line)"

definition is_header_guard :: "os_env \<Rightarrow> world \<Rightarrow> string \<Rightarrow> string \<Rightarrow> string \<Rightarrow> bool py" where
  "is_header_guard env g filename file_extension line =
     (if IsHeaderExtension g file_extension then
        py_bind (GetHeaderGuardCPPVariable env g filename) (\<lambda>cppvar.
          Inr (startswith line (''#ifndef '' @ cppvar) \<or> startswith line (''#define '' @ cppvar)
               \<or> startswith line (''#endif  // '' @ cppvar)))
      else Inr False)"

definition may_be_long :: "string \<Rightarrow> bool \<Rightarrow> bool" where
  "may_be_long line guard \<longleftrightarrow>
     startswith line ''#include'' \<or> guard \<or> Matches COMMENT_URL line \<or> Matches COMMENT_WORD line \<or>
     Matches COMMENT_ID line \<or> Matches COMMENT_COPYDOC line"

definition many_commands :: "string \<Rightarrow> string \<Rightarrow> string \<Rightarrow> bool" where
  "many_commands line cleansed_line prevline \<longleftrightarrow>
     py_count cleansed_line '';'' > 1 \<and> \<not> Matches SINGLE_LINE_LAMBDA line \<and> py_find cleansed_line ''for'' = -1 \<and>
     (py_find prevline ''for'' = -1 \<or> py_find prevline '';'' \<noteq> -1) \<and>
     \<not> ((py_find cleansed_line ''case '' \<noteq> -1 \<or> py_find cleansed_line ''default:'' \<noteq> -1) \<and>
        py_find cleansed_line ''break;'' \<noteq> -1)"

definition check_line_layout ::
  "os_env \<Rightarrow> world \<Rightarrow> 's error_fn \<Rightarrow> string \<Rightarrow> cleansed_lines \<Rightarrow> int \<Rightarrow> string \<Rightarrow> 's \<Rightarrow> 's py" where
  "check_line_layout env g error filename clean_lines linenum file_extension s =
     (let raw_lines = cl_lines_without_raw_strings clean_lines
      in py_bind (py_nth raw_lines linenum) (\<lambda>line.
         py_bind (if linenum > 0 then py_nth raw_lines (linenum - 1) else Inr []) (\<lambda>prev.
         py_bind (py_nth (cl_elided clean_lines) linenum) (\<lambda>cleansed_line.
         py_bind (py_nth (cl_raw_lines clean_lines) linenum) (\<lambda>raw_line. py_seq
           [py_when (py_find line [CHR 0x09] \<noteq> -1)
              (error filename (Some linenum) ''whitespace/tab'' 1 ''Tab found; better to use spaces''),
            py_when (weird_indent prev line cleansed_line raw_line)
              (error filename (Some linenum) ''whitespace/indent'' 3
                 (''Weird number of spaces at line-start.  '' @ ''Are you using a 2-space indent?'')),
            py_when (line \<noteq> [] \<and> is_space (last line))
              (error filename (Some linenum) ''whitespace/end_of_line'' 4
                 ''Line ends in whitespace.  Consider deleting these extra spaces.''),
            (\<lambda>s. py_bind (is_header_guard env g filename file_extension line) (\<lambda>guard.
               py_when (\<not> may_be_long line guard \<and> GetLineWidth line > line_length g)
                 (error filename (Some linenum) ''whitespace/line_length'' 2
                    (''Lines should be <= '' @ show_int (line_length g) @ '' characters long'')) s)),
            (\<lambda>s. py_bind (GetPreviousNonBlankLine clean_lines linenum) (\<lambda>(prevline, _).
               py_when (many_commands line cleansed_line prevline)
                 (error filename (Some linenum) ''whitespace/newline'' 0
                    ''More than one command on the same line'') s))] s)))))"

definition CheckStyle ::
  "os_env \<Rightarrow> world \<Rightarrow> world error_fn \<Rightarrow> string \<Rightarrow> cleansed_lines \<Rightarrow> int \<Rightarrow> string \<Rightarrow> nesting_state \<Rightarrow> world \<Rightarrow> world py" where
  "CheckStyle env g error filename clean_lines linenum file_extension ns = py_seq
     [check_line_layout env g error filename clean_lines linenum file_extension,
      CheckBraces g error filename clean_lines linenum,
      CheckTrailingSemicolon error filename clean_lines linenum,
      CheckEmptyBlockBody error filename clean_lines linenum,
      CheckSpacing error filename clean_lines linenum ns,
      CheckOperatorSpacing error filename clean_lines linenum,
      CheckParenthesisSpacing error filename clean_lines linenum,
      CheckCommaSpacing error filename clean_lines linenum,
      CheckBracesSpacing error filename clean_lines linenum ns,
      CheckSpacingForFunctionCall error filename clean_lines linenum,
      CheckCheck error filename clean_lines linenum,
      CheckAltTokens error filename clean_lines linenum,
      (case InnermostClass ns of
         None \<Rightarrow> Inr
       | Some classinfo \<Rightarrow> CheckSectionSpacing error filename clean_lines classinfo linenum)]"

section \<open>The checks return\<close>

lemma GetPreviousNonBlankLine_returns:
  assumes "in_file c l" shows "returns (\<lambda>_. True) (GetPreviousNonBlankLine c l)"
proof -
  have c: "views_ok c" using assms by (simp add: in_file_def)
  have rng: "0 \<le> i \<and> i < NumLines c" if "i \<in> set (py_range_down (l - 1) (-1))" for i
    using that assms by (auto simp: set_py_range_down in_file_def)
  have "returns (\<lambda>_. True) (py_bind (py_nth (cl_elided c) i) (\<lambda>x. Inr (x, i)))"
    if "i \<in> set (py_range_down (l - 1) (-1))" for i
    using in_file_nth(1)[OF in_file_range[OF assms]] rng[OF that] by simp
  then show ?thesis
    unfolding GetPreviousNonBlankLine_def
    by (intro returns_bind[OF find_lines_returns(1)[OF c rng]] returns_intros) auto
qed

lemma CloseExpression_at:
  assumes "in_file c l" and "0 \<le> p" and "p < int (length (cl_elided c ! nat l))"
  shows "returns (\<lambda>(line', l', e). 0 \<le> l' \<and> l \<le> l' \<and> (e > -1 \<longrightarrow> l' < NumLines c \<and> line' = cl_elided c ! nat l' \<and> e \<le> int (length line')))
    (CloseExpression c l p)"
proof -
  obtain line' l' e where ce: "CloseExpression c l p = Inr (line', l', e)"
    using CloseExpression_in_file[OF assms] by (metis prod.exhaust)
  from CloseExpression_line[OF ce] CloseExpression_end[OF ce] assms(1) show ?thesis
    by (auto simp: ce in_file_def views_ok_def NumLines_def py_nth_in_range)
qed

lemma semicolon_line_returns:
  "(\<And>i. i \<in> set is \<Longrightarrow> 0 \<le> i \<and> i < int (length ls)) \<Longrightarrow>
   returns (\<lambda>found. \<forall>i. found = Some i \<longrightarrow> i \<in> set is) (semicolon_line ls is p)"
proof (induction "is" arbitrary: p)
  case (Cons i "is")
  from Cons.IH[of 0] Cons.prems show ?case by (auto simp: py_nth_in_range intro: returns_weaken)
qed simp

lemma brace_follows_returns:
  "0 \<le> l \<Longrightarrow> returns (\<lambda>_. True) (brace_follows ls rest l)"
  by (auto simp: brace_follows_def py_nth_in_range intro!: returns_intros)

lemma IF_PAREN_needs: "needs IF_PAREN 1"
  by code_simp

lemma IF_PAREN_pos:
  assumes "Search IF_PAREN line = Some m"
  shows "0 \<le> m_end m - 1" "m_end m - 1 < int (length line)"
  using Search_length[OF IF_PAREN_needs assms] Search_split[OF assms] by (auto simp: m_end_def)

lemma elided_length: "in_file c l \<Longrightarrow> int (length (cl_elided c)) = NumLines c"
  by (auto simp: in_file_def views_ok_def NumLines_def)

context error_handler
begin

lemma check_single_statement_returns:
  "0 \<le> i \<Longrightarrow> i < int (length ls) \<Longrightarrow> inv s \<Longrightarrow> returns inv (check_single_statement error f ls l ind b i s)"
  by (auto simp: check_single_statement_def Let_def py_nth_in_range intro!: error_when error_returns)

lemma check_if_body_returns:
  assumes "in_file c l" and "inv s"
  shows "returns inv (check_if_body error f c l (cl_elided c ! nat l) m s)"
proof -
  let ?line = "cl_elided c ! nat l"
  let ?start = "case Search IF_PAREN ?line of None \<Rightarrow> Inr (?line, l, m_end m) | Some m \<Rightarrow> CloseExpression c l (m_end m - 1)"
  have start: "returns (\<lambda>(line', l', e). 0 \<le> l') ?start"
    using assms(1) IF_PAREN_pos[of ?line] by (auto simp: in_file_def split: option.split
        intro!: returns_weaken[OF CloseExpression_at[OF assms(1)]])
  have rng: "0 \<le> i \<and> i < int (length (cl_elided c))" if "i \<in> set (py_range l' (int (length (cl_elided c))))" "0 \<le> l'" for i l'
    using that by (auto simp: set_py_range)
  show ?thesis
    unfolding check_if_body_def Let_def
    by (rule returns_bind[OF start])
       (auto intro!: returns_bind[OF brace_follows_returns] returns_bind[OF semicolon_line_returns[OF rng]]
          check_single_statement_returns assms(2) simp: set_py_range split: option.split)
qed

lemma ELSE_IF_paren: "Finds ELSE_IF line \<Longrightarrow> 0 < py_find_from line ''('' n \<Longrightarrow> py_find_from line ''('' n < int (length line)"
  using py_find_from_bound[of line "''(''" n] by simp

lemma check_else_braces_returns:
  assumes "in_file c l" and "inv s"
  shows "returns inv (check_else_braces error f c l (cl_elided c ! nat l) s)"
  unfolding check_else_braces_def Let_def
  using assms ELSE_IF_paren[of "cl_elided c ! nat l"]
  by (auto intro!: returns_bind[OF CloseExpression_at] returns_if error_when)

lemma CheckBraces_returns: "in_file c l \<Longrightarrow> inv s \<Longrightarrow> returns inv (CheckBraces g error f c l s)"
  unfolding CheckBraces_def check_brace_line_def check_else_line_def
  by (auto simp: in_file_nth split: option.split
      intro!: returns_bind[where P = inv] returns_bind[OF GetPreviousNonBlankLine_returns] returns_when error_when
        check_else_braces_returns check_if_body_returns error_returns)

end

lemma block_groups: "group_then_more PAREN_BRACE" "group_then_more ELSE_OR_CONST_BRACE" "group_then_more BRACE_FIRST_GROUP"
  by code_simp+

lemma paren_block_returns:
  assumes "in_file c l" and "Match PAREN_BRACE (cl_elided c ! nat l) = Some m"
  shows "returns (\<lambda>found. found = None \<or> found = Some m) (paren_block c l m)"
proof -
  let ?line = "cl_elided c ! nat l" and ?p = "py_rfind (grp m 1) '')''"
  have g: "length (grp m 1) < length ?line" by (rule group_then_more_shorter[OF block_groups(1) assms(2)])
  have p: "-1 \<le> ?p" "?p < int (length ?line)"
    using py_rfind_bounds[of "'')''" "grp m 1"] g by (cases "grp m 1 = []"; auto simp: py_rfind_def py_find_def)+
  moreover have "?line \<noteq> []" using g by auto
  ultimately obtain ch where "py_nth ?line ?p = Inr ch" using py_nth_minus_one by blast
  then obtain line' l' e where rc: "ReverseCloseExpression c l ?p = Inr (line', l', e)"
    using ReverseCloseExpression_returns_at[OF in_file_nth(1)[OF assms(1)] _ _ p(2)] assms(1)
    by (metis in_file_def prod.exhaust)
  have "l' > 1 \<Longrightarrow> py_nth (cl_elided c) (l' - 1) = Inr (cl_elided c ! nat (l' - 1))"
    using ReverseCloseExpression_line[OF rc] assms(1) by (intro in_file_nth(1)[OF in_file_before[OF assms(1)]]) (auto simp: in_file_def)
  then show ?thesis unfolding paren_block_def rc by auto
qed

lemma block_match_returns:
  assumes "in_file c l"
  shows "returns (\<lambda>found. \<forall>m. found = Some m \<longrightarrow> length (grp m 1) < length (cl_elided c ! nat l))
    (block_match c l (cl_elided c ! nat l))"
proof -
  let ?line = "cl_elided c ! nat l"
  note shorter = group_then_more_shorter[OF block_groups(1)] group_then_more_shorter[OF block_groups(2)]
    group_then_more_shorter[OF block_groups(3)]
  have "returns (\<lambda>found. \<forall>m. found = Some m \<longrightarrow> length (grp m 1) < length ?line)
    (py_bind (GetPreviousNonBlankLine c l) (\<lambda>(prevline, _).
       Inr (if prevline \<noteq> [] \<and> Finds ENDS_STATEMENT prevline then Match BRACE_FIRST_GROUP ?line else None)))"
    by (rule returns_bind[OF GetPreviousNonBlankLine_returns[OF assms]]) (auto dest: shorter split: prod.split)
  then show ?thesis
    unfolding block_match_def
    by (auto dest: shorter split: option.split intro!: returns_weaken[OF paren_block_returns[OF assms]])
qed

lemma find_opening_returns:
  "(\<And>i. i \<in> set is \<Longrightarrow> 0 \<le> i \<and> i < int (length ls)) \<Longrightarrow>
   returns (\<lambda>found. \<forall>n frag. found = Some (n, frag) \<longrightarrow> Finds BRACE_FIRST frag \<and>
     (n = l \<and> frag = fragment \<or> n \<in> set is \<and> frag = ls ! nat n)) (find_opening ls is l fragment)"
proof (induction ls "is" l fragment rule: find_opening.induct)
  case (1 ls "is" l fragment)
  then show ?case
    by (subst find_opening.simps) (auto simp: py_nth_in_range split: list.split intro!: returns_intros returns_weaken[OF 1(1)])
qed

lemma else_follows_returns:
  "(\<And>i. i \<in> set is \<Longrightarrow> 0 \<le> i \<and> i < int (length ls)) \<Longrightarrow> returns (\<lambda>_. True) (else_follows ls is fragment)"
proof (induction ls "is" fragment rule: else_follows.induct)
  case (1 ls "is" fragment)
  then show ?case
    by (subst else_follows.simps) (auto simp: py_nth_in_range split: list.split intro!: returns_intros 1(1))
qed

lemma body_text_returns:
  "in_file c l' \<Longrightarrow> returns (\<lambda>_. True) (body_text c line l p l' e)"
  by (auto simp: body_text_def in_file_nth intro!: returns_intros)

lemma BRACE_FIRST_char: "Finds BRACE_FIRST s \<Longrightarrow> CHR ''{'' \<in> set s"
proof -
  assume "Finds BRACE_FIRST s"
  moreover have "ends_with_char BRACE_FIRST (CHR ''{'')" by code_simp
  ultimately show ?thesis using Search_last_char by blast
qed

lemma CONDITION_KEYWORD_char: "Match CONDITION_KEYWORD s = Some m \<Longrightarrow> CHR ''('' \<in> set s"
proof -
  assume "Match CONDITION_KEYWORD s = Some m"
  moreover have "ends_with_char CONDITION_KEYWORD (CHR ''('')" by code_simp
  ultimately show ?thesis using Match_last_char by blast
qed

context error_handler
begin

lemma check_if_braces_returns:
  assumes "in_file c l" and "0 \<le> p" and "p < int (length (cl_elided c ! nat l))" and "inv s"
  shows "returns inv (check_if_braces error f c n l line p s)"
proof -
  have rng: "0 \<le> i \<and> i < int (length (cl_elided c))"
    if "0 \<le> l'" "i \<in> set (py_range (l' + 1) (int (length (cl_elided c))))" for i l'
    using that by (auto simp: set_py_range)
  have tail: "returns inv (py_bind (body_text c line l p l' e) (\<lambda>body.
        if \<not> Finds EMPTY_CONDITIONAL_BODY_PATTERN body then Inr s
        else py_bind (else_follows (cl_elided c) (py_range (l' + 1) (int (length (cl_elided c)))) (py_from line' e)) (\<lambda>has_else.
          py_when (\<not> has_else)
            (error f (Some n) ''whitespace/empty_if_body'' 4 ''If statement had no body and no else clause'') s)))"
    if "in_file c l'" for l' e line'
    using that assms(4)
    by (intro returns_bind[OF body_text_returns] returns_if returns_bind[OF else_follows_returns] error_when)
       (auto simp: in_file_def dest: rng[rotated])
  show ?thesis
    unfolding check_if_braces_def Let_def in_file_nth(3)[OF assms(1)] py_bind.simps
    by (rule returns_bind[OF CloseExpression_at[OF assms(1-3)]])
       (auto intro!: returns_intros assms(4) tail in_file_range[OF assms(1)])
qed

lemma check_empty_if_returns:
  assumes "in_file c l" and "0 \<le> e" and "inv s"
  shows "returns inv (check_empty_if error f c (cl_elided c ! nat l) l e s)"
proof -
  have len: "int (length (cl_elided c)) = NumLines c" by (rule elided_length[OF assms(1)])
  have rng: "0 \<le> i \<and> i < int (length (cl_elided c))" if "i \<in> set (py_range (l + 1) (int (length (cl_elided c))))" for i
    using that assms(1) by (auto simp: set_py_range in_file_def)
  have "returns inv (py_bind (py_nth (cl_elided c) n) (\<lambda>opening_line.
      check_if_braces error f c l n opening_line (py_find frag ''{'' + (if n = l then e else 0)) s))"
    if "Finds BRACE_FIRST frag" and
      "n = l \<and> frag = py_from (cl_elided c ! nat l) e \<or> n \<in> set (py_range (l + 1) (int (length (cl_elided c)))) \<and> frag = cl_elided c ! nat n"
    for n frag
  proof -
    have n: "in_file c n"
      using that(2) rng[of n] in_file_range[OF assms(1)] assms(1) len by auto
    have "0 \<le> py_find frag ''{'' \<and> py_find frag ''{'' < int (length frag)"
      by (rule py_find_char_bounds[OF BRACE_FIRST_char[OF that(1)]])
    moreover have "n \<noteq> l" if "n \<in> set (py_range (l + 1) (int (length (cl_elided c))))"
      using that by (auto simp: set_py_range)
    ultimately have "0 \<le> py_find frag ''{'' + (if n = l then e else 0)"
      "py_find frag ''{'' + (if n = l then e else 0) < int (length (cl_elided c ! nat n))"
      using that(2) assms(2) by (auto intro: py_from_index)
    then show ?thesis
      by (simp add: in_file_nth[OF n] check_if_braces_returns[OF n _ _ assms(3)])
  qed
  then show ?thesis
    unfolding check_empty_if_def Let_def
    by (intro returns_bind[OF find_opening_returns[OF rng]]) (auto intro!: returns_intros assms(3) split: option.split)
qed

lemma CheckEmptyBlockBody_returns:
  assumes "in_file c l" and "inv s"
  shows "returns inv (CheckEmptyBlockBody error f c l s)"
proof -
  let ?line = "cl_elided c ! nat l"
  have "returns inv (py_bind (CloseExpression c l (py_find ?line ''(''))
      (\<lambda>(end_line, end_linenum, end_pos). py_seq
        [py_when (end_pos \<ge> 0 \<and> Matches SEMICOLON (py_from end_line end_pos))
           (if grp matched 1 = ''if'' then
              error f (Some end_linenum) ''whitespace/empty_conditional_body'' 5 ''Empty conditional bodies should use {}''
            else
              error f (Some end_linenum) ''whitespace/empty_loop_body'' 5 ''Empty loop bodies should use {} or continue''),
         py_when (end_pos \<ge> 0 \<and> grp matched 1 = ''if'') (check_empty_if error f c end_line end_linenum end_pos)] s))"
    if "Match CONDITION_KEYWORD ?line = Some matched" for matched
    using py_find_char_bounds[OF CONDITION_KEYWORD_char[OF that]] assms
    by (intro returns_bind[OF CloseExpression_at])
       (auto intro!: returns_bind[where P = inv] returns_when error_returns check_empty_if_returns in_file_range[OF assms(1)])
  then show ?thesis
    using assms by (auto simp: CheckEmptyBlockBody_def in_file_nth split: option.split)
qed

end

context world_handler
begin

lemma CheckTrailingSemicolon_returns:
  assumes "in_file c l" and "inv w"
  shows "returns inv (CheckTrailingSemicolon error f c l w)"
proof -
  let ?line = "cl_elided c ! nat l"
  have raw: "\<exists>x. py_nth (cl_raw_lines c) (l' - 1) = Inr x" if "0 \<le> l'" "l' < NumLines c" for l'
  proof -
    have "cl_raw_lines c \<noteq> []" "int (length (cl_raw_lines c)) = NumLines c"
      using assms(1) by (auto simp: in_file_def views_ok_def NumLines_def)
    with that show ?thesis by (intro py_nth_minus_one) auto
  qed
  have "returns inv (py_bind (py_nth (cl_raw_lines c) (l' - 1)) (\<lambda>raw_before.
      py_bind (ParseNolintSuppressions error f raw_before (l' - 1) w) (\<lambda>w1.
      py_bind (py_nth (cl_raw_lines c) l') (\<lambda>raw_line.
      py_bind (ParseNolintSuppressions error f raw_line l' w1) (\<lambda>w2.
        error f (Some l') ''readability/braces'' 4 message w2)))))"
    if "0 \<le> l'" "l' < NumLines c" for l' message
    using raw[OF that] in_file_nth(3)[OF in_file_range[OF assms(1) that]] assms(2)
    by (auto intro!: returns_bind[OF ParseNolint_returns] error_returns)
  then show ?thesis
    unfolding CheckTrailingSemicolon_def in_file_nth(1)[OF assms(1)] py_bind.simps
    by (intro returns_bind[OF block_match_returns[OF assms(1)]] returns_intros
          returns_bind[OF CloseExpression_at[OF assms(1)]]) (use assms(2) in auto)
qed

end

text \<open>The macros and operators that the tables know.\<close>

definition RELATIONS :: "string list" where
  "RELATIONS = [''=='', ''!='', ''>='', ''>'', ''<='', ''<'']"

lemma token_texts:
  "case re_compile EXPRESSION_TOKEN of None \<Rightarrow> False
   | Some r \<Rightarrow> group_texts 1 r =
       Some ([''<<'', ''<<='', ''>>'', ''>>='', ''->*'', ''->'', ''&&'', ''||'', ''=='', ''!='', ''>='', ''>'', ''<='', ''<'', ''('' ])"
  by code_simp

lemma token_in_list:
  assumes "Match EXPRESSION_TOKEN s = Some m"
    and "grp m 1 \<noteq> ''(''" and "grp m 1 \<notin> {''&&'', ''||''}" and "grp m 1 \<notin> {''<<'', ''<<='', ''>>'', ''>>='', ''->*'', ''->''}"
  shows "grp m 1 \<in> set RELATIONS"
proof -
  obtain r where r: "re_compile EXPRESSION_TOKEN = Some r" using token_texts by (cases "re_compile EXPRESSION_TOKEN") auto
  with token_texts have "group_texts 1 r =
       Some ([''<<'', ''<<='', ''>>'', ''>>='', ''->*'', ''->'', ''&&'', ''||'', ''=='', ''!='', ''>='', ''>'', ''<='', ''<'', ''('' ])"
    by simp
  from Match_group_texts[OF assms(1) r this] assms(2-4) show ?thesis by (auto simp: RELATIONS_def)
qed

lemma parse_check_returns:
  "returns (\<lambda>parts. \<forall>lhs' op rhs. parts = Some (lhs', op, rhs) \<longrightarrow> op \<in> set RELATIONS) (parse_check lhs expression)"
proof (induction lhs expression rule: parse_check.induct)
  case (1 lhs expression)
  show ?case
  proof (cases "expression = []")
    case True
    then show ?thesis by (simp add: parse_check.simps)
  next
    case ne: False
    show ?thesis
    proof (cases "Match EXPRESSION_TOKEN expression")
      case None
      then show ?thesis using 1(1)[OF ne None] 1(2)[OF ne None] ne
        by (subst parse_check.simps) (auto split: option.split)
    next
      case (Some m)
      obtain e st where fe: "FindEndOfExpressionInLine (grp m 2) 0 ''('' = Inr (e, st)"
        using FindEnd_returns[of 0] by (metis order_refl prod.exhaust)
      show ?thesis
        using 1(3)[OF ne Some refl refl _ fe refl] 1(4)[OF ne Some refl refl] token_in_list[OF Some]
        by (subst parse_check.simps) (simp add: ne Some fe Let_def)
    qed
  qed
qed

lemma find_check_macro_Some:
  "find_check_macro macros line = Some (macro, p) \<Longrightarrow>
   macro \<in> set macros \<and> (\<exists>m. Match (MACRO_CALL macro) line = Some m \<and> p = int (length (grp m 1)))"
  by (induction macros) (auto split: if_splits option.splits)

lemma macro_calls: "macro \<in> set CHECK_MACROS \<Longrightarrow> group_then_more (MACRO_CALL macro)"
proof -
  have "list_all (\<lambda>macro. group_then_more (MACRO_CALL macro)) CHECK_MACROS" by code_simp
  then show "macro \<in> set CHECK_MACROS \<Longrightarrow> group_then_more (MACRO_CALL macro)" by (simp add: list_all_iff)
qed

lemma FindCheckMacro_Some:
  assumes "FindCheckMacro line = Some (macro, p)"
  shows "macro \<in> set CHECK_MACROS" and "0 \<le> p" and "p < int (length line)"
  using find_check_macro_Some[OF assms[unfolded FindCheckMacro_def]] macro_calls group_then_more_shorter
  by fastforce+

lemma concat_range_returns:
  "(\<And>i. i \<in> set is \<Longrightarrow> 0 \<le> i \<and> i < int (length ls)) \<Longrightarrow> \<exists>t. concat_range ls is = Inr t"
  by (induction "is") (auto simp: py_nth_in_range)

lemma check_expression_returns:
  assumes "in_file c l" and "in_file c l'"
  shows "\<exists>t. check_expression c l p line l' e = Inr t"
proof -
  have "0 \<le> i \<and> i < int (length (cl_elided c))" if "i \<in> set (py_range (l + 1) l')" for i
    using that assms elided_length[OF assms(1)] by (auto simp: set_py_range in_file_def)
  then have "\<exists>t. concat_range (cl_elided c) (py_range (l + 1) l') = Inr t" by (rule concat_range_returns)
  then show ?thesis by (auto simp: check_expression_def in_file_nth[OF assms(1)])
qed

text \<open>Every pair of a macro and a relation has a replacement.\<close>

definition suggestion :: "string \<Rightarrow> string \<Rightarrow> string option" where
  "suggestion macro op = (case CHECK_REPLACEMENT macro of None \<Rightarrow> None | Some d \<Rightarrow> d op)"

lemma suggestion_known:
  "list_all (\<lambda>macro. list_all (\<lambda>op. suggestion macro op \<noteq> None) RELATIONS) CHECK_MACROS"
  by code_simp

lemma suggest_check_cases:
  assumes "macro \<in> set CHECK_MACROS" and "op \<in> set RELATIONS"
  obtains (silent) "suggest_check error f l macro (lhs, op, rhs) s = Inr s"
  | (report) replacement where "suggestion macro op = Some replacement"
      and "suggest_check error f l macro (lhs, op, rhs) s =
        error f (Some l) ''readability/check'' 2
          (check_message replacement macro op) s"
proof -
  have "suggestion macro op \<noteq> None" using suggestion_known assms by (simp add: list_all_iff)
  then obtain d r where d: "CHECK_REPLACEMENT macro = Some d" "d op = Some r"
    by (auto simp: suggestion_def split: option.splits)
  then have "suggestion macro op = Some r" by (simp add: suggestion_def)
  moreover have "suggest_check error f l macro (lhs, op, rhs) s = Inr s \<or>
      suggest_check error f l macro (lhs, op, rhs) s =
        error f (Some l) ''readability/check'' 2 (check_message r macro op) s"
    by (simp add: suggest_check_def py_key_def d)
  ultimately show thesis using that by blast
qed

text \<open>On a line of the file the check stays silent or suggests one replacement.\<close>

lemma CheckCheck_cases:
  assumes "in_file c l"
  shows "CheckCheck error f c l s = Inr s \<or>
    (\<exists>macro op replacement. macro \<in> set CHECK_MACROS \<and> op \<in> set RELATIONS \<and> suggestion macro op = Some replacement \<and>
       CheckCheck error f c l s =
         error f (Some l) ''readability/check'' 2
           (check_message replacement macro op) s)"
    (is "_ \<or> ?reports (CheckCheck error f c l s)")
proof (cases "FindCheckMacro (cl_elided c ! nat l)")
  case None
  with assms show ?thesis by (simp add: CheckCheck_def in_file_nth)
next
  case (Some found)
  then obtain macro p where mp: "FindCheckMacro (cl_elided c ! nat l) = Some (macro, p)" by (cases found) auto
  from CloseExpression_at[OF assms FindCheckMacro_Some(2,3)[OF mp]] obtain t l' e where
    ce: "CloseExpression c l p = Inr (t, l', e)" "0 \<le> l'" "e > -1 \<longrightarrow> l' < NumLines c" by (auto simp: returns_def)
  show ?thesis
  proof (cases "e < 0 \<or> \<not> Matches (rx ''`s*;'') (py_from t e)")
    case True
    then show ?thesis using assms by (auto simp: CheckCheck_def in_file_nth mp ce(1))
  next
    case False
    with ce in_file_range[OF assms] have "in_file c l'" by simp
    from check_expression_returns[OF assms this] obtain x where x: "check_expression c l p t l' e = Inr x" by blast
    from parse_check_returns[of "[]" x] obtain parts where
      parts: "parse_check [] x = Inr parts" "\<forall>lhs op rhs. parts = Some (lhs, op, rhs) \<longrightarrow> op \<in> set RELATIONS"
      by (auto simp: returns_def)
    have eq: "CheckCheck error f c l s =
        (case parts of None \<Rightarrow> Inr s | Some q \<Rightarrow> suggest_check error f l macro q s)"
      using False assms by (auto simp: CheckCheck_def in_file_nth mp ce(1) x parts(1))
    show ?thesis
    proof (cases parts)
      case None
      with eq show ?thesis by simp
    next
      case (Some q)
      then obtain lhs op rhs where q: "parts = Some (lhs, op, rhs)" by (cases q) auto
      with parts(2) have "op \<in> set RELATIONS" by blast
      from suggest_check_cases[OF FindCheckMacro_Some(1)[OF mp] this, of error f l lhs rhs s]
      show ?thesis
        using FindCheckMacro_Some(1)[OF mp] \<open>op \<in> set RELATIONS\<close> unfolding eq q by cases auto
    qed
  qed
qed

lemma alt_token_texts:
  "case re_compile ALT_TOKEN_REPLACEMENT_PATTERN of None \<Rightarrow> False
   | Some r \<Rightarrow> group_texts 1 r = Some (map fst ALT_TOKEN_REPLACEMENT)"
  by code_simp

lemma alt_token_known:
  assumes "m \<in> set (finditer ALT_TOKEN_REPLACEMENT_PATTERN line)"
  shows "\<exists>t. py_key (map_of ALT_TOKEN_REPLACEMENT) (grp m 1) = Inr t"
proof -
  obtain r where r: "re_compile ALT_TOKEN_REPLACEMENT_PATTERN = Some r"
    using alt_token_texts by (cases "re_compile ALT_TOKEN_REPLACEMENT_PATTERN") auto
  with alt_token_texts have "group_texts 1 r = Some (map fst ALT_TOKEN_REPLACEMENT)" by simp
  from finditer_group_texts[OF assms r this] have "grp m 1 \<in> fst ` set ALT_TOKEN_REPLACEMENT" by simp
  then obtain t where "map_of ALT_TOKEN_REPLACEMENT (grp m 1) = Some t"
    by (metis map_of_eq_None_iff not_None_eq)
  then show ?thesis by (simp add: py_key_def)
qed

context error_handler
begin

lemma CheckCheck_returns: "in_file c l \<Longrightarrow> inv s \<Longrightarrow> returns inv (CheckCheck error f c l s)"
  using CheckCheck_cases[of c l error f s] by (auto intro: error_returns)

lemma CheckAltTokens_returns:
  assumes "in_file c l" and "inv s"
  shows "returns inv (CheckAltTokens error f c l s)"
proof -
  have "returns inv (py_fold (\<lambda>m s. py_bind (py_key (map_of ALT_TOKEN_REPLACEMENT) (grp m 1)) (\<lambda>token.
      error f (Some l) ''readability/alt_tokens'' 2 (''Use operator '' @ token @ '' instead of '' @ grp m 1) s))
      (finditer ALT_TOKEN_REPLACEMENT_PATTERN line) s)" for line
  proof (rule returns_fold)
    fix m s assume m: "m \<in> set (finditer ALT_TOKEN_REPLACEMENT_PATTERN line)" and s: "inv s"
    obtain t where "py_key (map_of ALT_TOKEN_REPLACEMENT) (grp m 1) = Inr t" using alt_token_known[OF m] by blast
    then show "returns inv (py_bind (py_key (map_of ALT_TOKEN_REPLACEMENT) (grp m 1)) (\<lambda>token.
      error f (Some l) ''readability/alt_tokens'' 2 (''Use operator '' @ token @ '' instead of '' @ grp m 1) s))"
      by (simp only: py_bind.simps error_returns[OF s])
  qed (rule assms(2))
  then show ?thesis using assms by (auto simp: CheckAltTokens_def in_file_nth)
qed

lemma check_line_layout_returns:
  assumes "in_file c l" and "names_return env g" and "inv s"
  shows "returns inv (check_line_layout env g error f c l ext s)"
proof -
  have "\<exists>b. is_header_guard env g f ext line = Inr b" for line
    using GetHeaderGuardCPPVariable_returns[OF assms(2), of f] by (auto simp: is_header_guard_def)
  moreover have "\<exists>prev. (if l > 0 then py_nth (cl_lines_without_raw_strings c) (l - 1) else Inr []) = Inr prev"
    using in_file_nth(4)[OF in_file_before[OF assms(1), of "l - 1"]] assms(1) by (auto simp: in_file_def)
  ultimately show ?thesis
    unfolding check_line_layout_def Let_def
    using assms(1,3) by (auto simp: in_file_nth intro!: returns_bind[where P = inv] returns_bind[OF GetPreviousNonBlankLine_returns]
        error_when split: prod.split)
      (metis py_bind.simps(2) error_when)+
qed

end

lemma find_in_set: "find P xs = Some x \<Longrightarrow> x \<in> set xs \<and> P x"
  by (auto simp: find_Some_iff)

context world_handler
begin

lemma CheckStyle_returns:
  assumes "in_file c l" and "names_return env g" and "nest_ok (NumLines c) ns" and "inv w"
  shows "returns inv (CheckStyle env g error f c l ext ns w)"
proof -
  have sect: "returns inv ((case InnermostClass ns of None \<Rightarrow> Inr | Some b \<Rightarrow> CheckSectionSpacing error f c b l) w)" if "inv w" for w
    using that nest_ok_starts[OF assms(3)] find_in_set[of is_class "stack ns"]
    by (auto simp: InnermostClass_def split: option.split intro!: CheckSectionSpacing_returns[OF assms(1)])
  show ?thesis
    unfolding CheckStyle_def
    using assms
    by (auto intro!: returns_bind[where P = inv] sect check_line_layout_returns CheckBraces_returns
        CheckTrailingSemicolon_returns CheckEmptyBlockBody_returns CheckSpacing_returns CheckOperatorSpacing_returns
        CheckParenthesisSpacing_returns CheckCommaSpacing_returns CheckBracesSpacing_returns
        CheckSpacingForFunctionCall_returns CheckCheck_returns CheckAltTokens_returns)
qed

end

section \<open>The suggested macros\<close>

text \<open>What an operator, or the name of an operator in a macro, says about two integers.\<close>

definition relation :: "string \<Rightarrow> int \<Rightarrow> int \<Rightarrow> bool" where
  "relation name a b =
     (if name \<in> {''=='', ''EQ''} then a = b
      else if name \<in> {''!='', ''NE''} then a \<noteq> b
      else if name \<in> {''>='', ''GE''} then a \<ge> b
      else if name \<in> {''>'', ''GT''} then a > b
      else if name \<in> {''<='', ''LE''} then a \<le> b
      else a < b)"

lemma relation_simps:
  "relation ''=='' a b = (a = b)" "relation ''EQ'' a b = (a = b)" "relation ''!='' a b = (a \<noteq> b)"
  "relation ''NE'' a b = (a \<noteq> b)" "relation ''>='' a b = (a \<ge> b)" "relation ''GE'' a b = (a \<ge> b)"
  "relation ''>'' a b = (a > b)" "relation ''GT'' a b = (a > b)" "relation ''<='' a b = (a \<le> b)"
  "relation ''LE'' a b = (a \<le> b)" "relation ''<'' a b = (a < b)" "relation ''LT'' a b = (a < b)"
  by (simp_all add: relation_def)

definition macro_family :: "string \<Rightarrow> string" where
  "macro_family macro =
     (if startswith macro ''EXPECT_'' then ''EXPECT_'' else if startswith macro ''ASSERT_'' then ''ASSERT_''
      else macro @ ''_'')"

text \<open>The new macro belongs to the same family and asserts what the old one asserts.\<close>

definition same_assertion :: "string \<Rightarrow> string \<Rightarrow> string \<Rightarrow> bool" where
  "same_assertion macro op replacement \<longleftrightarrow>
     (\<exists>name \<in> {''EQ'', ''NE'', ''GE'', ''GT'', ''LE'', ''LT''}. replacement = macro_family macro @ name \<and>
        (\<forall>a b. relation name a b = (relation op a b \<noteq> endswith macro ''FALSE'')))"

definition names_for :: "string \<Rightarrow> (string \<times> string) list" where
  "names_for macro = (if endswith macro ''FALSE'' then INVERSE_NAMES else OPERATOR_NAMES)"

lemma suggestion_names:
  "macro \<in> set CHECK_MACROS \<Longrightarrow> op \<in> set RELATIONS \<Longrightarrow>
   suggestion macro op = map_option ((@) (macro_family macro)) (map_of (names_for macro) op)"
  unfolding CHECK_MACROS_def RELATIONS_def set_simps insert_iff empty_iff
  by (elim disjE FalseE; simp add: suggestion_def CHECK_REPLACEMENT_def replacements_def names_for_def
      OPERATOR_NAMES_def INVERSE_NAMES_def macro_family_def endswith_def)

lemma relation_names:
  assumes "map_of (names_for macro) op = Some name"
  shows "name \<in> {''EQ'', ''NE'', ''GE'', ''GT'', ''LE'', ''LT''} \<and>
    (\<forall>a b. relation name a b = (relation op a b \<noteq> endswith macro ''FALSE''))"
proof (cases "endswith macro ''FALSE''")
  case True
  with map_of_SomeD[OF assms] have "(op, name) \<in> set INVERSE_NAMES" by (simp add: names_for_def)
  then show ?thesis unfolding INVERSE_NAMES_def set_simps insert_iff empty_iff prod.inject
    by (elim disjE FalseE conjE) (auto simp: relation_simps True)
next
  case False
  with map_of_SomeD[OF assms] have "(op, name) \<in> set OPERATOR_NAMES" by (simp add: names_for_def)
  then show ?thesis unfolding OPERATOR_NAMES_def set_simps insert_iff empty_iff prod.inject
    by (elim disjE FalseE conjE) (auto simp: relation_simps False)
qed

lemma same_assertion_table:
  assumes "macro \<in> set CHECK_MACROS" and "op \<in> set RELATIONS" and "suggestion macro op = Some r"
  shows "same_assertion macro op r"
proof -
  have "map_option ((@) (macro_family macro)) (map_of (names_for macro) op) = Some r"
    using suggestion_names[OF assms(1,2)] assms(3) by (rule trans[OF sym])
  then obtain name where name: "map_of (names_for macro) op = Some name" and r: "r = macro_family macro @ name"
    by (cases "map_of (names_for macro) op") simp_all
  from relation_names[OF name] r show ?thesis unfolding same_assertion_def by blast
qed


definition ex_check_file :: cleansed_lines where
  "ex_check_file =
     (let ls = [''EXPECT_FALSE(x<4);'']
      in \<lparr>cl_elided = ls, cl_lines = ls, cl_raw_lines = ls, cl_num_lines = 1, cl_lines_without_raw_strings = ls\<rparr>)"


end
