(* ===== verification/Regex_Groups.thy ===== *)
theory Regex_Groups
  imports Regex
begin

text \<open>
  Two facts about patterns that need more than the shape of one match: the last character of a
  match is in the class that ends the pattern, and whether a pattern matches does not depend on
  where its groups are (\<open>same_up_to_groups\<close>).
\<close>

section \<open>The last character of a match\<close>

text \<open>A pattern that ends with a class: the last character of a match is in the class.\<close>

fun last_class :: "re \<Rightarrow> (bool \<times> cset list) option" where
  "last_class (RSet p cs) = Some (p, cs)"
| "last_class (RSeq a b) = last_class b"
| "last_class (RGroup n r) = last_class r"
| "last_class r = None"

lemma last_class_lft:
  "last_class r = Some (p, cs) \<Longrightarrow> s' \<in> set (runs r s) \<Longrightarrow> \<exists>c w. lft s' = c # w \<and> set_accepts p cs c"
proof (induction r arbitrary: s s')
  case (RSet q ds)
  then show ?case by (auto simp: advance_Some)
next
  case (RGroup n r)
  then show ?case by (fastforce simp: capture_def)
qed auto

lemma Search_last_class:
  assumes "Search p s = Some m" and "re_compile p = Some r" and "last_class r = Some (q, cs)" and "0 < min_len r"
  shows "0 < m_end m \<and> set_accepts q cs (s ! nat (m_end m - 1)) \<and> m_end m \<le> int (length s)"
proof -
  from assms(1,2) obtain l' t where t: "match_at r l' t = Some m"
    by (auto simp: Search_def dest: search_at_match_at)
  then obtain s' where s': "rmatch r Some (MS l' t []) = Some s'" "m = match_of l' t s'"
    by (auto simp: match_at_def)
  note run = rmatch_Some_runs[OF s'(1)]
  obtain c w where c: "lft s' = c # w" "set_accepts q cs c" using last_class_lft[OF assms(3) run] by blast
  obtain v where v: "lft s' = rev v @ l'" "t = v @ rgt s'" using runs_grow[OF run] by auto
  have m: "m_text m = v" "m_pre m = rev l'" using s'(2) v(1) by (simp_all add: match_of_def consumed_of)
  have "v \<noteq> []" using runs_min_len[OF run] v(2) assms(4) by auto
  then obtain u where u: "v = u @ [c]" using v(1) c(1) by (cases v rule: rev_cases) auto
  have "s = (m_pre m @ u) @ c # m_post m" using Search_split[OF assms(1)] m u by simp
  moreover have e: "m_end m = int (length (m_pre m @ u)) + 1" using m u by (simp add: m_end_def)
  moreover from e have "nat (m_end m - 1) = length (m_pre m @ u)" by simp
  ultimately show ?thesis using c(2) nth_append_length[of "m_pre m @ u" c "m_post m"] by (metis add_increasing le_numeral_extra(1)
        length_append length_Cons of_nat_0_le_iff of_nat_Suc of_nat_le_iff le_add1 add_Suc_right Suc_le_mono zero_less_Suc of_nat_0_less_iff add.commute)
qed

section \<open>Patterns without their groups\<close>

fun no_refs :: "re \<Rightarrow> bool" where
  "no_refs (RSeq a b) = (no_refs a \<and> no_refs b)"
| "no_refs (RAlt a b) = (no_refs a \<and> no_refs b)"
| "no_refs (RStar g r) = no_refs r"
| "no_refs (RGroup n r) = no_refs r"
| "no_refs (RLook p r) = no_refs r"
| "no_refs (RRef n) = False"
| "no_refs r = True"

fun drop_groups :: "re \<Rightarrow> re" where
  "drop_groups (RSeq a b) = RSeq (drop_groups a) (drop_groups b)"
| "drop_groups (RAlt a b) = RAlt (drop_groups a) (drop_groups b)"
| "drop_groups (RStar g r) = RStar g (drop_groups r)"
| "drop_groups (RGroup n r) = drop_groups r"
| "drop_groups (RLook p r) = RLook p (drop_groups r)"
| "drop_groups r = r"

text \<open>The positions that a pattern leads to do not depend on its groups, when nothing refers to them.\<close>

definition mpos :: "mstate \<Rightarrow> string \<times> string" where
  "mpos s = (lft s, rgt s)"

definition positions :: "re \<Rightarrow> mstate \<Rightarrow> (string \<times> string) set" where
  "positions r s = mpos ` set (runs r s)"

lemma mpos_simps [simp]: "mpos (MS l r c) = (l, r)" "mpos (capture n s s') = mpos s'"
  by (simp_all add: mpos_def capture_def)

lemma positions_Seq: "positions (RSeq a b) s = (\<Union>s' \<in> set (runs a s). positions b s')"
  by (auto simp: positions_def)

lemma positions_Star:
  "positions (RStar g r) s =
   insert (mpos s) (\<Union>s' \<in> {s' \<in> set (runs r s). length (rgt s') < length (rgt s)}. positions (RStar g r) s')"
  by (auto simp: positions_def runs.simps(6)[of g r s] Let_def split: if_splits)

lemma runs_empty_positions: "runs r s = [] \<longleftrightarrow> positions r s = {}"
  by (simp add: positions_def)

lemma UN_positions:
  assumes "mpos ` A = mpos ` B" and "\<And>s t. s \<in> A \<Longrightarrow> t \<in> B \<Longrightarrow> mpos s = mpos t \<Longrightarrow> f s = g t"
  shows "(\<Union>s \<in> A. f s) = (\<Union>t \<in> B. g t)"
proof -
  have "f s \<in> g ` B" if "s \<in> A" for s
  proof -
    from that assms(1) have "mpos s \<in> mpos ` B" by blast
    then obtain t where "t \<in> B" "mpos s = mpos t" by blast
    with assms(2)[OF that] show ?thesis by blast
  qed
  moreover have "g t \<in> f ` A" if "t \<in> B" for t
  proof -
    from that assms(1) have "mpos t \<in> mpos ` A" by blast
    then obtain s where "s \<in> A" "mpos s = mpos t" by (metis imageE)
    with assms(2) that show ?thesis by (metis imageI)
  qed
  ultimately have "f ` A = g ` B" by blast
  then show ?thesis by simp
qed

lemma positions_star_cong:
  assumes "\<And>s t. mpos s = mpos t \<Longrightarrow> positions a s = positions b t"
  shows "mpos s = mpos t \<Longrightarrow> positions (RStar g a) s = positions (RStar g b) t"
proof (induction "length (rgt s)" arbitrary: s t rule: less_induct)
  case less
  have len: "length (rgt s) = length (rgt t)" using less.prems by (simp add: mpos_def)
  have "mpos ` {s' \<in> set (runs a s). length (rgt s') < length (rgt s)} =
      {x \<in> positions a s. length (snd x) < length (rgt s)}"
    by (auto simp: positions_def mpos_def)
  also have "\<dots> = {x \<in> positions b t. length (snd x) < length (rgt t)}"
    using assms[OF less.prems] len by simp
  also have "\<dots> = mpos ` {t' \<in> set (runs b t). length (rgt t') < length (rgt t)}"
    by (auto simp: positions_def mpos_def)
  finally show ?case
    unfolding positions_Star[of g a s] positions_Star[of g b t]
    using less.prems less.hyps by (intro arg_cong2[where f = insert] UN_positions) auto
qed

lemma positions_drop_groups:
  "no_refs r \<Longrightarrow> mpos s = mpos t \<Longrightarrow> positions r s = positions (drop_groups r) t"
proof (induction r arbitrary: s t)
  case (RSeq a b)
  have A: "mpos ` set (runs a s) = mpos ` set (runs (drop_groups a) t)"
    using RSeq.IH(1)[of s t] RSeq.prems by (simp add: positions_def)
  have "(\<Union>s' \<in> set (runs a s). positions b s') = (\<Union>t' \<in> set (runs (drop_groups a) t). positions (drop_groups b) t')"
    using RSeq.IH(2) RSeq.prems(1) by (intro UN_positions[OF A]) simp
  then show ?case by (simp only: drop_groups.simps positions_Seq)
next
  case (RAlt a b)
  then have "positions a s = positions (drop_groups a) t" "positions b s = positions (drop_groups b) t" by auto
  then show ?case by (simp add: positions_def image_Un)
next
  case (RStar g r)
  then show ?case by (simp del: runs.simps) (rule positions_star_cong, auto)
next
  case (RGroup n r)
  then show ?case by (simp add: positions_def image_image)
next
  case (RLook p r)
  then have "runs r s = [] \<longleftrightarrow> runs (drop_groups r) t = []" by (simp add: runs_empty_positions)
  with RLook.prems show ?case by (cases "runs r s"; cases "runs (drop_groups r) t") (auto simp: positions_def mpos_def)
next
  case (RSet p cs)
  then show ?case by (cases s; cases t; cases "rgt s") (auto simp: positions_def)
next
  case RAny
  then show ?case by (cases s; cases t; cases "rgt s") (auto simp: positions_def)
qed (auto simp: positions_def mpos_def at_bol_def at_eol_def at_word_boundary_def)

text \<open>Sequences are put in right-associated form.\<close>

fun seq_app :: "re \<Rightarrow> re \<Rightarrow> re" where
  "seq_app (RSeq a b) c = RSeq a (seq_app b c)"
| "seq_app r c = RSeq r c"

fun right_assoc :: "re \<Rightarrow> re" where
  "right_assoc (RSeq a b) = seq_app (right_assoc a) (right_assoc b)"
| "right_assoc r = r"

lemma runs_assoc: "runs (seq_app a c) s = runs (RSeq a c) s"
proof (induction a arbitrary: s)
  case (RSeq a b)
  have "runs (seq_app b c) = (\<lambda>s. concat (map (runs c) (runs b s)))"
    using RSeq.IH(2) by (simp add: fun_eq_iff)
  moreover have "concat (map (\<lambda>s. concat (map (runs c) (runs b s))) xs) = concat (map (runs c) (concat (map (runs b) xs)))" for xs
    by (induction xs) simp_all
  ultimately show ?case by simp
qed simp_all

lemma runs_right_assoc: "runs (right_assoc r) = runs r"
proof (induction r)
  case (RSeq a b)
  then show ?case by (intro ext) (simp add: runs_assoc)
qed simp_all

definition same_up_to_groups :: "string \<Rightarrow> string \<Rightarrow> bool" where
  "same_up_to_groups p q =
     (case re_compile p of None \<Rightarrow> False
      | Some r \<Rightarrow>
          (case re_compile q of None \<Rightarrow> False
           | Some r' \<Rightarrow> no_refs r \<and> no_refs r' \<and> right_assoc (drop_groups r) = right_assoc (drop_groups r')))"

lemma same_up_to_groups_Finds: "same_up_to_groups p q \<Longrightarrow> Finds p s \<longleftrightarrow> Finds q s"
proof -
  assume "same_up_to_groups p q"
  then obtain r r' where r: "re_compile p = Some r" "re_compile q = Some r'" "no_refs r" "no_refs r'"
    "right_assoc (drop_groups r) = right_assoc (drop_groups r')"
    by (auto simp: same_up_to_groups_def split: option.splits)
  have eq: "runs (drop_groups r) = runs (drop_groups r')"
    using runs_right_assoc[of "drop_groups r"] runs_right_assoc[of "drop_groups r'"] r(5) by simp
  have "positions r t = positions r' t" for t
    using positions_drop_groups[OF r(3) refl, of t] positions_drop_groups[OF r(4) refl, of t]
    unfolding positions_def eq by (rule trans[OF _ sym])
  then have "runs r t = [] \<longleftrightarrow> runs r' t = []" for t unfolding runs_empty_positions by simp
  then show ?thesis unfolding Finds_iff[OF r(1)] Finds_iff[OF r(2)] by simp
qed

end
