(* ===== verification/Language.thy ===== *)
theory Language
  imports Style Regex_Groups
begin

text \<open>
  The language rules: casts (\<open>CheckCasts\<close>, \<open>CheckCStyleCast\<close>), global strings and
  self-initialization (\<open>CheckGlobalStatic\<close>), \<open>CheckPrintf\<close>, non-const references
  (\<open>CheckForNonConstReference\<close> with the scans it needs) and \<open>CheckLanguage\<close>, which also
  handles the include lines.
\<close>

section \<open>Text between brackets\<close>

definition matching_punctuation :: "char \<Rightarrow> char option" where
  "matching_punctuation c =
     (if c = CHR ''('' then Some (CHR '')'')
      else if c = CHR ''{'' then Some (CHR ''}'')
      else if c = CHR ''['' then Some (CHR '']'')
      else None)"

definition closing_punctuation :: string where
  "closing_punctuation = '')}]''"

text \<open>
  The scan behind the opening bracket: the text passed over (reversed), the closing brackets that
  are expected, the innermost first, and the text ahead.  The last character passed over is the
  closing bracket.
\<close>

fun punctuation_scan :: "string \<Rightarrow> string \<Rightarrow> string \<Rightarrow> string option" where
  "punctuation_scan passed [] rest = Some (rev (drop 1 passed))"
| "punctuation_scan passed (e # es) [] = None"
| "punctuation_scan passed (e # es) (c # rest) =
     (if c = e then punctuation_scan (c # passed) es rest
      else if c \<in> set closing_punctuation then None
      else
        (case matching_punctuation c of
           Some d \<Rightarrow> punctuation_scan (c # passed) (d # e # es) rest
         | None \<Rightarrow> punctuation_scan (c # passed) (e # es) rest))"

text \<open>The text is one line without a newline, where \<open>re.M\<close> makes no difference.\<close>

definition GetTextInside :: "string \<Rightarrow> string \<Rightarrow> string option py" where
  "GetTextInside text start_pattern =
     (case Search start_pattern text of
        None \<Rightarrow> Inr None
      | Some m \<Rightarrow>
          if m_end m \<le> 0 then Inl AssertionError
          else
            py_bind (py_nth text (m_end m - 1)) (\<lambda>c.
              case matching_punctuation c of
                None \<Rightarrow> Inl AssertionError
              | Some d \<Rightarrow> Inr (punctuation_scan [] [d] (py_from text (m_end m)))))"

section \<open>Casts\<close>

definition MOCK_METHOD :: string where
  \<open>MOCK_METHOD = rx ''^`s*MOCK_(CONST_)?METHOD`d+(_T)?`(''\<close>

definition MOCK_METHOD_ARGS :: string where
  \<open>MOCK_METHOD_ARGS = rx ''^`s*MOCK_(?:CONST_)?METHOD`d+(?:_T)?`((?:`S+,)?`s*$''\<close>

definition MOCK_METHOD_OPEN :: string where
  \<open>MOCK_METHOD_OPEN = rx ''^`s*MOCK_(?:CONST_)?METHOD`d+(?:_T)?`(`s*$''\<close>

definition STD_FUNCTION :: string where
  \<open>STD_FUNCTION = rx ''`bstd::m?function`s*`<`s*$''\<close>

definition ExpectingFunctionArgs :: "cleansed_lines \<Rightarrow> int \<Rightarrow> bool py" where
  "ExpectingFunctionArgs clean_lines linenum =
     (let elided = cl_elided clean_lines
      in py_bind (py_nth elided linenum) (\<lambda>line.
           if Matches MOCK_METHOD line then Inr True
           else if linenum \<ge> 2 then
             py_bind (py_nth elided (linenum - 1)) (\<lambda>line1.
             py_bind (py_nth elided (linenum - 2)) (\<lambda>line2.
               Inr (Matches MOCK_METHOD_ARGS line1 \<or> Matches MOCK_METHOD_OPEN line2 \<or> Finds STD_FUNCTION line1)))
           else Inr False))"

definition NOT_A_CAST :: string where
  \<open>NOT_A_CAST = rx ''.*`b(?:sizeof|alignof|alignas|[_A-Z][_A-Z0-9]*)`s*$''\<close>

definition INSIDE_MACRO :: string where
  \<open>INSIDE_MACRO = rx ''.*`b[_A-Z][_A-Z0-9]*`s*`((?:`([^()]*`)|[^()])*$''\<close>

definition UNNAMED_ARGUMENT :: string where
  \<open>UNNAMED_ARGUMENT = rx ''^`s*(?:;|const`b|throw`b|final`b|override`b|[=>{),]|->)''\<close>

text \<open>The lines before the current one are put in front of the context.\<close>

fun expand_context :: "string list \<Rightarrow> int list \<Rightarrow> string \<Rightarrow> string py" where
  "expand_context elided [] context = Inr context"
| "expand_context elided (i # is) context =
     py_bind (py_nth elided i) (\<lambda>l. expand_context elided is (l @ context))"

definition CheckCStyleCast ::
  "'s error_fn \<Rightarrow> string \<Rightarrow> cleansed_lines \<Rightarrow> int \<Rightarrow> string \<Rightarrow> string \<Rightarrow> 's \<Rightarrow> (bool \<times> 's) py" where
  "CheckCStyleCast error filename clean_lines linenum cast_type pattern s =
     py_bind (py_nth (cl_elided clean_lines) linenum) (\<lambda>line.
       case Search pattern line of
         None \<Rightarrow> Inr (False, s)
       | Some m \<Rightarrow>
           (let context = py_slice line 0 (m_start_of m 1 - 1)
            in if Matches NOT_A_CAST context then Inr (False, s)
               else
                 py_bind (expand_context (cl_elided clean_lines)
                            (if linenum > 0 then py_range_down (linenum - 1) (max 0 (linenum - 5)) else []) context)
                   (\<lambda>context.
                     if Matches INSIDE_MACRO context then Inr (False, s)
                     else if endswith context '' operator++'' \<or> endswith context '' operator--'' then Inr (False, s)
                     else if Matches UNNAMED_ARGUMENT (py_from line (m_end m)) then Inr (False, s)
                     else
                       py_bind (error filename (Some linenum) ''readability/casting'' 4
                                  (''Using C-style cast.  Use '' @ cast_type @ ''<'' @ grp m 1 @ ''>(...) instead'') s)
                         (\<lambda>s. Inr (True, s)))))"

definition FUNCTION_CAST :: string where
  \<open>FUNCTION_CAST = rx (''(`bnew`s+(?:const`s+)?|`S<`s*(?:const`s+)?)?`b'' @
     ''(int|float|double|bool|char|int32|uint32|int64|uint64)'' @ ''(`([^)].*)'')\<close>

definition ARRAY_AFTER_PAREN :: string where
  \<open>ARRAY_AFTER_PAREN = rx ''`([^()]+`)`s*`[''\<close>

definition FUNCTION_POINTER_CAST :: string where
  \<open>FUNCTION_POINTER_CAST = rx ''`((?:[^() ]+::`s*`*`s*)?[^() ]+`)`s*`(''\<close>

definition USING_ALIAS :: "string \<Rightarrow> string" where
  \<open>USING_ALIAS matched_type = rx ''`s*using`s+`S+`s*=`s*'' @ matched_type\<close>

definition PLACEMENT_NEW :: "string \<Rightarrow> string" where
  \<open>PLACEMENT_NEW matched_type = rx ''new`(`S+`)`s*'' @ matched_type\<close>

definition BASIC_TYPE_CAST :: string where
  \<open>BASIC_TYPE_CAST = rx ''`((int|float|double|bool|char|u?int(16|32|64))`)''\<close>

definition STRING_CAST :: string where
  \<open>STRING_CAST = rx ''`((char`s?`*+`s?)`)`s*"''\<close>

definition POINTER_CAST :: string where
  \<open>POINTER_CAST = rx ''`((`w+`s?`*+`s?)`)''\<close>

definition ADDRESS_OF_CAST :: string where
  \<open>ADDRESS_OF_CAST = rx (''(?:[^`w]&`(([^)*][^)]*)`)[`w(])|'' @
     ''(?:[^`w]&(static|dynamic|down|reinterpret)_cast`b)'')\<close>

definition CAST_TEMPLATE :: string where
  \<open>CAST_TEMPLATE = rx ''^(.*&(?:static|dynamic|down|reinterpret)_cast`b)<''\<close>

definition DEREFERENCE :: string where
  \<open>DEREFERENCE = rx ''`s*(?:->|`[)''\<close>

text \<open>
  The conversion function casts.  The Boolean says that the check goes on: the code returns at
  once when the parenthesis is followed by an array.
\<close>

definition check_function_cast ::
  "'s error_fn \<Rightarrow> string \<Rightarrow> int \<Rightarrow> string \<Rightarrow> pmatch \<Rightarrow> 's \<Rightarrow> (bool \<times> 's) py" where
  "check_function_cast error filename linenum line m s =
     (let matched_type = grp m 2; matched_funcptr = grp m 3
      in if Matches ARRAY_AFTER_PAREN matched_funcptr then Inr (False, s)
         else
           py_bind
             (py_when
                (group m 1 = None \<and>
                 \<not> (matched_funcptr \<noteq> [] \<and>
                    (Matches FUNCTION_POINTER_CAST matched_funcptr \<or> startswith matched_funcptr ''(*)'')) \<and>
                 \<not> Matches (USING_ALIAS matched_type) line \<and> \<not> Finds (PLACEMENT_NEW matched_type) line)
                (error filename (Some linenum) ''readability/casting'' 4
                   (''Using deprecated casting style.  '' @ ''Use static_cast<'' @ matched_type @ ''>(...) instead'')) s)
             (\<lambda>s. Inr (True, s)))"

text \<open>Whether the casted pointer is dereferenced behind the cast that begins at the bracket.\<close>

definition dereferenced :: "cleansed_lines \<Rightarrow> int \<Rightarrow> int \<Rightarrow> bool py" where
  "dereferenced clean_lines linenum pos =
     (let elided = cl_elided clean_lines
      in py_bind (CloseExpression clean_lines linenum pos) (\<lambda>(_, y1, x1).
           if x1 < 0 then Inr False
           else
             py_bind (py_nth elided y1) (\<lambda>line1.
             py_bind (py_nth line1 x1) (\<lambda>c.
               if c \<noteq> CHR ''('' then Inr False
               else
                 py_bind (CloseExpression clean_lines y1 x1) (\<lambda>(_, y2, x2).
                   if x2 < 0 then Inr False
                   else
                     py_bind (py_nth elided y2) (\<lambda>line2.
                     py_bind (if y2 < NumLines clean_lines - 1 then py_nth elided (y2 + 1) else Inr []) (\<lambda>next.
                       Inr (Matches DEREFERENCE (py_from line2 x2 @ next)))))))))"

definition check_address_of_cast ::
  "'s error_fn \<Rightarrow> string \<Rightarrow> cleansed_lines \<Rightarrow> int \<Rightarrow> string \<Rightarrow> 's \<Rightarrow> 's py" where
  "check_address_of_cast error filename clean_lines linenum line s =
     py_bind
       (case Match CAST_TEMPLATE line of
          None \<Rightarrow> Inr False
        | Some m \<Rightarrow> dereferenced clean_lines linenum (int (length (grp m 1))))
       (\<lambda>parenthesis_error.
          if parenthesis_error then
            error filename (Some linenum) ''readability/casting'' 4
              (''Are you taking an address of something dereferenced '' @
               ''from a cast?  Wrapping the dereferenced expression in '' @
               ''parentheses will make the binding more obvious'') s
          else
            error filename (Some linenum) ''runtime/casting'' 4
              (''Are you taking an address of a cast?  '' @
               ''This is dangerous: could be a temp var.  '' @
               ''Take the address before doing the cast, rather than after'') s)"

definition CheckCasts :: "'s error_fn \<Rightarrow> string \<Rightarrow> cleansed_lines \<Rightarrow> int \<Rightarrow> 's \<Rightarrow> 's py" where
  "CheckCasts error filename clean_lines linenum s =
     py_bind (py_nth (cl_elided clean_lines) linenum) (\<lambda>line.
     py_bind (ExpectingFunctionArgs clean_lines linenum) (\<lambda>expecting_function.
     py_bind
       (case Search FUNCTION_CAST line of
          Some m \<Rightarrow>
            if \<not> expecting_function then check_function_cast error filename linenum line m s else Inr (True, s)
        | None \<Rightarrow> Inr (True, s)) (\<lambda>(go_on, s).
       if \<not> go_on then Inr s
       else
         py_bind
           (if \<not> expecting_function then
              CheckCStyleCast error filename clean_lines linenum ''static_cast'' BASIC_TYPE_CAST s
            else Inr (False, s)) (\<lambda>(_, s).
         py_bind (CheckCStyleCast error filename clean_lines linenum ''const_cast'' STRING_CAST s) (\<lambda>(found, s).
         py_bind
           (if found then Inr (True, s)
            else CheckCStyleCast error filename clean_lines linenum ''reinterpret_cast'' POINTER_CAST s) (\<lambda>(_, s).
           py_when (Finds ADDRESS_OF_CAST line)
             (check_address_of_cast error filename clean_lines linenum line) s))))))"

section \<open>Global strings, self-initialization and printf\<close>

definition OPENS_OR_ENDS :: string where
  \<open>OPENS_OR_ENDS = rx ''[;({]''\<close>

definition GLOBAL_STRING :: string where
  \<open>GLOBAL_STRING = rx (''((?:|static +)(?:|const +))(?::*std::)?string( +const)? +'' @
     ''([a-zA-Z0-9_:]+)`b(.*)'')\<close>

definition STRING_POINTER :: string where
  \<open>STRING_POINTER = rx ''`bstring`b(`s+const)?`s*[`*`&]`s*(const`s+)?`w''\<close>

definition OPERATOR_NAME :: string where
  \<open>OPERATOR_NAME = rx ''`boperator`W''\<close>

definition FUNCTION_ARGUMENTS :: string where
  \<open>FUNCTION_ARGUMENTS = rx ''`s*(<.*>)?(::[a-zA-Z0-9_]+)*`s*`(([^"]|$)''\<close>

definition CONST_WORD :: string where
  \<open>CONST_WORD = rx ''`bconst`b''\<close>

definition SELF_INIT :: string where
  \<open>SELF_INIT = rx ''`b([A-Za-z0-9_]*_)`(`1`)''\<close>

definition SELF_INIT_CHECKED :: string where
  \<open>SELF_INIT_CHECKED = rx ''`b([A-Za-z0-9_]*_)`(CHECK_NOTNULL`(`1`)`)''\<close>

definition declaration_lines :: "cleansed_lines \<Rightarrow> int \<Rightarrow> string \<Rightarrow> string py" where
  "declaration_lines clean_lines linenum line =
     (if linenum + 1 < NumLines clean_lines \<and> \<not> Finds OPENS_OR_ENDS line then
        py_bind (py_nth (cl_elided clean_lines) (linenum + 1)) (\<lambda>next. Inr (line @ py_strip next))
      else Inr line)"

definition check_global_string :: "'s error_fn \<Rightarrow> string \<Rightarrow> int \<Rightarrow> string \<Rightarrow> 's \<Rightarrow> 's py" where
  \<open>check_global_string error filename linenum line s =
     (case Match GLOBAL_STRING line of
        None \<Rightarrow> Inr s
      | Some m \<Rightarrow>
          if Finds STRING_POINTER line \<or> Finds OPERATOR_NAME line \<or> Matches FUNCTION_ARGUMENTS (grp m 4) then Inr s
          else if Finds CONST_WORD line then
            error filename (Some linenum) ''runtime/string'' 4
              (''For a static/global string constant, use a C style string '' @
               ''instead: "'' @ grp m 1 @ ''char'' @ grp m 2 @ '' '' @ grp m 3 @ ''[]".'') s
          else
            error filename (Some linenum) ''runtime/string'' 4
              ''Static/global string variables are not permitted.'' s)\<close>

definition CheckGlobalStatic :: "'s error_fn \<Rightarrow> string \<Rightarrow> cleansed_lines \<Rightarrow> int \<Rightarrow> 's \<Rightarrow> 's py" where
  "CheckGlobalStatic error filename clean_lines linenum s =
     py_bind (py_nth (cl_elided clean_lines) linenum) (\<lambda>first.
     py_bind (declaration_lines clean_lines linenum first) (\<lambda>line. py_seq
       [check_global_string error filename linenum line,
        py_when (Finds SELF_INIT line \<or> Finds SELF_INIT_CHECKED line)
          (error filename (Some linenum) ''runtime/init'' 4
             ''You seem to be initializing a member variable with itself.'')] s))"

definition SNPRINTF :: string where
  \<open>SNPRINTF = rx ''snprintf`s*`(([^,]*),`s*([0-9]*)`s*,''\<close>

definition SPRINTF :: string where
  \<open>SPRINTF = rx ''`bsprintf`s*`(''\<close>

definition STRCPY :: string where
  \<open>STRCPY = rx ''`b(strcpy|strcat)`s*`(''\<close>

definition CheckPrintf :: "'s error_fn \<Rightarrow> string \<Rightarrow> cleansed_lines \<Rightarrow> int \<Rightarrow> 's \<Rightarrow> 's py" where
  "CheckPrintf error filename clean_lines linenum s =
     py_bind (py_nth (cl_elided clean_lines) linenum) (\<lambda>line. py_seq
       [(case Search SNPRINTF line of
           None \<Rightarrow> Inr
         | Some m \<Rightarrow>
             py_when (grp m 2 \<noteq> ''0'')
               (error filename (Some linenum) ''runtime/printf'' 3
                  (''If you can, use sizeof('' @ grp m 1 @ '') instead of '' @ grp m 2 @ '' as the 2nd arg '' @
                   ''to snprintf.''))),
        py_when (Finds SPRINTF line)
          (error filename (Some linenum) ''runtime/printf'' 5 ''Never use sprintf. Use snprintf instead.''),
        (case Search STRCPY line of
           None \<Rightarrow> Inr
         | Some m \<Rightarrow>
             error filename (Some linenum) ''runtime/printf'' 4
               (''Almost always, snprintf is better than '' @ grp m 1))] s)"

section \<open>References\<close>

definition FUNCTION_OPEN :: string where
  \<open>FUNCTION_OPEN = rx ''^([^()]*`w+)`(''\<close>

definition OVERRIDE_WORD :: string where
  \<open>OVERRIDE_WORD = rx ''`boverride`b''\<close>

definition OUT_OF_LINE_METHOD :: string where
  \<open>OUT_OF_LINE_METHOD = rx ''^[^()]*`w+::`w+`(''\<close>

definition IsDerivedFunction :: "cleansed_lines \<Rightarrow> int \<Rightarrow> bool py" where
  "IsDerivedFunction clean_lines linenum =
     (let elided = cl_elided clean_lines
      in py_bind (py_find_index (Matches FUNCTION_OPEN) elided (py_range_down linenum (max (-1) (linenum - 10))))
           (\<lambda>found.
              case found of
                None \<Rightarrow> Inr False
              | Some i \<Rightarrow>
                  py_bind (py_nth elided i) (\<lambda>start.
                    case Match FUNCTION_OPEN start of
                      None \<Rightarrow> Inr False
                    | Some m \<Rightarrow>
                        py_bind (CloseExpression clean_lines i (int (length (grp m 1)))) (\<lambda>(line, _, closing_paren).
                          Inr (closing_paren \<ge> 0 \<and> Finds OVERRIDE_WORD (py_from line closing_paren))))))"

definition IsOutOfLineMethodDefinition :: "cleansed_lines \<Rightarrow> int \<Rightarrow> bool py" where
  "IsOutOfLineMethodDefinition clean_lines linenum =
     (let elided = cl_elided clean_lines
      in py_bind (py_find_index (Matches FUNCTION_OPEN) elided (py_range_down linenum (max (-1) (linenum - 10))))
           (\<lambda>found.
              case found of
                None \<Rightarrow> Inr False
              | Some i \<Rightarrow> py_bind (py_nth elided i) (\<lambda>start. Inr (Matches OUT_OF_LINE_METHOD start))))"

definition BODY_AT_END :: string where
  \<open>BODY_AT_END = rx ''^(.*)`{`s*$''\<close>

definition COLON_MEMBER :: string where
  \<open>COLON_MEMBER = rx ''`s:`s*`w+[({]''\<close>

definition BRACE_COMMA :: string where
  \<open>BRACE_COMMA = rx ''`}`s*,`s*$''\<close>

definition BRACE_OR_SEMICOLON :: string where
  \<open>BRACE_OR_SEMICOLON = rx ''[{};]`s*$''\<close>

text \<open>The text of the line that is looked at: the current line loses a body that opens at its end.\<close>

definition without_body :: "string \<Rightarrow> string" where
  "without_body line = (case Match BODY_AT_END line of None \<Rightarrow> line | Some m \<Rightarrow> grp m 1)"

fun initializer_scan :: "string list \<Rightarrow> int \<Rightarrow> int list \<Rightarrow> bool py" where
  "initializer_scan elided linenum [] = Inr False"
| "initializer_scan elided linenum (i # is) =
     py_bind (py_nth elided i) (\<lambda>l.
       let line = (if i = linenum then without_body l else l)
       in if Finds COLON_MEMBER line \<or> Finds BRACE_COMMA line then Inr True
          else if Finds BRACE_OR_SEMICOLON line then Inr False
          else initializer_scan elided linenum is)"

definition IsInitializerList :: "cleansed_lines \<Rightarrow> int \<Rightarrow> bool py" where
  "IsInitializerList clean_lines linenum =
     initializer_scan (cl_elided clean_lines) linenum (py_range_down linenum 1)"

definition RE_PATTERN_IDENT :: string where
  \<open>RE_PATTERN_IDENT = rx ''[_a-zA-Z]`w*''\<close>

definition RE_PATTERN_TYPE :: string where
  \<open>RE_PATTERN_TYPE =
     rx (''(?:const`s+)?(?:typename`s+|class`s+|struct`s+|union`s+|enum`s+)?'' @
         ''(?:`w|'' @
         ''`s*<(?:<(?:<[^<>]*>|[^<>])*>|[^<>])*>|'' @
         ''::)+'')\<close>

definition RE_PATTERN_REF_PARAM :: string where
  \<open>RE_PATTERN_REF_PARAM =
     ''('' @ RE_PATTERN_TYPE @ rx ''(?:`s*(?:`bconst`b|[*]))*`s*'' @
     rx ''&`s*'' @ RE_PATTERN_IDENT @ rx '')`s*(?:=[^,()]+)?[,)]''\<close>

definition RE_PATTERN_CONST_REF_PARAM :: string where
  \<open>RE_PATTERN_CONST_REF_PARAM =
     rx ''(?:.*`s*`bconst`s*&`s*'' @ RE_PATTERN_IDENT @
     rx ''|const`s+'' @ RE_PATTERN_TYPE @ rx ''`s*&`s*'' @ RE_PATTERN_IDENT @ '')''\<close>

definition RE_PATTERN_REF_STREAM_PARAM :: string where
  \<open>RE_PATTERN_REF_STREAM_PARAM = rx ''(?:.*stream`s*&`s*'' @ RE_PATTERN_IDENT @ '')''\<close>

definition TYPE_CONTINUES :: string where
  \<open>TYPE_CONTINUES = rx ''`s*::(?:[`w<>]|::)+`s*&`s*`S''\<close>

definition TYPE_BEFORE :: string where
  \<open>TYPE_BEFORE = rx ''`b((?:const`s*)?(?:[`w<>]|::)+[`w<>])`s*$''\<close>

definition TYPE_ENDS :: string where
  \<open>TYPE_ENDS = rx ''`s*[a-zA-Z_]([`w<>]|::)+`s*&`s*`S''\<close>

definition SCOPE_BEFORE :: string where
  \<open>SCOPE_BEFORE = rx ''`b((?:const`s*)?(?:[`w<>]|::)+::)`s*$''\<close>

definition PARAMETERS_GO_ON :: string where
  \<open>PARAMETERS_GO_ON = rx ''[),]`s*$''\<close>

definition COLON_FIRST :: string where
  \<open>COLON_FIRST = rx ''^`s*:`s+`S''\<close>

definition BACKSLASH_SPACES_AT_END :: string where
  \<open>BACKSLASH_SPACES_AT_END = rx ''```s*$''\<close>

definition WHITELISTED_FUNCTIONS :: string where
  \<open>WHITELISTED_FUNCTIONS =
     rx (''(?:[sS]wap(?:<`w:+>)?|'' @ ''operator`s*[<>][<>]|'' @ ''static_assert|COMPILE_ASSERT'' @ '')`s*`('')\<close>

definition UNCLOSED_CALL :: string where
  \<open>UNCLOSED_CALL = rx ''`S+`([^)]*$''\<close>

definition FUNCTION_BODY :: string where
  \<open>FUNCTION_BODY = rx ''{[^}]*}''\<close>

text \<open>The pieces of a template from the line of its opening bracket on.\<close>

fun strip_lines :: "string list \<Rightarrow> int list \<Rightarrow> string py" where
  "strip_lines elided [] = Inr []"
| "strip_lines elided (i # is) =
     py_bind (py_nth elided i) (\<lambda>l. py_bind (strip_lines elided is) (\<lambda>rest. Inr (py_strip l @ rest)))"

definition join_template :: "cleansed_lines \<Rightarrow> int \<Rightarrow> string \<Rightarrow> string py" where
  "join_template clean_lines linenum line =
     (let endpos = py_rfind line ''>''
      in if endpos > -1 then
           py_bind (ReverseCloseExpression clean_lines linenum endpos) (\<lambda>(_, startline, startpos).
             if startpos > -1 \<and> startline < linenum
             then strip_lines (cl_elided clean_lines) (py_range startline (linenum + 1))
             else Inr line)
         else Inr line)"

text \<open>The line, with a type that is split over two lines or a template over several lines put together.\<close>

definition reference_line :: "cleansed_lines \<Rightarrow> int \<Rightarrow> string \<Rightarrow> string py" where
  "reference_line clean_lines linenum line =
     (if linenum > 1 then
        py_bind (py_nth (cl_elided clean_lines) (linenum - 1)) (\<lambda>line_above.
          let previous = (if Matches TYPE_CONTINUES line then Search TYPE_BEFORE line_above
                          else if Matches TYPE_ENDS line then Search SCOPE_BEFORE line_above
                          else None)
          in case previous of
               Some m \<Rightarrow> Inr (grp m 1 @ py_lstrip line)
             | None \<Rightarrow> join_template clean_lines linenum line)
      else Inr line)"

text \<open>Whether one of the lines before starts an initializer list that the current line goes on with.\<close>

fun initializer_above :: "string list \<Rightarrow> int list \<Rightarrow> bool py" where
  "initializer_above elided [] = Inr False"
| "initializer_above elided (i # is) =
     py_bind (py_nth elided i) (\<lambda>previous_line.
       if \<not> Finds PARAMETERS_GO_ON previous_line then Inr False
       else if Matches COLON_FIRST previous_line then Inr True
       else initializer_above elided is)"

definition whitelisted_above :: "cleansed_lines \<Rightarrow> int \<Rightarrow> bool py" where
  "whitelisted_above clean_lines linenum =
     py_bind (py_find_index (Finds WHITELISTED_FUNCTIONS) (cl_elided clean_lines)
                (map (\<lambda>i. linenum - i - 1) (filter (\<lambda>i. linenum > i) [0, 1])))
       (\<lambda>found. Inr (found \<noteq> None))"

definition report_references :: "'s error_fn \<Rightarrow> string \<Rightarrow> int \<Rightarrow> string \<Rightarrow> 's \<Rightarrow> 's py" where
  "report_references error filename linenum line s =
     py_fold
       (\<lambda>m. let parameter = grp m 1
            in py_when (\<not> Matches RE_PATTERN_CONST_REF_PARAM parameter \<and> \<not> Matches RE_PATTERN_REF_STREAM_PARAM parameter)
                 (error filename (Some linenum) ''runtime/references'' 2
                    (''Is this a non-const reference? '' @ ''If so, make const or use a pointer: '' @
                     ReplaceAll '' *<'' ''<'' parameter)))
       (finditer RE_PATTERN_REF_PARAM (ReplaceAll FUNCTION_BODY '' '' line)) s"

text \<open>The tests that end the check without a report, in the order of the code.\<close>

definition inside_function :: "nesting_state \<Rightarrow> bool" where
  "inside_function ns \<longleftrightarrow>
     (case previous_stack_top ns of None \<Rightarrow> False | Some b \<Rightarrow> \<not> (is_class b \<or> is_namespace b))"

definition references_exempt :: "cleansed_lines \<Rightarrow> int \<Rightarrow> string \<Rightarrow> bool py" where
  "references_exempt clean_lines linenum line =
     py_bind
       (if linenum > 0
        then initializer_above (cl_elided clean_lines) (py_range_down (linenum - 1) (max 0 (linenum - 10)))
        else Inr False) (\<lambda>above.
     if above then Inr True
     else if Finds BACKSLASH_SPACES_AT_END line then Inr True
     else
       py_bind (IsInitializerList clean_lines linenum) (\<lambda>initializer.
         if initializer then Inr True
         else if Finds WHITELISTED_FUNCTIONS line then Inr True
         else if \<not> Finds UNCLOSED_CALL line then whitelisted_above clean_lines linenum
         else Inr False))"

definition CheckForNonConstReference ::
  "'s error_fn \<Rightarrow> string \<Rightarrow> cleansed_lines \<Rightarrow> int \<Rightarrow> nesting_state \<Rightarrow> 's \<Rightarrow> 's py" where
  "CheckForNonConstReference error filename clean_lines linenum ns s =
     py_bind (py_nth (cl_elided clean_lines) linenum) (\<lambda>first.
       if \<not> py_in ''&'' first then Inr s
       else
         py_bind (IsDerivedFunction clean_lines linenum) (\<lambda>derived.
           if derived then Inr s
           else
             py_bind (IsOutOfLineMethodDefinition clean_lines linenum) (\<lambda>out_of_line.
               if out_of_line then Inr s
               else
                 py_bind (reference_line clean_lines linenum first) (\<lambda>line.
                   if inside_function ns then Inr s
                   else
                     py_bind (references_exempt clean_lines linenum line) (\<lambda>exempt.
                       if exempt then Inr s else report_references error filename linenum line s)))))"

section \<open>The language rules\<close>

definition CONDITIONAL_DIRECTIVE :: string where
  \<open>CONDITIONAL_DIRECTIVE = rx ''^`s*#`s*(if|ifdef|ifndef|elif|else|endif)`b''\<close>

definition SHORT_PORT :: string where
  \<open>SHORT_PORT = rx ''`bshort port`b''\<close>

definition UNSIGNED_SHORT_PORT :: string where
  \<open>UNSIGNED_SHORT_PORT = rx ''`bunsigned short port`b''\<close>

definition C_INTEGER :: string where
  \<open>C_INTEGER = rx ''`b(short|long(?! +double)|long long)`b''\<close>

definition UNARY_AMPERSAND :: string where
  \<open>UNARY_AMPERSAND = rx ''`boperator`s*&`s*`(`s*`)''\<close>

definition BRACE_IF :: string where
  \<open>BRACE_IF = rx ''`}`s*if`s*`(''\<close>

definition PRINTF_OPEN :: string where
  \<open>PRINTF_OPEN = rx ''(?i)`b(string)?printf`s*`(''\<close>

definition PRINTF_NAME :: string where
  \<open>PRINTF_NAME = rx ''(?i)`b((?:string)?printf)`s*`(''\<close>

definition SINGLE_ARGUMENT :: string where
  \<open>SINGLE_ARGUMENT = rx ''([`w.`->()]+)$''\<close>

definition MEMSET :: string where
  \<open>MEMSET = rx ''memset`s*`(([^,]*),`s*([^,]*),`s*0`s*`)''\<close>

definition MEMSET_CONSTANT :: string where
  \<open>MEMSET_CONSTANT = ''^'' @ [CHR 0x27, CHR 0x27] @ ''|-?[0-9]+|0x[0-9A-Fa-f]$''\<close>

definition USING_NAMESPACE :: string where
  \<open>USING_NAMESPACE = rx ''`busing namespace`b''\<close>

definition LITERALS :: string where
  \<open>LITERALS = rx ''`bliterals`b''\<close>

definition ARRAY_DECL :: string where
  \<open>ARRAY_DECL = rx ''`s*(.+::)?(`w+) [a-z]`w*`[(.+)];''\<close>

definition UNNAMED_NAMESPACE :: string where
  \<open>UNNAMED_NAMESPACE = rx ''`bnamespace`s*{''\<close>

text \<open>\<open>re.split\<close> for a pattern without groups that consumes text.\<close>

definition re_split :: "string \<Rightarrow> string \<Rightarrow> string list" where
  "re_split pattern s =
     (case re_compile pattern of
        None \<Rightarrow> [s]
      | Some r \<Rightarrow> (let (ms, rest) = scan r [] [] s in map fst ms @ [rest]))"

definition SIZE_DELIMITER :: string where
  \<open>SIZE_DELIMITER = rx ''`s|`+|`-|`*|`/|<<|>>]''\<close>

definition SIZEOF_CALL :: string where
  \<open>SIZEOF_CALL = rx ''sizeof`(.+`)''\<close>

definition ARRAYSIZE_CALL :: string where
  \<open>ARRAYSIZE_CALL = rx ''arraysize`(`w+`)''\<close>

definition CONSTANT_TOKENS :: "string list" where
  \<open>CONSTANT_TOKENS =
     [rx ''`d+'', rx ''0[xX][0-9a-fA-F]+'', rx ''k[A-Z0-9]`w*'', rx ''(.+::)?k[A-Z0-9]`w*'', rx ''(.+::)?[A-Z][A-Z0-9_]*'']\<close>

text \<open>Whether every token of an array size is constant; the flag says to skip the next token.\<close>

fun constant_size :: "bool \<Rightarrow> string list \<Rightarrow> bool" where
  "constant_size skip_next [] = True"
| "constant_size skip_next (token # rest) =
     (if skip_next then constant_size False rest
      else if Finds SIZEOF_CALL token \<or> Finds ARRAYSIZE_CALL token then constant_size False rest
      else
        (let tok = py_rstrip_chars (py_lstrip_chars token ''('') '')''
         in if tok = [] \<or> list_ex (\<lambda>p. Matches p tok) CONSTANT_TOKENS then constant_size False rest
            else if startswith tok ''sizeof'' then constant_size True rest
            else False))"

definition check_c_integers :: "'s error_fn \<Rightarrow> string \<Rightarrow> int \<Rightarrow> string \<Rightarrow> 's \<Rightarrow> 's py" where
  \<open>check_c_integers error filename linenum line s =
     (if Finds SHORT_PORT line then
        py_when (\<not> Finds UNSIGNED_SHORT_PORT line)
          (error filename (Some linenum) ''runtime/int'' 4 ''Use "unsigned short" for ports, not "short"'') s
      else
        (case Search C_INTEGER line of
           None \<Rightarrow> Inr s
         | Some m \<Rightarrow>
             error filename (Some linenum) ''runtime/int'' 4
               (''Use int16/int64/etc, rather than the C type '' @ grp m 1) s))\<close>

definition check_format_string :: "'s error_fn \<Rightarrow> string \<Rightarrow> int \<Rightarrow> string \<Rightarrow> 's \<Rightarrow> 's py" where
  \<open>check_format_string error filename linenum line s =
     py_bind (GetTextInside line PRINTF_OPEN) (\<lambda>printf_args.
       case printf_args of
         None \<Rightarrow> Inr s
       | Some args \<Rightarrow>
           if args = [] then Inr s
           else
             (case Match SINGLE_ARGUMENT args of
                None \<Rightarrow> Inr s
              | Some m \<Rightarrow>
                  if grp m 1 = ''__VA_ARGS__'' then Inr s
                  else
                    (case Search PRINTF_NAME line of
                       None \<Rightarrow> Inl AttributeError
                     | Some name \<Rightarrow>
                         error filename (Some linenum) ''runtime/printf'' 4
                           (''Potential format string bug. Do '' @ grp name 1 @ ''("%s", '' @ grp m 1 @ '') instead.'') s)))\<close>

definition check_memset :: "'s error_fn \<Rightarrow> string \<Rightarrow> int \<Rightarrow> string \<Rightarrow> 's \<Rightarrow> 's py" where
  \<open>check_memset error filename linenum line s =
     (case Search MEMSET line of
        None \<Rightarrow> Inr s
      | Some m \<Rightarrow>
          py_when (\<not> Matches MEMSET_CONSTANT (grp m 2))
            (error filename (Some linenum) ''runtime/memset'' 4
               (''Did you mean "memset('' @ grp m 1 @ '', 0, '' @ grp m 2 @ '')"?'')) s)\<close>

definition check_using_namespace :: "'s error_fn \<Rightarrow> string \<Rightarrow> int \<Rightarrow> string \<Rightarrow> 's \<Rightarrow> 's py" where
  "check_using_namespace error filename linenum line s =
     py_when (Finds USING_NAMESPACE line)
       (error filename (Some linenum)
          (if Finds LITERALS line then ''build/namespaces_literals'' else ''build/namespaces'') 5
          (''Do not use namespace using-directives.  '' @ ''Use using-declarations instead.'')) s"

definition check_array_size :: "'s error_fn \<Rightarrow> string \<Rightarrow> int \<Rightarrow> string \<Rightarrow> 's \<Rightarrow> 's py" where
  \<open>check_array_size error filename linenum line s =
     (case Match ARRAY_DECL line of
        None \<Rightarrow> Inr s
      | Some m \<Rightarrow>
          if grp m 2 = ''return'' \<or> grp m 2 = ''delete'' \<or> py_find (grp m 3) '']'' \<noteq> -1 then Inr s
          else
            py_when (\<not> constant_size False (re_split SIZE_DELIMITER (grp m 3)))
              (error filename (Some linenum) ''runtime/arrays'' 1
                 (''Do not use variable-length arrays.  Use an appropriately named '' @
                  ''('' @ [CHR 0x27] @ ''k'' @ [CHR 0x27] @ '' followed by CamelCase) compile-time constant for the size.'')) s)\<close>

definition UNNAMED_NAMESPACE_MESSAGE :: string where
  "UNNAMED_NAMESPACE_MESSAGE =
     ''Do not use unnamed namespaces in header files.  See '' @
     ''https://google-styleguide.googlecode.com/svn/trunk/cppguide.xml#Namespaces'' @ '' for more information.''"

definition check_unnamed_namespace :: "world \<Rightarrow> 's error_fn \<Rightarrow> string \<Rightarrow> int \<Rightarrow> string \<Rightarrow> string \<Rightarrow> 's \<Rightarrow> 's py" where
  "check_unnamed_namespace g error filename linenum file_extension line s =
     py_when (IsHeaderExtension g file_extension \<and> Finds UNNAMED_NAMESPACE line \<and> last line \<noteq> backslash_char)
       (error filename (Some linenum) ''build/namespaces'' 4 UNNAMED_NAMESPACE_MESSAGE) s"

definition check_language_rules ::
  "world \<Rightarrow> 's error_fn \<Rightarrow> string \<Rightarrow> cleansed_lines \<Rightarrow> int \<Rightarrow> string \<Rightarrow> string \<Rightarrow> 's \<Rightarrow> 's py" where
  \<open>check_language_rules g error filename clean_lines linenum file_extension line = py_seq
     [CheckCasts error filename clean_lines linenum,
      CheckGlobalStatic error filename clean_lines linenum,
      CheckPrintf error filename clean_lines linenum,
      check_c_integers error filename linenum line,
      py_when (Finds UNARY_AMPERSAND line)
        (error filename (Some linenum) ''runtime/operator'' 4 ''Unary operator& is dangerous.  Do not use it.''),
      py_when (Finds BRACE_IF line)
        (error filename (Some linenum) ''readability/braces'' 4
           ''Did you mean "else if"? If not, start a new line for "if".''),
      check_format_string error filename linenum line,
      check_memset error filename linenum line,
      check_using_namespace error filename linenum line,
      check_array_size error filename linenum line,
      check_unnamed_namespace g error filename linenum file_extension line]\<close>

definition CheckLanguage ::
  "os_env \<Rightarrow> world \<Rightarrow> 's error_fn \<Rightarrow> string \<Rightarrow> cleansed_lines \<Rightarrow> int \<Rightarrow> string \<Rightarrow> include_state \<Rightarrow> 's
    \<Rightarrow> (include_state \<times> 's) py" where
  "CheckLanguage env g error filename clean_lines linenum file_extension st s =
     py_bind (py_nth (cl_elided clean_lines) linenum) (\<lambda>line.
       if line = [] then Inr (st, s)
       else if Finds RE_PATTERN_INCLUDE line then CheckIncludeLine env g error filename clean_lines linenum st s
       else
         py_bind
           (case Match CONDITIONAL_DIRECTIVE line of
              None \<Rightarrow> Inr st
            | Some m \<Rightarrow> ResetSection (grp m 1) st) (\<lambda>st.
         py_bind (check_language_rules g error filename clean_lines linenum file_extension line s) (\<lambda>s.
           Inr (st, s))))"

section \<open>The checks return\<close>

definition opens_bracket :: "string \<Rightarrow> bool" where
  "opens_bracket p =
     (case re_compile p of None \<Rightarrow> False
      | Some r \<Rightarrow> 0 < min_len r \<and>
          (case last_class r of None \<Rightarrow> False
           | Some (q, cs) \<Rightarrow> q \<and> cs \<noteq> [] \<and> list_all (\<lambda>k. k = CChar (CHR ''('')) cs))"

lemma list_ex_paren: "list_all (\<lambda>k. k = CChar a) cs \<Longrightarrow> list_ex (in_cset c) cs \<Longrightarrow> c = a"
  by (induction cs) auto

lemma GetTextInside_returns: "opens_bracket p \<Longrightarrow> \<exists>r. GetTextInside t p = Inr r"
proof (cases "Search p t")
  case (Some m)
  assume "opens_bracket p"
  then obtain r cs where r: "re_compile p = Some r" "0 < min_len r" "last_class r = Some (True, cs)"
    "list_all (\<lambda>k. k = CChar (CHR ''('')) cs"
    by (auto simp: opens_bracket_def split: option.splits)
  from Search_last_class[OF Some r(1,3,2)] r(4) have "0 < m_end m" "m_end m \<le> int (length t)" "t ! nat (m_end m - 1) = CHR ''(''"
    by (auto simp: set_accepts_def dest: list_ex_paren)
  then show ?thesis using Some by (simp add: GetTextInside_def py_nth_in_range matching_punctuation_def)
qed (simp add: GetTextInside_def)

lemma PRINTF_OPEN_opens: "opens_bracket PRINTF_OPEN"
  by code_simp

text \<open>The two patterns for \<open>printf\<close> differ in their groups only.\<close>

lemma printf_name_found: "Finds PRINTF_OPEN line \<Longrightarrow> Finds PRINTF_NAME line"
proof -
  have "same_up_to_groups PRINTF_OPEN PRINTF_NAME" by code_simp
  from same_up_to_groups_Finds[OF this] show "Finds PRINTF_OPEN line \<Longrightarrow> Finds PRINTF_NAME line" by blast
qed

lemma ExpectingFunctionArgs_returns: "in_file c l \<Longrightarrow> \<exists>b. ExpectingFunctionArgs c l = Inr b"
  using in_file_nth(1)[OF in_file_before, of c l "l - 1"] in_file_nth(1)[OF in_file_before, of c l "l - 2"]
  by (auto simp: ExpectingFunctionArgs_def Let_def in_file_nth)

lemma expand_context_returns:
  "(\<And>i. i \<in> set is \<Longrightarrow> 0 \<le> i \<and> i < int (length ls)) \<Longrightarrow> \<exists>t. expand_context ls is context = Inr t"
  by (induction "is" arbitrary: "context") (simp_all add: py_nth_in_range)

lemma CAST_TEMPLATE_bracket: "Match CAST_TEMPLATE line = Some m \<Longrightarrow> length (grp m 1) < length line"
proof (rule group_then_more_shorter)
  show "group_then_more CAST_TEMPLATE" by code_simp
qed

lemma FUNCTION_OPEN_bracket: "Match FUNCTION_OPEN line = Some m \<Longrightarrow> length (grp m 1) < length line"
proof (rule group_then_more_shorter)
  show "group_then_more FUNCTION_OPEN" by code_simp
qed

text \<open>
  The closing bracket of the cast ends its line: the next character is read behind the end of the
  line.
\<close>

definition bracket_ends_line :: "cleansed_lines \<Rightarrow> int \<Rightarrow> int \<Rightarrow> bool" where
  "bracket_ends_line c l p \<longleftrightarrow>
     (case CloseExpression c l p of
        Inl e \<Rightarrow> False
      | Inr (t, y, x) \<Rightarrow> 0 \<le> x \<and> x = int (length (cl_elided c ! nat y)))"

lemma dereferenced_cases:
  assumes "in_file c l" and "0 \<le> p" and "p < int (length (cl_elided c ! nat l))"
  shows "if bracket_ends_line c l p then dereferenced c l p = Inl IndexError else \<exists>b. dereferenced c l p = Inr b"
proof -
  obtain t y x where ce: "CloseExpression c l p = Inr (t, y, x)" and
    b: "0 \<le> y" "x > -1 \<Longrightarrow> y < NumLines c \<and> t = cl_elided c ! nat y \<and> x \<le> int (length t)"
    using CloseExpression_at[OF assms] by (auto simp: returns_def)
  have y: "py_nth (cl_elided c) y = Inr (cl_elided c ! nat y)" "in_file c y" if "x > -1"
    using b that assms(1) in_file_nth(1)[of c y] by (auto simp: in_file_def)
  consider "x < 0" | "0 \<le> x" "x = int (length (cl_elided c ! nat y))" | "0 \<le> x" "x < int (length (cl_elided c ! nat y))"
    using b by fastforce
  then show ?thesis
  proof cases
    case 1
    then show ?thesis by (auto simp: dereferenced_def bracket_ends_line_def ce)
  next
    case 2
    then show ?thesis using y by (simp add: dereferenced_def bracket_ends_line_def ce py_nth_beyond)
  next
    case 3
    then have x: "py_nth (cl_elided c ! nat y) x = Inr (cl_elided c ! nat y ! nat x)" by (simp add: py_nth_in_range)
    obtain t2 y2 x2 where ce2: "CloseExpression c y x = Inr (t2, y2, x2)" and
      b2: "0 \<le> y2" "x2 > -1 \<Longrightarrow> y2 < NumLines c"
      using CloseExpression_at[of c y x] y 3 by (auto simp: returns_def)
    have "\<exists>n. (if y2 < NumLines c - 1 then py_nth (cl_elided c) (y2 + 1) else Inr []) = Inr n"
      using in_file_nth(1)[of c "y2 + 1"] b2 assms(1) by (auto simp: in_file_def)
    moreover have "x2 > -1 \<Longrightarrow> py_nth (cl_elided c) y2 = Inr (cl_elided c ! nat y2)"
      using in_file_nth(1)[of c y2] b2 assms(1) by (auto simp: in_file_def)
    ultimately show ?thesis using 3 y x ce2 by (auto simp: dereferenced_def bracket_ends_line_def Let_def ce)
  qed
qed

text \<open>When \<open>CheckCasts\<close> stops before it looks for the address of a cast.\<close>

definition array_cast :: "cleansed_lines \<Rightarrow> int \<Rightarrow> bool" where
  "array_cast c l \<longleftrightarrow>
     ExpectingFunctionArgs c l = Inr False \<and>
     (case Search FUNCTION_CAST (cl_elided c ! nat l) of
        None \<Rightarrow> False
      | Some m \<Rightarrow> Matches ARRAY_AFTER_PAREN (grp m 3))"

definition cast_crash :: "cleansed_lines \<Rightarrow> int \<Rightarrow> bool" where
  "cast_crash c l \<longleftrightarrow>
     \<not> array_cast c l \<and> Finds ADDRESS_OF_CAST (cl_elided c ! nat l) \<and>
     (case Match CAST_TEMPLATE (cl_elided c ! nat l) of
        None \<Rightarrow> False
      | Some m \<Rightarrow> bracket_ends_line c l (int (length (grp m 1))))"

context error_handler
begin

lemma check_address_cases:
  assumes "in_file c l" and "inv s" and "Finds ADDRESS_OF_CAST (cl_elided c ! nat l)" and "\<not> array_cast c l"
  shows "if cast_crash c l then check_address_of_cast error f c l (cl_elided c ! nat l) s = Inl IndexError
    else returns inv (check_address_of_cast error f c l (cl_elided c ! nat l) s)"
proof (cases "Match CAST_TEMPLATE (cl_elided c ! nat l)")
  case None
  then show ?thesis using assms by (simp add: check_address_of_cast_def cast_crash_def error_returns)
next
  case (Some m)
  show ?thesis
    using dereferenced_cases[OF assms(1), of "int (length (grp m 1))"] CAST_TEMPLATE_bracket[OF Some] assms(2-)
    unfolding check_address_of_cast_def cast_crash_def Some option.case
    by (auto split: if_splits intro: error_returns)
qed

lemma CheckCStyleCast_returns:
  assumes "in_file c l" and "inv s"
  shows "returns (\<lambda>(b, s). inv s) (CheckCStyleCast error f c l k p s)"
proof -
  let ?is = "if l > 0 then py_range_down (l - 1) (max 0 (l - 5)) else []"
  have "0 \<le> i \<and> i < int (length (cl_elided c))" if "i \<in> set ?is" for i
    using that assms(1) by (auto simp: set_py_range_down in_file_def views_ok_def NumLines_def split: if_splits)
  from expand_context_returns[OF this]
  have "\<exists>t. expand_context (cl_elided c) ?is ctx = Inr t" for ctx by blast
  then obtain t where t: "\<And>ctx. expand_context (cl_elided c) ?is ctx = Inr (t ctx)" by metis
  show ?thesis
    unfolding CheckCStyleCast_def Let_def in_file_nth(1)[OF assms(1)] py_bind.simps t
    by (intro returns_option returns_if returns_Inr error_bind assms(2)) (auto simp: assms(2))
qed

lemma check_function_cast_returns:
  assumes "inv s"
  shows "returns (\<lambda>(b, s). inv s \<and> b = (\<not> Matches ARRAY_AFTER_PAREN (grp m 3))) (check_function_cast error f l line m s)"
  unfolding check_function_cast_def Let_def
  by (intro returns_if returns_bind[OF error_when[OF assms]] returns_Inr) (simp_all add: assms)

lemma CheckCasts_cases:
  assumes "in_file c l" and "inv s"
  shows "if cast_crash c l then CheckCasts error f c l s = Inl IndexError
    else returns inv (CheckCasts error f c l s)"
proof -
  let ?line = "cl_elided c ! nat l"
  obtain e where e: "ExpectingFunctionArgs c l = Inr e" using ExpectingFunctionArgs_returns[OF assms(1)] by blast
  have first: "returns (\<lambda>(b, s). inv s \<and> b = (\<not> array_cast c l))
      (case Search FUNCTION_CAST ?line of
         Some m \<Rightarrow> if \<not> e then check_function_cast error f l ?line m s else Inr (True, s)
       | None \<Rightarrow> Inr (True, s))"
    using assms(2) check_function_cast_returns[OF assms(2)]
    by (cases e) (auto simp: array_cast_def e split: option.split)
  have cast: "returns (\<lambda>(b, s). inv s) (if x then CheckCStyleCast error f c l k p s else Inr (y, s))"
    "returns (\<lambda>(b, s). inv s) (if x then Inr (y, s) else CheckCStyleCast error f c l k p s)" if "inv s" for x k p y s
    using CheckCStyleCast_returns[OF assms(1) that] that by simp_all
  from first obtain s1 where s1: "inv s1" "(case Search FUNCTION_CAST ?line of
         Some m \<Rightarrow> if \<not> e then check_function_cast error f l ?line m s else Inr (True, s)
       | None \<Rightarrow> Inr (True, s)) = Inr (\<not> array_cast c l, s1)" by (auto simp: returns_def)
  obtain b2 s2 where s2: "inv s2" "(if \<not> e then CheckCStyleCast error f c l ''static_cast'' BASIC_TYPE_CAST s1 else Inr (False, s1)) = Inr (b2, s2)"
    using cast(1)[OF s1(1), of "\<not> e" "''static_cast''" BASIC_TYPE_CAST False] by (auto simp: returns_def)
  obtain b3 s3 where s3: "inv s3" "CheckCStyleCast error f c l ''const_cast'' STRING_CAST s2 = Inr (b3, s3)"
    using cast(1)[OF s2(1), of True "''const_cast''" STRING_CAST] by (auto simp: returns_def)
  obtain b4 s4 where s4: "inv s4" "(if b3 then Inr (True, s3) else CheckCStyleCast error f c l ''reinterpret_cast'' POINTER_CAST s3) = Inr (b4, s4)"
    using cast(2)[OF s3(1), of b3 True "''reinterpret_cast''" POINTER_CAST] by (auto simp: returns_def)
  have "CheckCasts error f c l s =
      (if array_cast c l then Inr s1
       else py_when (Finds ADDRESS_OF_CAST ?line) (check_address_of_cast error f c l ?line) s4)"
    unfolding CheckCasts_def in_file_nth(1)[OF assms(1)] py_bind.simps e s1(2) prod.case s2(2) s3(2) s4(2) by simp
  then show ?thesis
    using check_address_cases[OF assms(1) s4(1)] s1(1) s4(1) by (auto simp: cast_crash_def intro!: returns_when)
qed

end

lemma FUNCTION_OPEN_range:
  "in_file c l \<Longrightarrow> i \<in> set (py_range_down l (max (-1) (l - 10))) \<Longrightarrow> 0 \<le> i \<and> i < int (length (cl_elided c)) \<and> in_file c i"
  by (auto simp: set_py_range_down in_file_def views_ok_def NumLines_def)

lemma IsDerivedFunction_returns: "in_file c l \<Longrightarrow> returns (\<lambda>_. True) (IsDerivedFunction c l)"
proof -
  assume l: "in_file c l"
  let ?is = "py_range_down l (max (-1) (l - 10))"
  have body: "returns (\<lambda>_. True) (case Match FUNCTION_OPEN (cl_elided c ! nat i) of None \<Rightarrow> Inr False
      | Some m \<Rightarrow> py_bind (CloseExpression c i (int (length (grp m 1)))) (\<lambda>(line, _, p).
          Inr (p \<ge> 0 \<and> Finds OVERRIDE_WORD (py_from line p))))" if "in_file c i" for i
    using that FUNCTION_OPEN_bracket by (auto intro!: returns_option returns_bind[OF CloseExpression_at])
  show ?thesis
    unfolding IsDerivedFunction_def Let_def
  proof (rule returns_bind[OF py_find_index_returns])
    fix found assume "\<forall>i. found = Some i \<longrightarrow> i \<in> set ?is \<and> Matches FUNCTION_OPEN (cl_elided c ! nat i)"
    then have i: "in_file c i" if "found = Some i" for i using that FUNCTION_OPEN_range[OF l] by blast
    then show "returns (\<lambda>_. True) (case found of None \<Rightarrow> Inr False
        | Some i \<Rightarrow> py_bind (py_nth (cl_elided c) i) (\<lambda>start. case Match FUNCTION_OPEN start of None \<Rightarrow> Inr False
            | Some m \<Rightarrow> py_bind (CloseExpression c i (int (length (grp m 1)))) (\<lambda>(line, _, p).
                Inr (p \<ge> 0 \<and> Finds OVERRIDE_WORD (py_from line p)))))"
      by (cases found) (simp_all only: option.case returns_Inr_iff in_file_nth(1) py_bind.simps body)
  qed (use FUNCTION_OPEN_range[OF l] in blast)
qed

lemma IsOutOfLine_returns: "in_file c l \<Longrightarrow> returns (\<lambda>_. True) (IsOutOfLineMethodDefinition c l)"
proof -
  assume l: "in_file c l"
  let ?is = "py_range_down l (max (-1) (l - 10))"
  show ?thesis
    unfolding IsOutOfLineMethodDefinition_def Let_def
  proof (rule returns_bind[OF py_find_index_returns])
    fix found assume "\<forall>i. found = Some i \<longrightarrow> i \<in> set ?is \<and> Matches FUNCTION_OPEN (cl_elided c ! nat i)"
    then have i: "in_file c i" if "found = Some i" for i using that FUNCTION_OPEN_range[OF l] by blast
    then show "returns (\<lambda>_. True) (case found of None \<Rightarrow> Inr False
        | Some i \<Rightarrow> py_bind (py_nth (cl_elided c) i) (\<lambda>start. Inr (Matches OUT_OF_LINE_METHOD start)))"
      by (cases found) (simp_all only: option.case returns_Inr_iff in_file_nth(1) py_bind.simps)
  qed (use FUNCTION_OPEN_range[OF l] in blast)
qed

lemma initializer_scan_returns:
  "(\<And>i. i \<in> set is \<Longrightarrow> 0 \<le> i \<and> i < int (length ls)) \<Longrightarrow> \<exists>b. initializer_scan ls l is = Inr b"
  by (induction "is") (auto simp: py_nth_in_range Let_def)

lemma initializer_above_returns:
  "(\<And>i. i \<in> set is \<Longrightarrow> 0 \<le> i \<and> i < int (length ls)) \<Longrightarrow> \<exists>b. initializer_above ls is = Inr b"
  by (induction "is") (auto simp: py_nth_in_range)

lemma strip_lines_returns:
  "(\<And>i. i \<in> set is \<Longrightarrow> 0 \<le> i \<and> i < int (length ls)) \<Longrightarrow> \<exists>t. strip_lines ls is = Inr t"
proof (induction "is")
  case (Cons i "is")
  then obtain t where "strip_lines ls is = Inr t" by auto
  with Cons.prems show ?case by (simp add: py_nth_in_range)
qed simp

lemma IsInitializerList_returns: "in_file c l \<Longrightarrow> \<exists>b. IsInitializerList c l = Inr b"
  unfolding IsInitializerList_def
  by (rule initializer_scan_returns) (auto simp: set_py_range_down in_file_def views_ok_def NumLines_def)

lemma whitelisted_above_returns: "in_file c l \<Longrightarrow> returns (\<lambda>_. True) (whitelisted_above c l)"
  unfolding whitelisted_above_def
  by (intro returns_bind[OF py_find_index_returns]) (auto simp: in_file_def views_ok_def NumLines_def split: if_splits)

lemma reverse_close_loop_nonneg: "0 \<le> l \<Longrightarrow> reverse_close_loop c line l stk = Inr (line', l', e) \<Longrightarrow> 0 \<le> l'"
proof (induction c line l stk rule: reverse_close_loop.induct)
  case (1 c line l stk)
  show ?case
  proof (cases "stk \<noteq> None \<and> stk \<noteq> Some [] \<and> l > 0")
    case True
    with 1(3) obtain x a b where x: "py_nth (cl_elided c) (l - 1) = Inr x"
      "FindStartOfExpressionInLine x (int (length x) - 1) (the stk) = Inr (a, b)"
      "(if a > -1 then Inr (x, l - 1, a) else reverse_close_loop c x (l - 1) b) = Inr (line', l', e)"
      by (subst (asm) reverse_close_loop.simps) (auto simp: py_bind_eq_Inr)
    then show ?thesis using 1(1)[OF True, of a x b] True by (auto split: if_splits)
  next
    case False
    then show ?thesis using 1(3) by (subst (asm) reverse_close_loop.simps) auto
  qed
qed

lemma ReverseCloseExpression_nonneg:
  "0 \<le> l \<Longrightarrow> ReverseCloseExpression c l p = Inr (line', l', e) \<Longrightarrow> 0 \<le> l'"
  unfolding ReverseCloseExpression_def
  by (auto simp: py_bind_eq_Inr split: if_splits prod.splits dest: reverse_close_loop_nonneg)

lemma join_template_returns:
  assumes "in_file c l" shows "returns (\<lambda>_. True) (join_template c l (cl_elided c ! nat l))"
proof (cases "py_rfind (cl_elided c ! nat l) ''>'' > -1")
  case True
  let ?line = "cl_elided c ! nat l"
  have "py_rfind [] ''>'' = -1" by code_simp
  with True have "?line \<noteq> []" by auto
  then have p: "py_rfind ?line ''>'' < int (length ?line)" by (intro py_rfind_bounds) simp_all
  obtain x k q where r: "ReverseCloseExpression c l (py_rfind ?line ''>'') = Inr (x, k, q)"
    using ReverseCloseExpression_returns[OF in_file_nth(1)[OF assms] _ _ p] True assms
    by (metis in_file_def int_one_le_iff_zero_less linorder_not_less neg_less_iff_less not_less_iff_gr_or_eq prod.exhaust zless_imp_add1_zle add.left_inverse)
  have "0 \<le> k" using ReverseCloseExpression_nonneg[OF _ r] assms by (simp add: in_file_def)
  then have "0 \<le> i \<and> i < int (length (cl_elided c))" if "i \<in> set (py_range k (l + 1))" for i
    using that assms by (auto simp: set_py_range in_file_def views_ok_def NumLines_def)
  from strip_lines_returns[OF this] obtain t where "strip_lines (cl_elided c) (py_range k (l + 1)) = Inr t" by blast
  then show ?thesis using True by (simp add: join_template_def r)
qed (simp add: join_template_def)

lemma reference_line_returns:
  assumes "in_file c l" shows "returns (\<lambda>_. True) (reference_line c l (cl_elided c ! nat l))"
  using in_file_before_nth[OF assms] join_template_returns[OF assms]
  unfolding reference_line_def Let_def by (auto split: option.split)

lemma references_exempt_returns:
  assumes "in_file c l" shows "returns (\<lambda>_. True) (references_exempt c l line)"
proof -
  have "returns (\<lambda>_. True) (if l > 0 then initializer_above (cl_elided c) (py_range_down (l - 1) (max 0 (l - 10))) else Inr False)"
    using initializer_above_returns[of "py_range_down (l - 1) (max 0 (l - 10))" "cl_elided c"] assms
    by (auto simp: returns_def set_py_range_down in_file_def views_ok_def NumLines_def)
  then show ?thesis
    using IsInitializerList_returns[OF assms] whitelisted_above_returns[OF assms]
    unfolding references_exempt_def by (auto intro!: returns_bind returns_if)
qed

context error_handler
begin

lemma report_references_returns: "inv s \<Longrightarrow> returns inv (report_references error f l line s)"
  unfolding report_references_def Let_def by (rule error_for_each)

lemma CheckForNonConstReference_returns:
  assumes "in_file c l" and "inv s"
  shows "returns inv (CheckForNonConstReference error f c l ns s)"
  unfolding CheckForNonConstReference_def in_file_nth(1)[OF assms(1)] py_bind.simps
  by (intro returns_if returns_bind[OF IsDerivedFunction_returns[OF assms(1)]] returns_bind[OF IsOutOfLine_returns[OF assms(1)]]
      returns_bind[OF reference_line_returns[OF assms(1)]] returns_bind[OF references_exempt_returns[OF assms(1)]]
      returns_Inr report_references_returns assms(2))

end

context error_handler
begin

lemma CheckGlobalStatic_returns:
  assumes "in_file c l" and "inv s" shows "returns inv (CheckGlobalStatic error f c l s)"
proof -
  have "\<exists>t. declaration_lines c l line = Inr t" for line
    using in_file_nth(1)[of c "l + 1"] assms(1) by (auto simp: declaration_lines_def in_file_def)
  then obtain t where t: "declaration_lines c l (cl_elided c ! nat l) = Inr t" by blast
  have "returns inv (check_global_string error f l t s)" if "inv s" for s
    using that by (auto simp: check_global_string_def intro: error_returns split: option.split)
  then show ?thesis
    unfolding CheckGlobalStatic_def in_file_nth(1)[OF assms(1)] py_bind.simps t
    by (intro returns_seq) (auto intro: error_when assms(2))
qed

lemma CheckPrintf_returns:
  assumes "in_file c l" and "inv s" shows "returns inv (CheckPrintf error f c l s)"
  unfolding CheckPrintf_def in_file_nth(1)[OF assms(1)] py_bind.simps
  by (intro returns_seq) (auto intro: error_when error_returns assms(2) split: option.splits)

lemma check_format_string_returns:
  assumes "inv s" shows "returns inv (check_format_string error f l line s)"
proof -
  obtain r where r: "GetTextInside line PRINTF_OPEN = Inr r" using GetTextInside_returns[OF PRINTF_OPEN_opens] by blast
  have "Finds PRINTF_NAME line" if "r \<noteq> None"
  proof (rule printf_name_found)
    show "Finds PRINTF_OPEN line" using r that by (auto simp: GetTextInside_def split: option.splits)
  qed
  then obtain m where "r \<noteq> None \<Longrightarrow> Search PRINTF_NAME line = Some m" by (cases "Search PRINTF_NAME line") auto
  then show ?thesis
    unfolding check_format_string_def r py_bind.simps
    by (intro returns_option returns_if returns_Inr) (auto intro: error_returns assms)
qed

lemma check_language_rules_cases:
  assumes "in_file c l" and "inv s"
  shows "if cast_crash c l then check_language_rules g error f c l ext line s = Inl IndexError
    else returns inv (check_language_rules g error f c l ext line s)"
proof (cases "cast_crash c l")
  case True
  then show ?thesis using CheckCasts_cases[OF assms] by (simp add: check_language_rules_def)
next
  case False
  have "returns inv (check_c_integers error f l line s)" "returns inv (check_memset error f l line s)"
    "returns inv (check_using_namespace error f l line s)" "returns inv (check_array_size error f l line s)"
    "returns inv (check_unnamed_namespace g error f l ext line s)" if "inv s" for s
    using that by (auto simp: check_c_integers_def check_memset_def check_using_namespace_def check_array_size_def
        check_unnamed_namespace_def intro: error_returns error_when split: option.split)
  moreover have "returns inv (CheckCasts error f c l s)" if "inv s" for s
    using CheckCasts_cases[OF assms(1) that] False by simp
  ultimately show ?thesis
    unfolding check_language_rules_def if_not_P[OF False]
    by (intro returns_seq) (auto intro: error_when CheckGlobalStatic_returns[OF assms(1)] CheckPrintf_returns[OF assms(1)]
        check_format_string_returns assms(2))
qed

end

text \<open>The only exception of \<open>CheckLanguage\<close> comes from \<open>CheckCasts\<close>.\<close>

definition language_crash :: "cleansed_lines \<Rightarrow> int \<Rightarrow> bool" where
  "language_crash c l \<longleftrightarrow>
     cl_elided c ! nat l \<noteq> [] \<and> \<not> Finds RE_PATTERN_INCLUDE (cl_elided c ! nat l) \<and> cast_crash c l"

lemma ResetSection_returns: "state_ok st \<Longrightarrow> returns state_ok (ResetSection d st)"
  using ResetSection_ok[of st d] by (auto simp: state_ok_def elim: returns_weaken)

context error_handler
begin

lemma CheckLanguage_cases:
  assumes l: "in_file c l" and env: "names_return env g" and st: "state_ok st" and s: "inv s"
  shows "if language_crash c l then CheckLanguage env g error f c l ext st s = Inl IndexError
    else returns (\<lambda>(st, s). state_ok st \<and> inv s) (CheckLanguage env g error f c l ext st s)"
proof -
  let ?line = "cl_elided c ! nat l"
  let ?reset = "case Match CONDITIONAL_DIRECTIVE ?line of None \<Rightarrow> Inr st | Some m \<Rightarrow> ResetSection (grp m 1) st"
  have "returns state_ok ?reset"
    using st ResetSection_returns[OF st] by (auto split: option.split)
  then obtain st' where st': "?reset = Inr st'" "state_ok st'" by (auto simp: returns_def)
  note rules = check_language_rules_cases[OF l s, of g f ext ?line]
  consider "?line = []" | "?line \<noteq> []" "Finds RE_PATTERN_INCLUDE ?line" | "?line \<noteq> []" "\<not> Finds RE_PATTERN_INCLUDE ?line"
    by blast
  then show ?thesis
  proof cases
    case 1
    then show ?thesis using st s by (simp add: CheckLanguage_def language_crash_def in_file_nth(1)[OF l])
  next
    case 2
    have "CheckLanguage env g error f c l ext st s = CheckIncludeLine env g error f c l st s"
      unfolding CheckLanguage_def in_file_nth(1)[OF l] py_bind.simps using 2 by argo
    moreover have "returns (\<lambda>(st, s). state_ok st \<and> inv s) (CheckIncludeLine env g error f c l st s)"
      using l by (intro CheckIncludeLine_returns env st s) (auto simp: in_file_def views_ok_def NumLines_def)
    moreover have "\<not> language_crash c l" using 2 by (simp add: language_crash_def)
    ultimately show ?thesis by simp
  next
    case 3
    have eq: "CheckLanguage env g error f c l ext st s =
        py_bind (check_language_rules g error f c l ext ?line s) (\<lambda>s. Inr (st', s))"
      unfolding CheckLanguage_def in_file_nth(1)[OF l] py_bind.simps
      using 3 st'(1) by (simp only: if_False py_bind.simps not_False_eq_True)
    have crash: "language_crash c l \<longleftrightarrow> cast_crash c l" using 3 by (simp add: language_crash_def)
    show ?thesis
    proof (cases "cast_crash c l")
      case True
      with rules show ?thesis unfolding eq crash by simp
    next
      case False
      with rules have "returns inv (check_language_rules g error f c l ext ?line s)" by simp
      then have "returns (\<lambda>(st, s). state_ok st \<and> inv s) (py_bind (check_language_rules g error f c l ext ?line s) (\<lambda>s. Inr (st', s)))"
        by (rule returns_bind) (simp add: st'(2))
      with False show ?thesis unfolding eq crash by simp
    qed
  qed
qed

end

section \<open>Properties\<close>

text \<open>C14: \<open>CheckCasts\<close> raises exactly on the lines where the closing bracket of a cast whose address
  is taken ends its line: the next character of that line is read without a test, and the linter stops
  with an IndexError. On every other line of a file the check returns and only adds reports.\<close>

theorem CheckCasts_raises_iff:
  assumes "in_file c l"
  shows "if cast_crash c l then CheckCasts record_error f c l log = Inl IndexError
    else \<exists>reports. CheckCasts record_error f c l log = Inr (log @ reports)"
  using recording.CheckCasts_cases[OF assms, of log log f] by (auto simp: returns_def split: if_splits)

definition ex_cast_file :: cleansed_lines where
  "ex_cast_file =
     (let ls = [''f(&static_cast<int*>'', ''(y));'', ''f(&static_cast<int*>(y));'']
      in \<lparr>cl_elided = ls, cl_lines = ls, cl_raw_lines = ls, cl_num_lines = 3, cl_lines_without_raw_strings = ls\<rparr>)"

lemma CheckCasts_raises_iff_witness:
  "CheckCasts record_error ''a.cc'' ex_cast_file 0 [] = Inl IndexError \<and>
   (\<exists>reports. CheckCasts record_error ''a.cc'' ex_cast_file 2 [] = Inr ([] @ reports))"
proof
  have "in_file ex_cast_file 0" "in_file ex_cast_file 2"
    by (simp_all add: in_file_def views_ok_def NumLines_def ex_cast_file_def Let_def)
  moreover have "cast_crash ex_cast_file 0" by code_simp
  moreover have "\<not> cast_crash ex_cast_file 2" by code_simp
  ultimately show "CheckCasts record_error ''a.cc'' ex_cast_file 0 [] = Inl IndexError"
    "\<exists>reports. CheckCasts record_error ''a.cc'' ex_cast_file 2 [] = Inr ([] @ reports)"
    using CheckCasts_raises_iff[of ex_cast_file 0 "''a.cc''" "[]"] CheckCasts_raises_iff[of ex_cast_file 2 "''a.cc''" "[]"]
    by simp_all
qed

text \<open>The delimiters that the code's pattern really has.\<close>

definition REAL_SIZE_DELIMITER :: string where
  \<open>REAL_SIZE_DELIMITER = rx ''`s|`+|`-|`*|`/|<<''\<close>

lemma scan_cong:
  assumes "\<And>l s. c \<notin> set s \<Longrightarrow> match_at r l s = match_at r' l s"
  shows "c \<notin> set s \<Longrightarrow> scan r l skipped s = scan r' l skipped s"
proof (induction "length s" arbitrary: l skipped s rule: less_induct)
  case less
  have step: "scan r l skipped s' = scan r' l skipped s'" if "length s' < length s" "set s' \<subseteq> set s" for l skipped s'
    using less.hyps[OF that(1)] less.prems that(2) by blast
  show ?case
  proof (cases "match_at r l s")
    case None
    with assms[OF less.prems, of l] have N: "match_at r' l s = None" by simp
    show ?thesis
      by (subst (1 2) scan.simps) (simp add: None N step subset_insertI split: list.split)
  next
    case (Some m)
    with assms[OF less.prems, of l] have S: "match_at r' l s = Some m" by simp
    have "set (m_post m) \<subseteq> set s" using match_at_split(2)[OF Some] by auto
    then show ?thesis
      by (subst (1 2) scan.simps) (simp add: Some S step subset_insertI Let_def split: list.split)
  qed
qed

text \<open>C38: the pattern that splits the size of an array ends in \<open>>>]\<close> instead of \<open>>>\<close>, and the text of
  the size never holds a closing bracket, so a right shift does not separate tokens: the text is split
  exactly as by the pattern without that alternative, and only the first operand of a right shift is tested.\<close>

theorem right_shift_is_no_delimiter:
  assumes "CHR '']'' \<notin> set size_text"
  shows "re_split SIZE_DELIMITER size_text = re_split REAL_SIZE_DELIMITER size_text"
proof -
  obtain r where r: "re_compile REAL_SIZE_DELIMITER = Some r"
    "re_compile SIZE_DELIMITER = Some (RAlt r (RSeq (RLit (CHR ''>'')) (RSeq (RLit (CHR ''>'')) (RLit (CHR '']'')))))"
  proof -
    have "(case re_compile REAL_SIZE_DELIMITER of None \<Rightarrow> False
      | Some r \<Rightarrow> re_compile SIZE_DELIMITER = Some (RAlt r (RSeq (RLit (CHR ''>'')) (RSeq (RLit (CHR ''>'')) (RLit (CHR '']''))))))"
      by code_simp
    then show thesis by (auto intro: that split: option.splits)
  qed
  let ?last = "RSeq (RLit (CHR ''>'')) (RSeq (RLit (CHR ''>'')) (RLit (CHR '']'')))"
  have none: "runs ?last (MS l s []) = []" if "CHR '']'' \<notin> set s" for l s
    using that by (cases s; cases "tl s"; cases "tl (tl s)") (auto simp: set_accepts_def)
  have "match_at (RAlt r ?last) l s = match_at r l s" if "CHR '']'' \<notin> set s" for l s
    by (simp only: match_at_def rmatch_runs runs.simps(5) none[OF that] append_Nil2)
  then have "scan (RAlt r ?last) [] [] size_text = scan r [] [] size_text"
    using scan_cong[of "CHR '']''" "RAlt r ?last" r size_text "[]" "[]"] assms by blast
  then show ?thesis by (simp only: re_split_def r option.case)
qed

lemma right_shift_is_no_delimiter_witness:
  "re_split SIZE_DELIMITER ''3>>n'' = re_split REAL_SIZE_DELIMITER ''3>>n'' \<and>
   check_array_size record_error ''a.cc'' 1 ''  int a[3>>n];'' [] = Inr [] \<and>
   check_array_size record_error ''a.cc'' 1 ''  int a[3<<n];'' [] \<noteq> Inr []"
proof (intro conjI)
  show "re_split SIZE_DELIMITER ''3>>n'' = re_split REAL_SIZE_DELIMITER ''3>>n''"
    by (rule right_shift_is_no_delimiter) simp
  show "check_array_size record_error ''a.cc'' 1 ''  int a[3>>n];'' [] = Inr []" by code_simp
  show "check_array_size record_error ''a.cc'' 1 ''  int a[3<<n];'' [] \<noteq> Inr []" by code_simp
qed

end
