(* ===== verification/Include_Use.thy ===== *)
theory Include_Use
  imports Includes Line_Checks
begin

text \<open>
  ``Include what you use'': the tables of the standard templates, \<open>FilesBelongToSameModule\<close>,
  \<open>UpdateIncludeState\<close> and \<open>CheckForIncludeWhatYouUse\<close>.  Reading a file is the parameter
  \<open>io\<close>: the lines of a file, or \<open>None\<close> where opening it raises \<open>IOError\<close>.  A Python
  dict is an association list in the order of insertion.
\<close>

section \<open>The templates of the standard headers\<close>

definition HEADERS_CONTAINING_TEMPLATES :: "(string \<times> string list) list" where
  "HEADERS_CONTAINING_TEMPLATES =
     [(''<deque>'', [''deque'']),
      (''<functional>'', [''unary_function'', ''binary_function'',
         ''plus'', ''minus'', ''multiplies'', ''divides'', ''modulus'',
         ''negate'',
         ''equal_to'', ''not_equal_to'', ''greater'', ''less'',
         ''greater_equal'', ''less_equal'',
         ''logical_and'', ''logical_or'', ''logical_not'',
         ''unary_negate'', ''not1'', ''binary_negate'', ''not2'',
         ''bind1st'', ''bind2nd'',
         ''pointer_to_unary_function'',
         ''pointer_to_binary_function'',
         ''ptr_fun'',
         ''mem_fun_t'', ''mem_fun'', ''mem_fun1_t'', ''mem_fun1_ref_t'',
         ''mem_fun_ref_t'',
         ''const_mem_fun_t'', ''const_mem_fun1_t'',
         ''const_mem_fun_ref_t'', ''const_mem_fun1_ref_t'',
         ''mem_fun_ref'']),
      (''<limits>'', [''numeric_limits'']),
      (''<list>'', [''list'']),
      (''<map>'', [''multimap'']),
      (''<memory>'', [''allocator'', ''make_shared'', ''make_unique'', ''shared_ptr'',
         ''unique_ptr'', ''weak_ptr'']),
      (''<queue>'', [''queue'', ''priority_queue'']),
      (''<set>'', [''multiset'']),
      (''<stack>'', [''stack'']),
      (''<string>'', [''char_traits'', ''basic_string'']),
      (''<tuple>'', [''tuple'']),
      (''<unordered_map>'', [''unordered_map'', ''unordered_multimap'']),
      (''<unordered_set>'', [''unordered_set'', ''unordered_multiset'']),
      (''<utility>'', [''pair'']),
      (''<vector>'', [''vector'']),
      (''<hash_map>'', [''hash_map'', ''hash_multimap'']),
      (''<hash_set>'', [''hash_set'', ''hash_multiset'']),
      (''<slist>'', [''slist''])]"

definition HEADERS_MAYBE_TEMPLATES :: "(string \<times> string list) list" where
  "HEADERS_MAYBE_TEMPLATES =
     [(''<algorithm>'', [''copy'', ''max'', ''min'', ''min_element'', ''sort'', ''transform'']),
      (''<utility>'', [''forward'', ''make_pair'', ''move'', ''swap''])]"

definition RE_PATTERN_STRING :: string where
  \<open>RE_PATTERN_STRING = rx ''`bstring`b''\<close>

text \<open>Pattern, template and header.\<close>

definition re_pattern_headers_maybe_templates :: "(string \<times> string \<times> string) list" where
  \<open>re_pattern_headers_maybe_templates =
     [(rx ''[^>.]`b'' @ template @ rx ''(<.*?>)?`([^`)]'', template, header).
        (header, templates) \<leftarrow> HEADERS_MAYBE_TEMPLATES, template \<leftarrow> templates] @
     [(rx ''[^>.]`bset`s*`<'', ''set<>'', ''<set>''),
      (rx ''(std`b::`bmap`s*`<)|(^(std`b::`b)map`b`(`s*`<)'', ''map<>'', ''<map>'')]\<close>

definition re_pattern_templates :: "(string \<times> string \<times> string) list" where
  \<open>re_pattern_templates =
     [(rx ''(`<|`b)'' @ template @ rx ''`s*`<'', template @ ''<>'', header).
        (header, templates) \<leftarrow> HEADERS_CONTAINING_TEMPLATES, template \<leftarrow> templates]\<close>

section \<open>Modules\<close>

definition same_module_names :: "string \<Rightarrow> string \<Rightarrow> bool \<times> string" where
  "same_module_names cc h =
     (if endswith cc h then (True, py_upto cc (- int (length h))) else (False, []))"

definition without_directories :: "string \<Rightarrow> string" where
  "without_directories name = py_replace (py_replace name ''/public/'' ''/'') ''/internal/'' ''/''"

definition FilesBelongToSameModule :: "os_env \<Rightarrow> world \<Rightarrow> string \<Rightarrow> string \<Rightarrow> (bool \<times> string) py" where
  "FilesBelongToSameModule env g filename_cc filename_h =
     py_bind (Extension env g filename_cc) (\<lambda>ext_cc.
       if py_lstrip_chars ext_cc ''.'' \<notin> set (GetNonHeaderExtensions g) then Inr (False, [])
       else
         py_bind (Extension env g filename_h) (\<lambda>ext_h.
           if \<not> IsHeaderExtension g (py_lstrip_chars ext_h ''.'') then Inr (False, [])
           else
             py_bind (BaseName env g filename_cc) (\<lambda>base.
               let cc = py_upto filename_cc (- int (length ext_cc));
                   cc1 = (case Search TEST_FILE_SUFFIX base of
                            None \<Rightarrow> cc
                          | Some m \<Rightarrow> py_upto cc (- int (length (grp m 1))));
                   h = py_upto filename_h (- int (length ext_h));
                   h1 = (if endswith h ''-inl'' then py_upto h (- int (length ''-inl'')) else h)
               in Inr (same_module_names (without_directories cc1) (without_directories h1)))))"

section \<open>Includes of a header\<close>

definition setdefault :: "'k \<Rightarrow> 'v \<Rightarrow> ('k \<times> 'v) list \<Rightarrow> ('k \<times> 'v) list" where
  "setdefault k v d = (if map_of d k = None then d @ [(k, v)] else d)"

definition include_on_line :: "string \<Rightarrow> int \<Rightarrow> (string \<times> int) list \<Rightarrow> (string \<times> int) list" where
  "include_on_line line linenum include_dict =
     (case Search RE_PATTERN_INCLUDE (CleanseComments line) of
        None \<Rightarrow> include_dict
      | Some m \<Rightarrow> setdefault (grp m 2) linenum include_dict)"

definition UpdateIncludeState ::
  "(string \<Rightarrow> string list option) \<Rightarrow> string \<Rightarrow> (string \<times> int) list \<Rightarrow> bool \<times> (string \<times> int) list" where
  "UpdateIncludeState io filename include_dict =
     (case io filename of
        None \<Rightarrow> (False, include_dict)
      | Some ls \<Rightarrow> (True, fold (\<lambda>(i, line). include_on_line line (i + 1)) (py_enumerate ls) include_dict))"

section \<open>What a file needs\<close>

type_synonym requirements = "(string \<times> int \<times> string) list"

definition not_other_namespace :: "string \<Rightarrow> bool" where
  "not_other_namespace prefix \<longleftrightarrow> endswith prefix ''std::'' \<or> \<not> endswith prefix ''::''"

definition require_string :: "int \<Rightarrow> string \<Rightarrow> requirements \<Rightarrow> requirements" where
  "require_string linenum line req =
     (case Search RE_PATTERN_STRING line of
        None \<Rightarrow> req
      | Some m \<Rightarrow>
          if not_other_namespace (py_upto line (m_start m))
          then AList.update ''<string>'' (linenum, ''string'') req else req)"

definition require_maybe :: "int \<Rightarrow> string \<Rightarrow> requirements \<Rightarrow> requirements" where
  "require_maybe linenum line req =
     fold (\<lambda>(pattern, template, header) req.
             if Finds pattern line then AList.update header (linenum, template) req else req)
       re_pattern_headers_maybe_templates req"

definition require_templates :: "int \<Rightarrow> string \<Rightarrow> requirements \<Rightarrow> requirements" where
  "require_templates linenum line req =
     fold (\<lambda>(pattern, template, header) req.
             case Search pattern line of
               None \<Rightarrow> req
             | Some m \<Rightarrow>
                 if not_other_namespace (py_upto line (m_start m))
                 then AList.update header (linenum, template) req else req)
       re_pattern_templates req"

definition require_line :: "int \<Rightarrow> string \<Rightarrow> requirements \<Rightarrow> requirements" where
  "require_line linenum line req =
     (if line = [] \<or> hd line = CHR ''#'' then req
      else
        (let req1 = require_maybe linenum line (require_string linenum line req)
         in if \<not> py_in ''<'' line then req1 else require_templates linenum line req1))"

definition required_headers :: "cleansed_lines \<Rightarrow> requirements py" where
  "required_headers clean_lines =
     py_fold (\<lambda>i req. py_bind (py_nth (cl_elided clean_lines) i) (\<lambda>line. Inr (require_line i line req)))
       (py_range 0 (NumLines clean_lines)) []"

text \<open>The requirements in the order of line and template; sorting is stable.\<close>

definition by_line :: "requirements \<Rightarrow> requirements" where
  "by_line req = sort_key (\<lambda>r. fst (snd r)) (sort_key (\<lambda>r. snd (snd r)) req)"

definition include_dict_of :: "include_state \<Rightarrow> (string \<times> int) list" where
  "include_dict_of st = fold (\<lambda>(h, l). AList.update h l) (concat (include_list st)) []"

definition FLYMAKE_CC :: string where
  \<open>FLYMAKE_CC = rx ''_flymake`.cc$''\<close>

text \<open>The headers of the module are read; the Boolean says whether one was found.\<close>

fun read_own_headers ::
  "os_env \<Rightarrow> world \<Rightarrow> (string \<Rightarrow> string list option) \<Rightarrow> string \<Rightarrow> string list \<Rightarrow> bool \<times> (string \<times> int) list
    \<Rightarrow> (bool \<times> (string \<times> int) list) py" where
  "read_own_headers env g io abs_filename [] r = Inr r"
| "read_own_headers env g io abs_filename (header # headers) (header_found, include_dict) =
     py_bind (FilesBelongToSameModule env g abs_filename header) (\<lambda>(same_module, common_path).
       if same_module then
         (let (added, include_dict') = UpdateIncludeState io (common_path @ header) include_dict
          in read_own_headers env g io abs_filename headers (header_found \<or> added, include_dict'))
       else read_own_headers env g io abs_filename headers (header_found, include_dict))"

definition report_missing :: "'s error_fn \<Rightarrow> string \<Rightarrow> (string \<times> int) list \<Rightarrow> requirements \<Rightarrow> 's \<Rightarrow> 's py" where
  \<open>report_missing error filename include_dict req =
     py_fold (\<lambda>(header, linenum, template).
         py_when (map_of include_dict (py_strip_chars header ''<>"'') = None)
           (error filename (Some linenum) ''build/include_what_you_use'' 4
              (''Add #include '' @ header @ '' for '' @ template)))
       (by_line req)\<close>

definition CheckForIncludeWhatYouUse ::
  "os_env \<Rightarrow> world \<Rightarrow> (string \<Rightarrow> string list option) \<Rightarrow> 's error_fn \<Rightarrow> string \<Rightarrow> cleansed_lines \<Rightarrow> include_state
    \<Rightarrow> 's \<Rightarrow> 's py" where
  "CheckForIncludeWhatYouUse env g io error filename clean_lines st s =
     py_bind (required_headers clean_lines) (\<lambda>req.
       let include_dict = include_dict_of st;
           abs_filename = ReplaceAll FLYMAKE_CC ''.cc'' (FullName env filename)
       in py_bind (read_own_headers env g io abs_filename (map fst include_dict) (False, include_dict))
            (\<lambda>(header_found, include_dict').
               if \<not> header_found \<and> list_ex (\<lambda>extension. endswith filename (''.'' @ extension)) (GetNonHeaderExtensions g)
               then Inr s
               else report_missing error filename include_dict' req s))"

section \<open>Lemmas\<close>

lemma set_AList_update: "x \<in> set (AList.update k v al) \<Longrightarrow> x = (k, v) \<or> x \<in> set al"
  by (induction al) (auto split: if_splits)

text \<open>What holds of the requirements: one entry per header, at a line of the file.\<close>

definition requirements_ok :: "int \<Rightarrow> requirements \<Rightarrow> bool" where
  "requirements_ok n req \<longleftrightarrow> distinct (map fst req) \<and> (\<forall>(h, l, t) \<in> set req. 0 \<le> l \<and> l < n)"

lemma requirements_ok_update:
  "requirements_ok n req \<Longrightarrow> 0 \<le> l \<Longrightarrow> l < n \<Longrightarrow> requirements_ok n (AList.update h (l, t) req)"
  by (auto simp: requirements_ok_def distinct_update dest!: set_AList_update)

lemma fold_requirements_ok:
  "(\<And>x req. x \<in> set xs \<Longrightarrow> requirements_ok n req \<Longrightarrow> requirements_ok n (f x req)) \<Longrightarrow>
   requirements_ok n req \<Longrightarrow> requirements_ok n (fold f xs req)"
  by (induction xs arbitrary: req) simp_all

lemma require_line_ok:
  assumes "requirements_ok n req" and "0 \<le> i" and "i < n"
  shows "requirements_ok n (require_line i line req)"
proof -
  have s: "requirements_ok n (require_string i line req)" if "requirements_ok n req" for req
    using that assms(2,3) by (auto simp: require_string_def requirements_ok_update split: option.split)
  have m: "requirements_ok n (require_maybe i line req)" if "requirements_ok n req" for req
    unfolding require_maybe_def using that assms(2,3)
    by (intro fold_requirements_ok) (auto simp: requirements_ok_update split: prod.split)
  have t: "requirements_ok n (require_templates i line req)" if "requirements_ok n req" for req
    unfolding require_templates_def using that assms(2,3)
    by (intro fold_requirements_ok) (auto simp: requirements_ok_update split: prod.split option.split)
  show ?thesis using assms(1) by (simp add: require_line_def Let_def s m t)
qed

lemma required_headers_returns:
  assumes "views_ok c" shows "returns (requirements_ok (NumLines c)) (required_headers c)"
  unfolding required_headers_def
proof (rule returns_fold)
  fix i req assume i: "i \<in> set (py_range 0 (NumLines c))" and req: "requirements_ok (NumLines c) req"
  then have "in_file c i" using assms by (simp add: set_py_range in_file_def)
  with i req show "returns (requirements_ok (NumLines c)) (py_bind (py_nth (cl_elided c) i) (\<lambda>line. Inr (require_line i line req)))"
    by (simp add: in_file_nth(1) require_line_ok set_py_range)
qed (simp add: requirements_ok_def)

lemma FilesBelongToSameModule_returns:
  "names_return env g \<Longrightarrow> returns (\<lambda>_. True) (FilesBelongToSameModule env g cc h)"
  unfolding FilesBelongToSameModule_def
  by (auto simp: Let_def intro!: returns_bind[OF names_return_split(2)] returns_bind[OF names_return_split(1)])

text \<open>Reading a header only adds includes.\<close>

lemma include_on_line_keys: "fst ` set d \<subseteq> fst ` set (include_on_line line i d)"
  by (auto simp: include_on_line_def setdefault_def split: option.split)

lemma UpdateIncludeState_keys: "fst ` set d \<subseteq> fst ` set (snd (UpdateIncludeState io name d))"
proof -
  have "fst ` set d \<subseteq> fst ` set (fold (\<lambda>(i, line). include_on_line line (i + 1)) xs d)" for xs
  proof (induction xs arbitrary: d)
    case (Cons x xs)
    obtain i line where x: "x = (i, line)" by (cases x)
    show ?case using include_on_line_keys[of d line "i + 1"] Cons[of "include_on_line line (i + 1) d"] by (simp add: x)
  qed simp
  then show ?thesis by (simp add: UpdateIncludeState_def split: option.split)
qed

lemma read_own_headers_returns:
  "names_return env g \<Longrightarrow> returns (\<lambda>(found', d'). fst ` set d \<subseteq> fst ` set d') (read_own_headers env g io f hs (found, d))"
proof (induction hs arbitrary: found d)
  case (Cons h hs)
  obtain same path where m: "FilesBelongToSameModule env g f h = Inr (same, path)"
    using FilesBelongToSameModule_returns[OF Cons.prems, of f h] by (auto simp: returns_def)
  obtain added d1 where u: "UpdateIncludeState io (path @ h) d = (added, d1)" by (metis prod.exhaust)
  have "fst ` set d \<subseteq> fst ` set d1" using UpdateIncludeState_keys[of d io "path @ h"] u by simp
  with Cons.IH[OF Cons.prems, of d1 "found \<or> added"] have
    "returns (\<lambda>(found', d'). fst ` set d \<subseteq> fst ` set d') (read_own_headers env g io f hs (found \<or> added, d1))"
    by (auto elim!: returns_weaken)
  with Cons.IH[OF Cons.prems, of d found] show ?case by (simp add: m u)
qed simp

lemma include_dict_keys: "fst ` set (include_dict_of st) = fst ` set (concat (include_list st))"
proof -
  have "fst ` set (fold (\<lambda>(h, l). AList.update h l) xs d) = fst ` set xs \<union> fst ` set d" for xs and d :: "(string \<times> int) list"
  proof (induction xs arbitrary: d)
    case (Cons x xs)
    obtain h l where "x = (h, l)" by (cases x)
    with Cons[of "AList.update h l d"] show ?case by (auto simp: dom_update image_iff)
  qed simp
  then show ?thesis by (simp add: include_dict_of_def)
qed

lemma set_by_line [simp]: "set (by_line req) = set req"
  by (simp add: by_line_def)

lemma by_line_ok: "requirements_ok n req \<Longrightarrow> distinct (map fst (by_line req)) \<and> sorted (map (\<lambda>r. fst (snd r)) (by_line req))"
  by (simp add: by_line_def requirements_ok_def distinct_map)

context error_handler
begin

lemma report_missing_returns: "inv s \<Longrightarrow> returns inv (report_missing error f d req s)"
  unfolding report_missing_def case_prod_beta by (rule error_for_each)

lemma CheckForIncludeWhatYouUse_returns:
  assumes "views_ok c" and "names_return env g" and "inv s"
  shows "returns inv (CheckForIncludeWhatYouUse env g io error f c st s)"
  unfolding CheckForIncludeWhatYouUse_def Let_def
  by (auto intro!: returns_bind[OF required_headers_returns[OF assms(1)]]
      returns_bind[OF read_own_headers_returns[OF assms(2)]] report_missing_returns assms(3))

end

text \<open>The reports, as a list.\<close>

definition missing_report :: "string \<Rightarrow> string \<times> int \<times> string \<Rightarrow> report" where
  "missing_report f r =
     (case r of (header, linenum, template) \<Rightarrow>
        (f, Some linenum, ''build/include_what_you_use'', 4, ''Add #include '' @ header @ '' for '' @ template))"

definition is_missing :: "(string \<times> int) list \<Rightarrow> string \<times> int \<times> string \<Rightarrow> bool" where
  \<open>is_missing d r = (map_of d (py_strip_chars (fst r) ''<>"'') = None)\<close>

lemma report_missing_list:
  "report_missing record_error f d req log = Inr (log @ map (missing_report f) (filter (is_missing d) (by_line req)))"
proof -
  have "py_fold (\<lambda>(header, linenum, template). py_when (map_of d (py_strip_chars header (''<>'' @ [CHR 0x22])) = None)
           (record_error f (Some linenum) ''build/include_what_you_use'' 4 (''Add #include '' @ header @ '' for '' @ template))) rs log =
     Inr (log @ map (missing_report f) (filter (is_missing d) rs))" for rs
  proof (induction rs arbitrary: log)
    case (Cons r rs)
    then show ?case
      by (cases r) (auto simp: is_missing_def missing_report_def record_error_def py_when_def)
  qed simp
  then show ?thesis by (simp add: report_missing_def)
qed

section \<open>The property\<close>


definition ex_use_file :: cleansed_lines where
  "ex_use_file =
     (let ls = [[], ''std::list<T> x;'']
      in \<lparr>cl_elided = ls, cl_lines = ls, cl_raw_lines = ls, cl_num_lines = 2, cl_lines_without_raw_strings = ls\<rparr>)"

definition ex_no_files :: os_env where
  "ex_no_files = \<lparr>os_exists = (\<lambda>_. False), os_cwd = ''/''\<rparr>"

lemma names_return_no_files: "names_return ex_no_files g"
  by (simp add: names_return_def ex_no_files_def RepositoryName_def Let_def)

abbreviation ex_use_state :: include_state where
  "ex_use_state \<equiv> \<lparr>include_list = [[(''map'', 1)]], inc_section = INITIAL_SECTION, last_header = []\<rparr>"


end
