(* ===== verification/File_Processing.thy ===== *)
theory File_Processing
  imports Language Include_Use
begin

text \<open>
  The composition of the checks: \<open>ProcessLine\<close> runs the checks of one line, \<open>ProcessFileData\<close> those
  of a file.  The settings that the checks read (line length, extensions, root, verbosity) are passed as
  the world \<open>g\<close> at the start of the file; \<open>ProcessFileData_returns\<close> shows that they do not change
  while the file is processed.
\<close>

section \<open>The definitions\<close>

text \<open>The three objects that are carried from line to line.\<close>

record file_state =
  include_part :: include_state
  function_part :: function_state
  nesting_part :: nesting_state

type_synonym extra_check = "string \<Rightarrow> cleansed_lines \<Rightarrow> int \<Rightarrow> world error_fn \<Rightarrow> world \<Rightarrow> world py"

definition ProcessLine ::
  "os_env \<Rightarrow> world \<Rightarrow> world error_fn \<Rightarrow> string \<Rightarrow> string \<Rightarrow> cleansed_lines \<Rightarrow> extra_check list \<Rightarrow> int
    \<Rightarrow> file_state \<times> world \<Rightarrow> (file_state \<times> world) py" where
  "ProcessLine env g error filename file_extension clean_lines extra_check_functions line = (\<lambda>(parts, w).
     py_bind (py_nth (cl_raw_lines clean_lines) line) (\<lambda>raw_line.
     py_bind (ParseNolintSuppressions error filename raw_line line w) (\<lambda>w.
     py_bind (Update error filename clean_lines line (nesting_part parts) w) (\<lambda>(ns, w).
     py_bind (CheckForNamespaceIndentation error filename ns clean_lines line w) (\<lambda>w.
       if InAsmBlock ns then Inr (parts\<lparr>nesting_part := ns\<rparr>, w)
       else
         py_bind (CheckForFunctionLengths (VerboseLevel_global g) error filename clean_lines line (function_part parts) w)
           (\<lambda>(fs, w).
         py_bind (CheckForMultilineCommentsAndStrings error filename clean_lines line w) (\<lambda>w.
         py_bind (CheckStyle env g error filename clean_lines line file_extension ns w) (\<lambda>w.
         py_bind (CheckLanguage env g error filename clean_lines line file_extension (include_part parts) w) (\<lambda>(st, w).
         py_bind
           (py_seq
              ([CheckForNonConstReference error filename clean_lines line ns,
                CheckForNonStandardConstructs error filename clean_lines line ns,
                CheckVlogArguments error filename clean_lines line,
                CheckPosixThreading error filename clean_lines line,
                CheckInvalidIncrement error filename clean_lines line,
                CheckMakePairUsesDeduction error filename clean_lines line,
                CheckRedundantVirtual error filename clean_lines line,
                CheckRedundantOverrideOrFinal error filename clean_lines line] @
               map (\<lambda>check_fn. check_fn filename clean_lines line error) extra_check_functions) w) (\<lambda>w.
           Inr (\<lparr>include_part = st, function_part = fs, nesting_part = ns\<rparr>, w)))))))))))"

definition process_lines ::
  "os_env \<Rightarrow> world \<Rightarrow> world error_fn \<Rightarrow> string \<Rightarrow> string \<Rightarrow> cleansed_lines \<Rightarrow> extra_check list
    \<Rightarrow> file_state \<times> world \<Rightarrow> (file_state \<times> world) py" where
  "process_lines env g error filename file_extension clean_lines extra_check_functions =
     py_fold
       (\<lambda>line s.
          py_bind (ProcessLine env g error filename file_extension clean_lines extra_check_functions line s) (\<lambda>(parts, w).
          py_bind (FlagCxx11Features error filename clean_lines line w) (\<lambda>w. Inr (parts, w))))
       (py_range 0 (NumLines clean_lines))"

definition START_MARKER :: string where
  "START_MARKER = ''// marker so line numbers and indices both start at 1''"

definition END_MARKER :: string where
  "END_MARKER = ''// marker so line numbers end in a known way''"

definition ProcessFileData ::
  "os_env \<Rightarrow> (string \<Rightarrow> string list option) \<Rightarrow> world error_fn \<Rightarrow> string \<Rightarrow> string \<Rightarrow> string list \<Rightarrow> extra_check list
    \<Rightarrow> world \<Rightarrow> world py" where
  "ProcessFileData env io error filename file_extension file_lines extra_check_functions g =
     (let lines = START_MARKER # file_lines @ [END_MARKER]
      in py_bind IncludeState_init (\<lambda>include_state.
         py_bind (CheckForCopyright error filename lines (ResetNolintSuppressions g)) (\<lambda>w.
         py_bind (RemoveMultiLineComments error filename lines (ProcessGlobalSuppresions lines w)) (\<lambda>(lines, w).
         py_bind (CleansedLines lines) (\<lambda>clean_lines.
         py_bind
           (if IsHeaderExtension g file_extension then CheckForHeaderGuard env g error filename clean_lines w
            else Inr w) (\<lambda>w.
         py_bind
           (process_lines env g error filename file_extension clean_lines extra_check_functions
              (\<lparr>include_part = include_state, function_part = FunctionState_init, nesting_part = NestingState_init\<rparr>, w))
           (\<lambda>(parts, w). py_seq
              [CheckCompletedBlocks error filename (nesting_part parts),
               CheckForIncludeWhatYouUse env g io error filename clean_lines (include_part parts),
               (if IsSourceExtension g file_extension
                then CheckHeaderFileIncluded env g error filename (include_part parts) else Inr),
               CheckForBadCharacters error filename lines,
               CheckForNewlineAtEOF error filename lines] w)))))))"

section \<open>The lines that the checks see\<close>

text \<open>What is left of the lines does not depend on how the error is handled.\<close>

lemma remove_comments_from_lines:
  "remove_comments_from error f ls i s = Inr (ls1, s1) \<Longrightarrow>
   remove_comments_from record_error g ls i log = Inr (ls2, log2) \<Longrightarrow> ls1 = ls2"
proof (induction error f ls i s arbitrary: log rule: remove_comments_from.induct)
  case (1 error f ls i s)
  let ?b = "FindNextMultiLineCommentStart ls i"
  let ?e = "FindNextMultiLineCommentEnd ls ?b"
  show ?case
  proof (cases "i < length ls \<and> \<not> ?b \<ge> length ls \<and> \<not> ?e \<ge> length ls")
    case True
    then have 4: "i < length ls" "\<not> ?b \<ge> length ls" "\<not> ?e \<ge> length ls" by blast+
    note IH = 1(1)[OF 4(1) refl 4(2) refl 4(3)]
    from 1(2) 4 have "remove_comments_from error f (RemoveMultiLineCommentsFromRange ls ?b (?e + 1)) (?e + 1) s = Inr (ls1, s1)"
      by (subst (asm) remove_comments_from.simps) (simp only: Let_def if_True if_False)
    moreover from 1(3) 4 have "remove_comments_from record_error g (RemoveMultiLineCommentsFromRange ls ?b (?e + 1)) (?e + 1) log = Inr (ls2, log2)"
      by (subst (asm) remove_comments_from.simps) (simp only: Let_def if_True if_False)
    ultimately show ?thesis by (rule IH)
  next
    case False
    have "ls' = ls" if "remove_comments_from h k ls i t = Inr (ls', t')" for h :: "'c error_fn" and k t ls' t'
    proof (cases "i < length ls")
      case True
      then show ?thesis using that False
        by (subst (asm) remove_comments_from.simps)
          (cases "?b \<ge> length ls", auto simp: Let_def not_le py_bind_eq_Inr split: if_splits)
    next
      case False
      then show ?thesis using that by (subst (asm) remove_comments_from.simps) simp
    qed
    note unchanged = this
    show ?thesis using unchanged[OF 1(2)] unchanged[OF 1(3)] by simp
  qed
qed

definition comment_free :: "string list \<Rightarrow> string list" where
  "comment_free ls = (case RemoveMultiLineComments record_error [] ls [] of Inl e \<Rightarrow> ls | Inr (ls', log) \<Rightarrow> ls')"

definition clean_file :: "string list \<Rightarrow> cleansed_lines" where
  "clean_file file_lines =
     (case CleansedLines (comment_free (START_MARKER # file_lines @ [END_MARKER])) of
        Inl e \<Rightarrow> \<lparr>cl_elided = [], cl_lines = [], cl_raw_lines = [], cl_num_lines = 0, cl_lines_without_raw_strings = []\<rparr>
      | Inr c \<Rightarrow> c)"

text \<open>The lines on which a check reads behind the end of a list or a string.\<close>

definition line_crash :: "cleansed_lines \<Rightarrow> int \<Rightarrow> bool" where
  "line_crash c l \<longleftrightarrow> language_crash c l \<or> (\<exists>ns. constructor_crash ns (cl_elided c ! nat l))"

lemma clean_file_ok: "views_ok (clean_file ls)"
  "CleansedLines (comment_free (START_MARKER # ls @ [END_MARKER])) = Inr (clean_file ls)"
  using CleansedLines_ok[of "comment_free (START_MARKER # ls @ [END_MARKER])"]
  by (auto simp: clean_file_def)

context error_handler
begin

lemma RemoveMultiLineComments_returns:
  assumes "inv s"
  shows "returns (\<lambda>(ls', s'). ls' = comment_free ls \<and> inv s') (RemoveMultiLineComments error f ls s)"
proof -
  have "returns (\<lambda>(ls', s'). inv s') (RemoveMultiLineComments error f ls s)"
    using remove_comments_from_spec[of ls error f "[]" s] assms
    by (cases "ends_inside False ls") (auto simp: RemoveMultiLineComments_def intro!: error_bind)
  then obtain ls' s' where r: "RemoveMultiLineComments error f ls s = Inr (ls', s')" "inv s'"
    by (auto simp: returns_def)
  obtain ls2 log2 where "RemoveMultiLineComments record_error [] ls [] = Inr (ls2, log2)"
    using remove_comments_from_spec[of ls record_error "[]" "[]" "[]"]
    by (cases "ends_inside False ls") (auto simp: RemoveMultiLineComments_def record_error_def)
  with r show ?thesis
    using remove_comments_from_lines[of error f ls 0 s ls' s' "[]" "[]" ls2 log2]
    by (simp add: comment_free_def RemoveMultiLineComments_def)
qed

end

section \<open>The composition returns\<close>

definition file_state_ok :: "cleansed_lines \<Rightarrow> file_state \<Rightarrow> bool" where
  "file_state_ok c parts \<longleftrightarrow> state_ok (include_part parts) \<and> nest_ok (NumLines c) (nesting_part parts)"

context world_handler
begin

lemma ProcessLine_returns:
  assumes l: "in_file c l" and env: "names_return env g" and ok: "file_state_ok c parts" and w: "inv w"
    and no_crash: "\<not> line_crash c l"
    and extra: "\<And>check_fn w. check_fn \<in> set extra \<Longrightarrow> inv w \<Longrightarrow> returns inv (check_fn f c l error w)"
  shows "returns (\<lambda>(parts, w). file_state_ok c parts \<and> inv w) (ProcessLine env g error f ext c extra l (parts, w))"
proof -
  have range: "views_ok c" "0 \<le> l" "l < NumLines c" "l < int (length (cl_lines c))"
    using l by (auto simp: in_file_def views_ok_def NumLines_def)
  have ns: "nest_ok (NumLines c) (nesting_part parts)" and st: "state_ok (include_part parts)"
    using ok by (simp_all add: file_state_ok_def)
  have lang: "returns (\<lambda>(st, w). state_ok st \<and> inv w) (CheckLanguage env g error f c l ext (include_part parts) w)" if "inv w" for w
    using CheckLanguage_cases[OF l env st that, of f ext] no_crash by (simp add: line_crash_def)
  have constr: "returns inv (CheckForNonStandardConstructs error f c l n w)" if "inv w" for n w
    using no_crash by (intro CheckForNonStandardConstructs_returns[OF l that]) (auto simp: line_crash_def)
  have rest: "returns inv (py_seq
      ([CheckForNonConstReference error f c l n, CheckForNonStandardConstructs error f c l n, CheckVlogArguments error f c l,
        CheckPosixThreading error f c l, CheckInvalidIncrement error f c l, CheckMakePairUsesDeduction error f c l,
        CheckRedundantVirtual error f c l, CheckRedundantOverrideOrFinal error f c l] @
       map (\<lambda>check_fn. check_fn f c l error) extra) w)" if "inv w" for n w
    using that
    by (intro returns_seq) (auto intro: constr extra CheckForNonConstReference_returns[OF l] CheckVlogArguments_returns[OF l]
        CheckPosixThreading_returns[OF l] CheckInvalidIncrement_returns[OF l] CheckMakePair_returns[OF l]
        CheckRedundantVirtual_returns[OF l] CheckRedundantOverrideOrFinal_returns[OF l])
  show ?thesis
    unfolding ProcessLine_def prod.case in_file_nth(3)[OF l] py_bind.simps
  proof (rule returns_bind[OF ParseNolint_returns[OF w]], rule returns_bind[OF Update_returns[OF range(1-3) ns]], assumption,
      clarify, rule returns_bind[OF CheckForNamespaceIndentation_returns[OF l]], assumption)
    fix n w1
    assume n: "nest_ok (NumLines c) n" and w1: "inv w1"
    show "returns (\<lambda>(parts, w). file_state_ok c parts \<and> inv w)
      (if InAsmBlock n then Inr (parts\<lparr>nesting_part := n\<rparr>, w1)
       else py_bind (CheckForFunctionLengths (VerboseLevel_global g) error f c l (function_part parts) w1) (\<lambda>(fs, w).
         py_bind (CheckForMultilineCommentsAndStrings error f c l w) (\<lambda>w.
         py_bind (CheckStyle env g error f c l ext n w) (\<lambda>w.
         py_bind (CheckLanguage env g error f c l ext (include_part parts) w) (\<lambda>(st, w).
         py_bind (py_seq
      ([CheckForNonConstReference error f c l n, CheckForNonStandardConstructs error f c l n, CheckVlogArguments error f c l,
        CheckPosixThreading error f c l, CheckInvalidIncrement error f c l, CheckMakePairUsesDeduction error f c l,
        CheckRedundantVirtual error f c l, CheckRedundantOverrideOrFinal error f c l] @
       map (\<lambda>check_fn. check_fn f c l error) extra) w) (\<lambda>w.
           Inr (\<lparr>include_part = st, function_part = fs, nesting_part = n\<rparr>, w)))))))"
    proof (rule returns_if)
      show "returns (\<lambda>(parts, w). file_state_ok c parts \<and> inv w) (Inr (parts\<lparr>nesting_part := n\<rparr>, w1))"
        using n st w1 by (simp add: file_state_ok_def)
    qed (rule returns_bind[OF CheckForFunctionLengths_returns[OF w1 range(2,4)]], clarify,
         rule returns_bind[OF CheckForMultiline_returns[OF l]], assumption,
         rule returns_bind[OF CheckStyle_returns[OF l env n]], assumption,
         rule returns_bind[OF lang], assumption, clarify, rule returns_bind[OF rest], assumption,
         simp add: file_state_ok_def n)
  qed
qed

end

section \<open>A file does not change the settings\<close>

text \<open>Everything of the world except for the reports and the suppressions of the file.\<close>

definition settings :: "world \<Rightarrow> world" where
  "settings w =
     w\<lparr>cpplint_state := (cpplint_state w)\<lparr>error_count := 0, errors_by_category := [], junit_errors := [], junit_failures := []\<rparr>,
       error_suppressions := Map.empty, global_error_suppressions := Map.empty, stdout := [], stderr := []\<rparr>"

lemma settings_frame [simp]:
  "settings (PrintError m w) = settings w"
  "settings (PrintInfo m w) = settings w"
  "settings (suppress k l w) = settings w"
  "settings (suppress_globally ks w) = settings w"
  "settings (ResetNolintSuppressions w) = settings w"
  "settings (on_state (IncrementErrorCount c) w) = settings w"
  "settings (on_state (AddJUnitFailure f ln m c n) w) = settings w"
  "settings (w\<lparr>stderr := t\<rparr>) = settings w"
  "settings (w\<lparr>stdout := t\<rparr>) = settings w"
  by (simp_all add: settings_def PrintError_def PrintInfo_def suppress_def suppress_globally_def ResetNolintSuppressions_def
      on_state_def IncrementErrorCount_def AddJUnitFailure_def Let_def)

lemma suppressions_state [simp]:
  "cpplint_state (suppress k l w) = cpplint_state w"
  "cpplint_state (suppress_globally ks w) = cpplint_state w"
  "cpplint_state (ResetNolintSuppressions w) = cpplint_state w"
  by (simp_all add: suppress_def suppress_globally_def ResetNolintSuppressions_def)

lemma global_suppressions_frame [simp]:
  "settings (ProcessGlobalSuppresions ls w) = settings w"
  "cpplint_state (ProcessGlobalSuppresions ls w) = cpplint_state w"
proof -
  have "settings (ProcessGlobalSuppresions ls w) = settings w \<and> cpplint_state (ProcessGlobalSuppresions ls w) = cpplint_state w"
    by (induction ls arbitrary: w) (simp_all add: ProcessGlobalSuppresions_def Let_def)
  then show "settings (ProcessGlobalSuppresions ls w) = settings w"
    "cpplint_state (ProcessGlobalSuppresions ls w) = cpplint_state w" by blast+
qed

text \<open>In JUnit's format every counted error is also collected, and in the others none.\<close>

definition failures_counted :: "world \<Rightarrow> world \<Rightarrow> bool" where
  "failures_counted w w' \<longleftrightarrow>
     int (length (junit_failures (cpplint_state w'))) = int (length (junit_failures (cpplint_state w))) +
       (if output_format (cpplint_state w) = ''junit''
        then error_count (cpplint_state w') - error_count (cpplint_state w) else 0)"

lemma failures_counted_trans:
  "failures_counted w w' \<Longrightarrow> failures_counted w' w'' \<Longrightarrow> output_format (cpplint_state w') = output_format (cpplint_state w) \<Longrightarrow>
   failures_counted w w''"
  by (auto simp: failures_counted_def)

lemma junit_failures_frame [simp]:
  "junit_failures (IncrementErrorCount c st) = junit_failures st"
  "junit_failures (cpplint_state (PrintError m w)) = junit_failures (cpplint_state w)"
  "error_count (AddJUnitFailure f ln m c n st) = error_count st"
  by (simp_all add: IncrementErrorCount_def PrintError_def AddJUnitFailure_def Let_def)

lemma Error_settings:
  assumes "Error filename linenum category confidence message w = Inr w'"
  shows "settings w' = settings w" "error_count (cpplint_state w) \<le> error_count (cpplint_state w')" "failures_counted w w'"
proof -
  show "settings w' = settings w" "error_count (cpplint_state w) \<le> error_count (cpplint_state w')"
    using assms by (auto simp: Error_def py_bind_eq_Inr Let_def split: if_splits)
  show "failures_counted w w'"
    using assms by (auto simp: Error_def py_bind_eq_Inr Let_def failures_counted_def on_state_def AddJUnitFailure_def split: if_splits)
qed

lemma settings_output_format: "settings w = settings w' \<Longrightarrow> output_format (cpplint_state w) = output_format (cpplint_state w')"
proof -
  have "output_format (cpplint_state (settings w)) = output_format (cpplint_state w)" for w by (simp add: settings_def)
  then show "settings w = settings w' \<Longrightarrow> ?thesis" by metis
qed

text \<open>What every state of the linter satisfies while the file is processed that was begun in \<open>w\<close>.\<close>

definition within_file :: "world \<Rightarrow> world \<Rightarrow> bool" where
  "within_file w w' \<longleftrightarrow> filters_ok (cpplint_state w') \<and> settings w' = settings w \<and>
     error_count (cpplint_state w) \<le> error_count (cpplint_state w') \<and> failures_counted w w'"

lemma within_file_refl: "filters_ok (cpplint_state w) \<Longrightarrow> within_file w w"
  by (simp add: within_file_def failures_counted_def)

interpretation processing: world_handler Error "within_file w" for w
proof
  fix w' filename linenum category confidence message
  assume w': "within_file w w'"
  then have "returns (\<lambda>w. filters_ok (cpplint_state w)) (Error filename linenum category confidence message w')"
    by (intro printing.error_returns) (simp add: within_file_def)
  then obtain w'' where "Error filename linenum category confidence message w' = Inr w''" "filters_ok (cpplint_state w'')"
    by (auto simp: returns_def)
  then show "returns (within_file w) (Error filename linenum category confidence message w')"
    using w' Error_settings[of filename linenum category confidence message w' w''] failures_counted_trans[of w w' w'']
      settings_output_format[of w' w] by (auto simp: within_file_def)
next
  fix w' k l
  assume "within_file w w'"
  then show "within_file w (suppress k l w')" by (simp add: within_file_def failures_counted_def)
qed

context world_handler
begin

lemma process_lines_returns:
  assumes c: "views_ok c" and env: "names_return env g" and ok: "file_state_ok c parts" and w: "inv w"
    and no_crash: "\<And>l. 0 \<le> l \<Longrightarrow> l < NumLines c \<Longrightarrow> \<not> line_crash c l"
    and extra: "\<And>check_fn l w. check_fn \<in> set extra \<Longrightarrow> inv w \<Longrightarrow> returns inv (check_fn f c l error w)"
  shows "returns (\<lambda>(parts, w). file_state_ok c parts \<and> inv w) (process_lines env g error f ext c extra (parts, w))"
  unfolding process_lines_def
proof (rule returns_fold)
  fix l s
  assume "l \<in> set (py_range 0 (NumLines c))" and s: "(\<lambda>(parts, w). file_state_ok c parts \<and> inv w) s"
  then have l: "in_file c l" and range: "0 \<le> l" "l < NumLines c"
    using c by (auto simp: in_file_def set_py_range)
  obtain parts w where [simp]: "s = (parts, w)" by (cases s)
  from s have s': "file_state_ok c parts" "inv w" by simp_all
  have line: "returns (\<lambda>(parts, w). file_state_ok c parts \<and> inv w) (ProcessLine env g error f ext c extra l (parts, w))"
    by (rule ProcessLine_returns[OF l env s'(1,2) no_crash[OF range]]) (rule extra)
  show "returns (\<lambda>(parts, w). file_state_ok c parts \<and> inv w)
      (py_bind (ProcessLine env g error f ext c extra l s) (\<lambda>(parts, w).
       py_bind (FlagCxx11Features error f c l w) (\<lambda>w. Inr (parts, w))))"
    unfolding \<open>s = (parts, w)\<close>
    by (rule returns_bind[OF line], clarify, rule returns_bind[OF FlagCxx11Features_returns[OF l]], assumption) simp
qed (simp add: ok w)

end

text \<open>A handler whose state may also have the suppressions of a whole file set and reset.\<close>

locale file_handler = world_handler error inv for error :: "world error_fn" and inv +
  assumes reset_keeps: "inv w \<Longrightarrow> inv (ResetNolintSuppressions w)"
    and globals_keep: "inv w \<Longrightarrow> inv (ProcessGlobalSuppresions ls w)"
begin

lemma ProcessFileData_total:
  assumes env: "names_return env w" and w: "inv w"
    and no_crash: "\<And>l. 0 \<le> l \<Longrightarrow> l < NumLines (clean_file ls) \<Longrightarrow> \<not> line_crash (clean_file ls) l"
    and extra: "\<And>check_fn l w. check_fn \<in> set extra \<Longrightarrow> inv w \<Longrightarrow> returns inv (check_fn f (clean_file ls) l error w)"
  shows "returns inv (ProcessFileData env io error f ext ls extra w)"
proof -
  let ?c = "clean_file ls" and ?lines = "START_MARKER # ls @ [END_MARKER]"
  let ?parts = "\<lparr>include_part = \<lparr>include_list = [[]], inc_section = INITIAL_SECTION, last_header = []\<rparr>,
    function_part = FunctionState_init, nesting_part = NestingState_init\<rparr>"
  have init: "IncludeState_init = Inr \<lparr>include_list = [[]], inc_section = INITIAL_SECTION, last_header = []\<rparr>" by (simp add: IncludeState_init_def ResetSection_def)
  have parts: "file_state_ok ?c ?parts"
    by (simp add: file_state_ok_def nest_ok_init state_ok_def includes_ok_def lines_ok_def)
  note c = clean_file_ok[of ls]
  have last: "returns inv (py_seq
      [CheckCompletedBlocks error f ns, CheckForIncludeWhatYouUse env w io error f ?c st,
       (if IsSourceExtension w ext then CheckHeaderFileIncluded env w error f st else Inr),
       CheckForBadCharacters error f lines, CheckForNewlineAtEOF error f lines] w2)" if "inv w2" for ns st lines w2
    using that
    by (intro returns_seq) (auto intro: CheckCompletedBlocks_returns CheckForIncludeWhatYouUse_returns[OF c(1) env]
        CheckHeaderFileIncluded_returns[OF env] CheckForBadCharacters_returns CheckForNewlineAtEOF_returns)
  have header: "returns inv (if IsHeaderExtension w ext then CheckForHeaderGuard env w error f ?c w2 else Inr w2)"
    if "inv w2" for w2
    using that by (intro returns_if) (auto intro: CheckForHeaderGuard_returns[OF env])
  show ?thesis
    unfolding ProcessFileData_def Let_def init py_bind.simps
  proof (rule returns_bind[OF CheckForCopyright_returns[OF reset_keeps[OF w]]],
      rule returns_bind[OF RemoveMultiLineComments_returns[OF globals_keep]], assumption, clarify)
    fix w2
    assume w2: "inv w2"
    show "returns inv (py_bind (CleansedLines (comment_free ?lines)) (\<lambda>clean_lines.
         py_bind (if IsHeaderExtension w ext then CheckForHeaderGuard env w error f clean_lines w2 else Inr w2) (\<lambda>w'.
         py_bind (process_lines env w error f ext clean_lines extra (?parts, w'))
           (\<lambda>(parts, w''). py_seq
              [CheckCompletedBlocks error f (nesting_part parts),
               CheckForIncludeWhatYouUse env w io error f clean_lines (include_part parts),
               (if IsSourceExtension w ext then CheckHeaderFileIncluded env w error f (include_part parts) else Inr),
               CheckForBadCharacters error f (comment_free ?lines),
               CheckForNewlineAtEOF error f (comment_free ?lines)] w''))))"
      unfolding c(2) py_bind.simps
    proof (rule returns_bind[OF header[OF w2]])
      fix w3
      assume w3: "inv w3"
      show "returns inv (py_bind (process_lines env w error f ext ?c extra (?parts, w3))
           (\<lambda>(parts, w''). py_seq
              [CheckCompletedBlocks error f (nesting_part parts),
               CheckForIncludeWhatYouUse env w io error f ?c (include_part parts),
               (if IsSourceExtension w ext then CheckHeaderFileIncluded env w error f (include_part parts) else Inr),
               CheckForBadCharacters error f (comment_free ?lines),
               CheckForNewlineAtEOF error f (comment_free ?lines)] w''))"
        by (rule returns_bind[OF process_lines_returns[OF c(1) env parts w3]])
          (erule (1) no_crash, erule (1) extra, clarify, erule last)
    qed
  qed
qed

end

interpretation file_processing: file_handler Error "within_file w" for w
  by unfold_locales (simp_all add: within_file_def failures_counted_def)

section \<open>Lines on which no check crashes\<close>

text \<open>The text of a group consists of characters of the subject.\<close>

lemma runs_chars:
  "s' \<in> set (runs r s) \<Longrightarrow> set (lft s') \<union> set (rgt s') = set (lft s) \<union> set (rgt s)"
  by (drule runs_grow) auto

lemma runs_group_chars:
  "s' \<in> set (runs r s) \<Longrightarrow> (n, b, t) \<in> set (caps s') \<Longrightarrow> (n, b, t) \<notin> set (caps s) \<Longrightarrow>
   set t \<subseteq> set (lft s) \<union> set (rgt s)"
proof (induction r s arbitrary: s' rule: runs.induct)
  case (4 r1 r2 s)
  then obtain s1 where s1: "s1 \<in> set (runs r1 s)" "s' \<in> set (runs r2 s1)" by auto
  show ?case
  proof (cases "(n, b, t) \<in> set (caps s1)")
    case True
    then show ?thesis using 4(1)[OF s1(1)] 4(5) by blast
  next
    case False
    then show ?thesis using 4(2)[OF s1(1,2)] 4(4) runs_chars[OF s1(1)] by simp
  qed
next
  case (6 g r s)
  from 6(3) consider "s' = s"
    | s1 where "s1 \<in> set (runs r s)" "length (rgt s1) < length (rgt s)" "s' \<in> set (runs (RStar g r) s1)"
    by (auto simp: runs.simps(6)[of g r s] Let_def split: if_splits)
  then show ?case
  proof cases
    case (2 s1)
    then show ?thesis using 6(1)[OF 2(1)] 6(2)[of s1 s'] 6(4,5) runs_chars[OF 2(1)] by (cases "(n, b, t) \<in> set (caps s1)") auto
  qed (use 6 in simp)
next
  case (7 m r s)
  then obtain s0 where s0: "s0 \<in> set (runs r s)" "s' = capture m s s0" by auto
  have "set (consumed s s0) \<subseteq> set (lft s0)" by (auto simp: consumed_def dest: in_set_takeD)
  then have "set (consumed s s0) \<subseteq> set (lft s) \<union> set (rgt s)" using runs_chars[OF s0(1)] by blast
  then show ?case using 7(1)[OF s0(1)] 7(3,4) s0(2) by (auto simp: capture_def)
next
  case (8 m s)
  then show ?case by (auto simp: advance_text_Some split: option.splits)
next
  case (12 p r s)
  show ?case
  proof (cases "runs r s")
    case (Cons a as)
    then show ?thesis using 12(1)[of a] 12(2-) by (auto split: if_splits)
  qed (use 12 in \<open>auto split: if_splits\<close>)
qed (auto simp: advance_Some split: if_splits)

lemma group_chars: "Match p s = Some m \<Longrightarrow> n \<noteq> 0 \<Longrightarrow> set (grp m n) \<subseteq> set s"
proof -
  assume m: "Match p s = Some m" and n: "n \<noteq> 0"
  obtain r where r: "re_compile p = Some r" using m by (auto simp: Match_def split: option.splits)
  from Match_SomeE[OF m r] obtain s' where s': "s' \<in> set (runs r (MS [] s []))" "m = match_of [] s s'" by blast
  obtain a b c where [simp]: "s' = MS a b c" by (cases s')
  show ?thesis
  proof (cases "map_of c n")
    case (Some x)
    then have "(n, fst x, snd x) \<in> set (caps s')" by (simp add: map_of_SomeD)
    from runs_group_chars[OF s'(1) this] Some s'(2) n show ?thesis by (cases x) simp
  qed (use s'(2) n in simp)
qed

lemma chars_of_part: "t \<in> set ts \<Longrightarrow> set t \<subseteq> set (py_join sep ts)"
  by (induction sep ts rule: py_join.induct) auto

text \<open>A line without an angle bracket or a parenthesis holds no unclosed argument.\<close>

lemma closes_up_closed: "list_all (\<lambda>a. \<not> arg_open a) as \<Longrightarrow> closes_up as"
proof (induction "as")
  case (Cons a "as")
  then show ?case using closes_group[of a "[]" "as"] by simp
qed (rule closes_nil)

lemma plain_line_no_crash:
  assumes "CHR ''<'' \<notin> set line" and "CHR ''('' \<notin> set line"
  shows "\<not> constructor_crash ns line"
proof
  assume "constructor_crash ns line"
  then obtain base m where m: "constructor_match ns line = Some (base, m)" "\<not> closes_up (py_split (grp m 2) '','')"
    by (auto simp: constructor_crash_def)
  from m(1) have "Match (EXPLICIT_CONSTRUCTOR base) line = Some m"
    by (auto simp: constructor_match_def Let_def split: option.splits block_kind.splits if_splits)
  from group_chars[OF this, of 2] have args: "set (grp m 2) \<subseteq> set line" by simp
  have pieces: "set a \<subseteq> set (grp m 2)" if "a \<in> set (py_split (grp m 2) '','')" for a
    using chars_of_part[OF that, of "'',''"] by (simp only: py_join_py_split)
  have "\<not> arg_open a" if "a \<in> set (py_split (grp m 2) '','')" for a
  proof -
    have "count_list a (CHR ''<'') = 0" "count_list a (CHR ''('') = 0"
      using pieces[OF that] args assms by (auto simp: count_list_0_iff)
    then show ?thesis by (simp add: arg_open_def py_count_char)
  qed
  then show False using m(2) closes_up_closed by (auto simp: list_all_iff)
qed

text \<open>A line without quotes and backslashes is not changed by the cleansing of literals.\<close>

definition plain_line :: "string \<Rightarrow> bool" where
  "plain_line line \<longleftrightarrow> backslash_char \<notin> set line \<and> CHR 0x22 \<notin> set line \<and> CHR 0x27 \<notin> set line"

lemma CollapseStrings_plain: "plain_line line \<Longrightarrow> CollapseStrings line = Inr line"
proof -
  assume plain: "plain_line line"
  have "Match FIRST_QUOTE line = None"
  proof (cases "Match FIRST_QUOTE line")
    case (Some m)
    from FIRST_QUOTE_split[OF Some] obtain q e where "line = grp m 1 @ q # grp m 3 @ e" "q \<in> {CHR 0x27, CHR 0x22}" by blast
    then have "q \<in> set line" by (metis in_set_conv_decomp)
    with \<open>q \<in> {CHR 0x27, CHR 0x22}\<close> plain show ?thesis by (auto simp: plain_line_def)
  qed
  with plain show ?thesis
    by (simp add: CollapseStrings_def plain_line_def no_escapes collapse_loop.simps[of "[]" line])
qed

lemma replace_raw_plain: "plain_line line \<Longrightarrow> replace_raw_strings line = (line, None)"
proof -
  assume plain: "plain_line line"
  have "Match RAW_STRING_START line = None"
  proof (cases "Match RAW_STRING_START line")
    case (Some m)
    from RAW_STRING_START_split[OF Some] obtain a b where "line = a @ CHR 0x22 # b" by (metis append.assoc)
    then have "CHR 0x22 \<in> set line" by simp
    with plain show ?thesis by (simp add: plain_line_def)
  qed
  then show ?thesis by (simp add: replace_raw_strings.simps[of line])
qed

lemma CleansedLines_plain:
  assumes "\<forall>l \<in> set ls. plain_line l"
  shows "CleansedLines ls = Inr \<lparr>cl_elided = map CleanseComments ls, cl_lines = map CleanseComments ls, cl_raw_lines = ls,
    cl_num_lines = int (length ls), cl_lines_without_raw_strings = ls\<rparr>"
proof -
  have "cleanse_raw_lines None ls = Inr ls"
    using assms by (induction ls) (simp_all add: cleanse_raw_line_def replace_raw_plain)
  moreover have "py_map CollapseStrings ls = Inr ls"
    using assms by (induction ls) (simp_all add: CollapseStrings_plain)
  ultimately show ?thesis by (simp add: CleansedLines_def CleanseRawStrings_def)
qed

lemma CleanseComments_line: "CleanseComments (CHR ''/'' # CHR ''/'' # s) = []"
proof -
  have "re_sub CLEANSE_LINE_C_COMMENTS (\<lambda>_. []) [] = []" by code_simp
  moreover have "\<not> IsCppString []" by code_simp
  ultimately show ?thesis by (simp add: CleanseComments_def py_find_def py_upto_def py_rstrip_def py_clamp_def)
qed


definition ex_plain_lines :: "string list" where
  "ex_plain_lines = [''class Foo {'', ''  int x;'', ''};'', '''']"

lemma ex_plain_clean:
  "comment_free (START_MARKER # ex_plain_lines @ [END_MARKER]) = START_MARKER # ex_plain_lines @ [END_MARKER]"
  by code_simp

lemma ex_plain_elided: "cl_elided (clean_file ex_plain_lines) = [[], ''class Foo {'', ''  int x;'', ''};'', [], []]"
proof -
  have plain: "\<forall>l \<in> set (START_MARKER # ex_plain_lines @ [END_MARKER]). plain_line l" by code_simp
  have "cl_elided (clean_file ex_plain_lines) = map CleanseComments (START_MARKER # ex_plain_lines @ [END_MARKER])"
    using plain by (simp add: clean_file_def ex_plain_clean CleansedLines_plain)
  also have "\<dots> = [[], ''class Foo {'', ''  int x;'', ''};'', [], []]"
    by (simp add: CleanseComments_line START_MARKER_def END_MARKER_def) code_simp
  finally show ?thesis .
qed

lemma ex_plain_no_crash:
  assumes "0 \<le> l" and "l < NumLines (clean_file ex_plain_lines)"
  shows "\<not> line_crash (clean_file ex_plain_lines) l"
proof -
  have lines: "cl_elided (clean_file ex_plain_lines) ! nat l \<in> set [[], ''class Foo {'', ''  int x;'', ''};'']"
  proof -
    have "l \<in> {0, 1, 2, 3, 4, 5}"
      using assms clean_file_ok(1)[of ex_plain_lines] ex_plain_elided by (auto simp: NumLines_def views_ok_def)
    then show ?thesis unfolding ex_plain_elided by auto
  qed
  have "\<forall>s \<in> set [[], ''class Foo {'', ''  int x;'', ''};'']. \<not> Finds ADDRESS_OF_CAST s" by code_simp
  with lines have "\<not> Finds ADDRESS_OF_CAST (cl_elided (clean_file ex_plain_lines) ! nat l)" by blast
  moreover have "\<forall>s \<in> set [[], ''class Foo {'', ''  int x;'', ''};'']. CHR ''<'' \<notin> set s \<and> CHR ''('' \<notin> set s" by simp
  with lines have "CHR ''<'' \<notin> set (cl_elided (clean_file ex_plain_lines) ! nat l)"
      "CHR ''('' \<notin> set (cl_elided (clean_file ex_plain_lines) ! nat l)" by blast+
  ultimately show ?thesis using plain_line_no_crash by (simp add: line_crash_def language_crash_def cast_crash_def)
qed


end
