(* ===== verification/Config_Files.thy ===== *)
theory Config_Files
  imports File_Processing
begin

text \<open>
  The configuration files \<open>CPPLINT.cfg\<close> and the processing of a file from its name:
  \<open>ProcessConfigOverrides\<close> and \<open>ProcessFile\<close>.  What is read from the file system, and the matching of the
  regular expressions that users write, are parameters, bundled in a record; nothing is assumed about them.
\<close>

section \<open>The world outside\<close>

text \<open>
  \<open>fs_config\<close> gives the lines of a configuration file (\<open>None\<close> when it cannot be read), \<open>fs_text\<close> the decoded text of
  a source file, \<open>fs_header\<close> the lines of a header; \<open>fs_match\<close> is \<open>re.compile(pattern).match(s)\<close> and may raise.
  \<open>fs_glob\<close> is \<open>glob.glob\<close>, \<open>fs_walk\<close> the directories that \<open>os.walk\<close> visits with their files, and \<open>fs_set_order\<close> the
  order in which a set with the given members is iterated.
\<close>

record file_system =
  fs_env :: os_env
  fs_isfile :: "string \<Rightarrow> bool"
  fs_isdir :: "string \<Rightarrow> bool"
  fs_config :: "string \<Rightarrow> string list option"
  fs_text :: "string \<Rightarrow> string option"
  fs_header :: "string \<Rightarrow> string list option"
  fs_match :: "string \<Rightarrow> string \<Rightarrow> bool py"
  fs_glob :: "string \<Rightarrow> string list"
  fs_walk :: "string \<Rightarrow> (string \<times> string list) list"
  fs_set_order :: "string list \<Rightarrow> string list"

section \<open>Strings to numbers\<close>

text \<open>
  \<open>int(s)\<close>: white space around an optional sign and decimal digits, with single underscores between digits.
  (Python 3.11 also refuses numbers of more than 4300 digits.)
\<close>

definition decimal_digit :: "char \<Rightarrow> bool" where
  "decimal_digit c \<longleftrightarrow> c \<in> set ''0123456789''"

fun digits_ok :: "string \<Rightarrow> bool" where
  "digits_ok [] = False"
| "digits_ok [c] = decimal_digit c"
| "digits_ok (c # d # s) = (decimal_digit c \<and> (if d = CHR ''_'' then digits_ok s else digits_ok (d # s)))"

definition digits_value :: "string \<Rightarrow> int" where
  "digits_value s = foldl (\<lambda>n c. if c = CHR ''_'' then n else 10 * n + (char_code c - 48)) 0 s"

definition unsigned_int :: "string \<Rightarrow> int option" where
  "unsigned_int s = (if digits_ok s then Some (digits_value s) else None)"

definition py_int :: "string \<Rightarrow> int option" where
  "py_int s =
     (case py_strip s of
        [] \<Rightarrow> None
      | c # t \<Rightarrow>
          if c = CHR ''-'' then map_option uminus (unsigned_int t)
          else if c = CHR ''+'' then unsigned_int t
          else unsigned_int (c # t))"

section \<open>\<open>ProcessConfigOverrides\<close>\<close>

text \<open>\<open>s.partition(sep)\<close>, without the separator.\<close>

definition py_partition :: "string \<Rightarrow> string \<Rightarrow> string \<times> string" where
  "py_partition s sep =
     (let i = py_find s sep
      in if i = -1 then (s, []) else (py_upto s i, py_from s (i + int (length sep))))"

text \<open>
  After a line, a file or all files: either the file to check is excluded, or the search for configuration
  files goes on or not, with the filters collected so far.
\<close>

datatype config_step =
    Excluded world
  | Config bool "string list" world

definition config_option ::
  "file_system \<Rightarrow> string \<Rightarrow> string \<Rightarrow> string \<Rightarrow> string \<Rightarrow> string \<Rightarrow> bool \<Rightarrow> string list \<Rightarrow> world \<Rightarrow> config_step py" where
  "config_option fs filename cfg_file base_name name val keep_looking cfg_filters w =
     (if name = ''set noparent'' then Inr (Config False cfg_filters w)
      else if name = ''filter'' then Inr (Config keep_looking (cfg_filters @ [val]) w)
      else if name = ''exclude_files'' then
        (if base_name \<noteq> []
         then py_bind (fs_match fs val base_name) (\<lambda>matched.
           if matched then
             Inr (Excluded
               (if quiet (cpplint_state w) then w
                else PrintInfo (''Ignoring '' @ [CHR 0x22] @ filename @ [CHR 0x22] @ '': file excluded by '' @ [CHR 0x22]
                       @ cfg_file @ [CHR 0x22] @ ''. File path component '' @ [CHR 0x22] @ base_name @ [CHR 0x22]
                       @ '' matches pattern '' @ [CHR 0x22] @ val @ [CHR 0x22, newline_char]) w))
           else Inr (Config keep_looking cfg_filters w))
         else Inr (Config keep_looking cfg_filters w))
      else if name = ''linelength'' then
        Inr (Config keep_looking cfg_filters
          (case py_int val of
             Some n \<Rightarrow> w\<lparr>line_length := n\<rparr>
           | None \<Rightarrow> PrintError ''Line length must be numeric.'' w))
      else if name = ''extensions'' then Inr (Config keep_looking cfg_filters (ProcessExtensionsOption val w))
      else if name = ''root'' then
        Inr (Config keep_looking cfg_filters (w\<lparr>root_flag := Some (path_join (dirname cfg_file) [val])\<rparr>))
      else if name = ''headers'' then Inr (Config keep_looking cfg_filters (ProcessHppHeadersOption val w))
      else
        Inr (Config keep_looking cfg_filters
          (PrintError (''Invalid configuration option ('' @ name @ '') in file '' @ cfg_file @ [newline_char]) w)))"

definition config_line ::
  "file_system \<Rightarrow> string \<Rightarrow> string \<Rightarrow> string \<Rightarrow> string \<Rightarrow> bool \<Rightarrow> string list \<Rightarrow> world \<Rightarrow> config_step py" where
  "config_line fs filename cfg_file base_name line keep_looking cfg_filters w =
     (let (line, _) = py_partition line ''#''
      in if py_strip line = [] then Inr (Config keep_looking cfg_filters w)
         else
           (let (name, val) = py_partition line ''=''
            in config_option fs filename cfg_file base_name (py_strip name) (py_strip val) keep_looking cfg_filters w))"

fun config_file ::
  "file_system \<Rightarrow> string \<Rightarrow> string \<Rightarrow> string \<Rightarrow> string list \<Rightarrow> bool \<Rightarrow> string list \<Rightarrow> world \<Rightarrow> config_step py" where
  "config_file fs filename cfg_file base_name [] keep_looking cfg_filters w = Inr (Config keep_looking cfg_filters w)"
| "config_file fs filename cfg_file base_name (line # lines) keep_looking cfg_filters w =
     py_bind (config_line fs filename cfg_file base_name line keep_looking cfg_filters w) (\<lambda>step.
       case step of
         Excluded w \<Rightarrow> Inr (Excluded w)
       | Config keep_looking cfg_filters w \<Rightarrow>
           config_file fs filename cfg_file base_name lines keep_looking cfg_filters w)"

lemma split_shorter: "path_split p = (head, tail) \<Longrightarrow> tail \<noteq> [] \<Longrightarrow> length head < length p"
proof -
  assume split: "path_split p = (head, tail)" and "tail \<noteq> []"
  then have "dirname p = head" "slash_index p < length p" by (auto simp: dirname_def path_split_def Let_def)
  moreover have "dirname p \<noteq> p"
  proof
    assume "dirname p = p"
    moreover have "length (dirname p) \<le> slash_index p"
      using length_dropWhile_le[of "\<lambda>c. c \<in> set ''/''" "rev (take (slash_index p) p)"] slash_index_le[of p]
      by (auto simp: dirname_def path_split_def Let_def py_rstrip_chars_def)
    ultimately show False using \<open>slash_index p < length p\<close> by simp
  qed
  ultimately show ?thesis using dirname_shorter by blast
qed

text \<open>The loop over the directories, from the directory of the file upwards.\<close>

function config_directories :: "file_system \<Rightarrow> string \<Rightarrow> string \<Rightarrow> string list \<Rightarrow> world \<Rightarrow> config_step py" where
  "config_directories fs filename abs_filename cfg_filters w =
     (let (abs_path, base_name) = path_split abs_filename;
          cfg_file = path_join abs_path [''CPPLINT.cfg'']
      in if base_name = [] then Inr (Config True cfg_filters w)
         else if \<not> fs_isfile fs cfg_file then config_directories fs filename abs_path cfg_filters w
         else
           (case fs_config fs cfg_file of
              None \<Rightarrow>
                Inr (Config False cfg_filters
                  (PrintError (''Skipping config file '' @ [CHR 0x27] @ cfg_file @ [CHR 0x27]
                     @ '': Can'' @ [CHR 0x27] @ ''t open for reading'' @ [newline_char]) w))
            | Some lines \<Rightarrow>
                py_bind (config_file fs filename cfg_file base_name lines True cfg_filters w) (\<lambda>step.
                  case step of
                    Excluded w \<Rightarrow> Inr (Excluded w)
                  | Config keep_looking cfg_filters w \<Rightarrow>
                      if keep_looking then config_directories fs filename abs_path cfg_filters w
                      else Inr (Config False cfg_filters w))))"
  by pat_completeness auto
termination
  by (relation "measure (\<lambda>(fs, filename, p, fls, w). length p)") (auto dest: split_shorter[OF sym])

declare config_directories.simps [simp del]

definition ProcessConfigOverrides :: "file_system \<Rightarrow> string \<Rightarrow> world \<Rightarrow> (bool \<times> world) py" where
  "ProcessConfigOverrides fs filename w =
     py_bind (config_directories fs filename (abspath (fs_env fs) filename) [] w) (\<lambda>step.
       case step of
         Excluded w \<Rightarrow> Inr (False, w)
       | Config keep_looking cfg_filters w \<Rightarrow>
           py_bind (py_fold AddFilters_global (rev cfg_filters) w) (\<lambda>w. Inr (True, w)))"

section \<open>\<open>ProcessFile\<close>\<close>

text \<open>
  The lines of a text, without the carriage returns at their ends, and the numbers of the lines that end
  with a line feed alone and of those that end with a carriage return and a line feed.
\<close>

definition has_cr :: "string \<Rightarrow> bool" where
  "has_cr line = endswith line [CHR 0x0D]"

definition split_lines :: "string \<Rightarrow> string list \<times> int list \<times> int list" where
  "split_lines txt =
     (let lines = py_split txt [newline_char];
          terminated = py_enumerate (butlast lines)
      in (map (\<lambda>line. if has_cr line then py_rstrip_chars line [CHR 0x0D] else line) (butlast lines) @ [last lines],
          map (\<lambda>(n, line). n + 1) (filter (\<lambda>(n, line). \<not> has_cr line) terminated),
          map (\<lambda>(n, line). n + 1) (filter (\<lambda>(n, line). has_cr line) terminated)))"

definition file_extension_of :: "string \<Rightarrow> string" where
  "file_extension_of filename = py_from filename (py_rfind filename ''.'' + 1)"

text \<open>The messages about carriage returns in a file that has lines without them, too.\<close>

definition report_mixed_newlines :: "string \<Rightarrow> int list \<Rightarrow> int list \<Rightarrow> world \<Rightarrow> world py" where
  "report_mixed_newlines filename lf_lines crlf_lines =
     py_when (lf_lines \<noteq> [] \<and> crlf_lines \<noteq> [])
       (py_fold (\<lambda>linenum. Error filename (Some linenum) ''whitespace/newline'' 1
          (''Unexpected '' @ [backslash_char] @ ''r (^M) found; better to use only '' @ [backslash_char] @ ''n'')) crlf_lines)"

definition process_text :: "file_system \<Rightarrow> string \<Rightarrow> string \<Rightarrow> extra_check list \<Rightarrow> world \<Rightarrow> world py" where
  "process_text fs filename txt extra_check_functions w =
     (let (lines, lf_lines, crlf_lines) = split_lines txt;
          file_extension = file_extension_of filename
      in if file_extension \<notin> set (GetAllExtensions w) then
           Inr (PrintError (''Ignoring '' @ filename @ ''; not a valid file name ('' @ py_join '', '' (GetAllExtensions w)
                  @ '')'' @ [newline_char]) w)
         else
           py_bind (ProcessFileData (fs_env fs) (fs_header fs) Error filename file_extension lines extra_check_functions w)
             (report_mixed_newlines filename lf_lines crlf_lines))"

text \<open>
  Under Python 3 the name \<open>-\<close> raises: a decoder for bytes is put around the standard input, which is already a
  stream of text.
\<close>

definition ProcessFile :: "file_system \<Rightarrow> string \<Rightarrow> int \<Rightarrow> extra_check list \<Rightarrow> world \<Rightarrow> world py" where
  "ProcessFile fs filename vlevel extra_check_functions w =
     (let w = BackupFilters_global (snd (SetVerboseLevel_global vlevel w));
          old_errors = error_count (cpplint_state w)
      in py_bind (ProcessConfigOverrides fs filename w) (\<lambda>(proceed, w).
           if \<not> proceed then Inr (RestoreFilters_global w)
           else if filename = ''-'' then Inl TypeError
           else
             (case fs_text fs filename of
                None \<Rightarrow>
                  Inr (RestoreFilters_global
                    (PrintError (''Skipping input '' @ [CHR 0x27] @ filename @ [CHR 0x27] @ '': Can'' @ [CHR 0x27]
                       @ ''t open for reading'' @ [newline_char]) w))
              | Some txt \<Rightarrow>
                  py_bind (process_text fs filename txt extra_check_functions w) (\<lambda>w.
                    Inr (RestoreFilters_global
                      (if \<not> quiet (cpplint_state w) \<or> old_errors \<noteq> error_count (cpplint_state w)
                       then PrintInfo (''Done processing '' @ filename @ [newline_char]) w else w))))))"

section \<open>The configuration files as a list of settings\<close>

text \<open>The setting on a line; a line without text before the comment sets nothing.\<close>

definition config_pair :: "string \<Rightarrow> (string \<times> string) option" where
  "config_pair line =
     (let line' = fst (py_partition line ''#'')
      in if py_strip line' = [] then None
         else Some (py_strip (fst (py_partition line' ''='')), py_strip (snd (py_partition line' ''=''))))"

definition config_pairs :: "string list \<Rightarrow> (string \<times> string) list" where
  "config_pairs lines = List.map_filter config_pair lines"

lemma config_line_pair:
  "config_line fs filename cfg_file base_name line keep fls w =
     (case config_pair line of
        None \<Rightarrow> Inr (Config keep fls w)
      | Some (name, val) \<Rightarrow> config_option fs filename cfg_file base_name name val keep fls w)"
  by (simp add: config_line_def config_pair_def Let_def split: prod.split)

text \<open>What a setting does to the state of the linter.\<close>

definition apply_setting :: "string \<Rightarrow> string \<times> string \<Rightarrow> world \<Rightarrow> world" where
  "apply_setting cfg_file = (\<lambda>(name, val) w.
     if name = ''set noparent'' \<or> name = ''filter'' \<or> name = ''exclude_files'' then w
     else if name = ''linelength'' then
       (case py_int val of Some n \<Rightarrow> w\<lparr>line_length := n\<rparr> | None \<Rightarrow> PrintError ''Line length must be numeric.'' w)
     else if name = ''extensions'' then ProcessExtensionsOption val w
     else if name = ''root'' then w\<lparr>root_flag := Some (path_join (dirname cfg_file) [val])\<rparr>
     else if name = ''headers'' then ProcessHppHeadersOption val w
     else PrintError (''Invalid configuration option ('' @ name @ '') in file '' @ cfg_file @ [newline_char]) w)"

definition filter_values :: "(string \<times> string) list \<Rightarrow> string list" where
  "filter_values opts = map snd (filter (\<lambda>p. fst p = ''filter'') opts)"

definition stops :: "(string \<times> string) list \<Rightarrow> bool" where
  "stops opts \<longleftrightarrow> ''set noparent'' \<in> fst ` set opts"

definition excluding :: "file_system \<Rightarrow> string \<Rightarrow> (string \<times> string) list \<Rightarrow> bool" where
  "excluding fs base_name opts \<longleftrightarrow> (\<exists>val. (''exclude_files'', val) \<in> set opts \<and> fs_match fs val base_name \<noteq> Inr False)"

lemma config_option_setting:
  assumes "name = ''exclude_files'' \<Longrightarrow> base \<noteq> [] \<Longrightarrow> fs_match fs val base = Inr False"
  shows "config_option fs filename cfg_file base name val keep fls w =
    Inr (Config (keep \<and> name \<noteq> ''set noparent'') (fls @ (if name = ''filter'' then [val] else []))
      (apply_setting cfg_file (name, val) w))"
  using assms by (auto simp: config_option_def apply_setting_def)

lemma config_file_settings:
  assumes "\<not> excluding fs base (config_pairs lines)"
  shows "config_file fs filename cfg_file base lines keep fls w =
    Inr (Config (keep \<and> \<not> stops (config_pairs lines)) (fls @ filter_values (config_pairs lines))
      (fold (apply_setting cfg_file) (config_pairs lines) w))"
  using assms
proof (induction lines arbitrary: keep fls w)
  case Nil
  then show ?case by (simp add: config_pairs_def stops_def filter_values_def List.map_filter_def)
next
  case (Cons line lines)
  show ?case
  proof (cases "config_pair line")
    case None
    then have "config_pairs (line # lines) = config_pairs lines" by (simp add: config_pairs_def List.map_filter_simps)
    with Cons None show ?thesis by (simp add: config_line_pair)
  next
    case (Some p)
    obtain name val where p: "p = (name, val)" by (cases p)
    have opts: "config_pairs (line # lines) = (name, val) # config_pairs lines"
      using Some p by (simp add: config_pairs_def List.map_filter_simps)
    have here: "name = ''exclude_files'' \<Longrightarrow> base \<noteq> [] \<Longrightarrow> fs_match fs val base = Inr False"
      and rest: "\<not> excluding fs base (config_pairs lines)"
      using Cons.prems by (auto simp: excluding_def opts)
    show ?thesis
      using Cons.IH[OF rest] Some p
      by (auto simp: config_line_pair opts config_option_setting[OF here] stops_def filter_values_def)
  qed
qed

text \<open>The configuration files that are read, the one nearest to the file first.\<close>

function visited :: "file_system \<Rightarrow> string \<Rightarrow> (string \<times> string \<times> string list option) list" where
  "visited fs abs_filename =
     (let (abs_path, base_name) = path_split abs_filename;
          cfg_file = path_join abs_path [''CPPLINT.cfg'']
      in if base_name = [] then []
         else if \<not> fs_isfile fs cfg_file then visited fs abs_path
         else (cfg_file, base_name, fs_config fs cfg_file) #
           (case fs_config fs cfg_file of
              None \<Rightarrow> []
            | Some lines \<Rightarrow> if stops (config_pairs lines) then [] else visited fs abs_path))"
  by pat_completeness auto
termination
  by (relation "measure (\<lambda>(fs, p). length p)") (auto dest: split_shorter[OF sym])

declare visited.simps [simp del]

text \<open>All the settings that apply to a file, each with its configuration file.\<close>

definition settings_for :: "file_system \<Rightarrow> string \<Rightarrow> (string \<times> string \<times> string) list" where
  "settings_for fs abs_filename =
     concat (map (\<lambda>(cfg_file, base, lines). map (Pair cfg_file) (config_pairs (the lines))) (visited fs abs_filename))"

text \<open>Every configuration file can be read, and none excludes the file.\<close>

definition included :: "file_system \<Rightarrow> string \<Rightarrow> bool" where
  "included fs abs_filename \<longleftrightarrow>
     (\<forall>(cfg_file, base, lines) \<in> set (visited fs abs_filename). lines \<noteq> None \<and> \<not> excluding fs base (config_pairs (the lines)))"

lemma config_directories_settings:
  "included fs p \<Longrightarrow> \<exists>keep. config_directories fs filename p fls w =
     Inr (Config keep (fls @ filter_values (map snd (settings_for fs p)))
       (fold (\<lambda>(cfg_file, pair). apply_setting cfg_file pair) (settings_for fs p) w))"
proof (induction fs p arbitrary: fls w rule: visited.induct)
  case (1 fs p)
  obtain dir base where split: "path_split p = (dir, base)" by (cases "path_split p")
  let ?cfg = "path_join dir [''CPPLINT.cfg'']"
  show ?case
  proof (cases "base = []")
    case True
    then have "visited fs p = []" by (subst visited.simps) (simp add: split)
    then show ?thesis using True
      by (subst config_directories.simps) (simp add: split settings_for_def filter_values_def ex_bool_eq)
  next
    case base: False
    show ?thesis
    proof (cases "fs_isfile fs ?cfg")
      case False
      then have v: "visited fs p = visited fs dir" using base by (subst visited.simps) (simp add: split)
      with 1(3) have "included fs dir" by (simp add: included_def)
      from 1(1)[OF split[symmetric] refl refl base _ this] False base show ?thesis
        by (subst config_directories.simps) (simp add: split settings_for_def v)
    next
      case True
      then have v: "visited fs p = (?cfg, base, fs_config fs ?cfg) #
          (case fs_config fs ?cfg of None \<Rightarrow> []
           | Some lines \<Rightarrow> if stops (config_pairs lines) then [] else visited fs dir)"
        using base by (subst visited.simps) (simp add: split Let_def)
      with 1(3) obtain lines where lines: "fs_config fs ?cfg = Some lines" "\<not> excluding fs base (config_pairs lines)"
        by (auto simp: included_def)
      have fold_here: "fold (\<lambda>(cfg_file, pair). apply_setting cfg_file pair) (map (Pair ?cfg) ps) w = fold (apply_setting ?cfg) ps w" for ps w
        by (induction ps arbitrary: w) simp_all
      note step = config_file_settings[OF lines(2), of filename ?cfg True fls w]
      show ?thesis
      proof (cases "stops (config_pairs lines)")
        case True
        then have "settings_for fs p = map (Pair ?cfg) (config_pairs lines)"
          by (simp add: settings_for_def v lines)
        then show ?thesis using True base \<open>fs_isfile fs ?cfg\<close>
          by (subst config_directories.simps) (simp add: split lines step fold_here o_def ex_bool_eq)
      next
        case False
        then have s: "settings_for fs p = map (Pair ?cfg) (config_pairs lines) @ settings_for fs dir"
          and "included fs dir"
          using 1(3) by (simp_all add: settings_for_def included_def v lines)
        have "\<exists>keep. config_directories fs filename dir (fls @ filter_values (config_pairs lines))
            (fold (apply_setting ?cfg) (config_pairs lines) w) =
          Inr (Config keep ((fls @ filter_values (config_pairs lines)) @ filter_values (map snd (settings_for fs dir)))
            (fold (\<lambda>(cfg_file, pair). apply_setting cfg_file pair) (settings_for fs dir)
              (fold (apply_setting ?cfg) (config_pairs lines) w)))"
          by (rule 1(2)[OF split[symmetric] refl refl base _ lines(1) False]) (simp_all add: \<open>included fs dir\<close> True)
        with True base False show ?thesis
          by (subst config_directories.simps) (simp add: split lines step fold_here o_def s filter_values_def)
      qed
    qed
  qed
qed
text \<open>The pieces of a filter option.\<close>

definition filter_pieces :: "string \<Rightarrow> string list" where
  "filter_pieces val = filter (\<lambda>f. f \<noteq> []) (map py_strip (py_split val '',''))"

lemma AddFilters_legal:
  assumes "filters_ok (cpplint_state w)"
  shows "AddFilters_global val w =
    (case find (\<lambda>f. \<not> signed_filter f) (filter_pieces val) of
       None \<Rightarrow> Inr (w\<lparr>cpplint_state := (cpplint_state w)\<lparr>filters := filters (cpplint_state w) @ filter_pieces val\<rparr>\<rparr>)
     | Some filt \<Rightarrow> Inl (ValueError (''Every filter in --filters must start with + or - ('' @ filt @ '' does not)'')))"
proof -
  have "find (\<lambda>f. \<not> signed_filter f) (filters (cpplint_state w)) = None"
    using assms by (auto simp: filters_ok_def list_all_iff find_None_iff)
  then show ?thesis
    by (auto simp: AddFilters_global_def AddFilters_def Let_def filter_pieces_def find_append split: option.split)
qed

definition legal_values :: "string list \<Rightarrow> bool" where
  "legal_values vals \<longleftrightarrow> (\<forall>val \<in> set vals. list_all signed_filter (filter_pieces val))"

lemma legal_values_rev [simp]: "legal_values (rev vals) = legal_values vals"
  by (simp add: legal_values_def)

lemma add_filters_fold:
  "filters_ok (cpplint_state w) \<Longrightarrow> legal_values vals \<Longrightarrow>
   py_fold AddFilters_global vals w =
     Inr (w\<lparr>cpplint_state := (cpplint_state w)\<lparr>filters := filters (cpplint_state w) @ concat (map filter_pieces vals)\<rparr>\<rparr>)"
proof (induction vals arbitrary: w)
  case (Cons val vals)
  let ?w = "w\<lparr>cpplint_state := (cpplint_state w)\<lparr>filters := filters (cpplint_state w) @ filter_pieces val\<rparr>\<rparr>"
  have legal: "list_all signed_filter (filter_pieces val)" "legal_values vals" using Cons.prems(2) by (simp_all add: legal_values_def)
  then have "find (\<lambda>f. \<not> signed_filter f) (filter_pieces val) = None" by (auto simp: list_all_iff find_None_iff)
  then have "AddFilters_global val w = Inr ?w" using AddFilters_legal[OF Cons.prems(1), of val] by simp
  moreover have "filters_ok (cpplint_state ?w)" using Cons.prems(1) legal(1) by (simp add: filters_ok_def)
  ultimately show ?case using Cons.IH[of ?w] legal(2) by simp
qed simp

lemma add_filters_raises:
  "filters_ok (cpplint_state w) \<Longrightarrow> \<not> legal_values vals \<Longrightarrow> \<exists>m. py_fold AddFilters_global vals w = Inl (ValueError m)"
proof (induction vals arbitrary: w)
  case (Cons val vals)
  show ?case
  proof (cases "find (\<lambda>f. \<not> signed_filter f) (filter_pieces val)")
    case (Some filt)
    then show ?thesis using AddFilters_legal[OF Cons.prems(1), of val] by simp
  next
    case None
    then have legal: "list_all signed_filter (filter_pieces val)" by (auto simp: list_all_iff find_None_iff)
    then have "\<not> legal_values vals" using Cons.prems(2) by (auto simp: legal_values_def)
    moreover have "filters_ok (cpplint_state (w\<lparr>cpplint_state := (cpplint_state w)\<lparr>filters := filters (cpplint_state w) @ filter_pieces val\<rparr>\<rparr>))"
      using Cons.prems(1) legal by (simp add: filters_ok_def)
    ultimately show ?thesis using Cons.IH AddFilters_legal[OF Cons.prems(1), of val] None by auto
  qed
qed (simp add: legal_values_def)

section \<open>What a setting leaves alone\<close>

lemma apply_setting_keeps:
  "cpplint_state (apply_setting cfg p w)\<lparr>junit_errors := []\<rparr> = cpplint_state w\<lparr>junit_errors := []\<rparr>"
  "repository_flag (apply_setting cfg p w) = repository_flag w"
  "excludes (apply_setting cfg p w) = excludes w"
  by (auto simp: apply_setting_def PrintError_def ProcessExtensionsOption_def ProcessHppHeadersOption_def
      split: prod.split option.split)

lemma fold_settings_keeps:
  "cpplint_state (fold (\<lambda>(cfg, p). apply_setting cfg p) ss w)\<lparr>junit_errors := []\<rparr> = cpplint_state w\<lparr>junit_errors := []\<rparr> \<and>
   repository_flag (fold (\<lambda>(cfg, p). apply_setting cfg p) ss w) = repository_flag w \<and>
   excludes (fold (\<lambda>(cfg, p). apply_setting cfg p) ss w) = excludes w"
  by (induction ss arbitrary: w) (simp_all add: case_prod_unfold apply_setting_keeps)

lemma same_but_junit:
  "st\<lparr>junit_errors := []\<rparr> = (st' :: lint_state)\<lparr>junit_errors := []\<rparr> \<Longrightarrow>
   filters st = filters st' \<and> filters_backup st = filters_backup st' \<and> error_count st = error_count st' \<and>
   verbose_level st = verbose_level st' \<and> quiet st = quiet st' \<and> output_format st = output_format st' \<and>
   counting st = counting st' \<and> errors_by_category st = errors_by_category st' \<and> junit_failures st = junit_failures st'"
  by (cases st; cases st') simp

text \<open>The line length that a list of settings leaves.\<close>

definition line_lengths :: "(string \<times> string \<times> string) list \<Rightarrow> int list" where
  "line_lengths ss = List.map_filter (\<lambda>(cfg, name, val). if name = ''linelength'' then py_int val else None) ss"

lemma apply_setting_length:
  "line_length (apply_setting cfg (name, val) w) =
     (if name = ''linelength'' then (case py_int val of Some n \<Rightarrow> n | None \<Rightarrow> line_length w) else line_length w)"
  by (auto simp: apply_setting_def PrintError_def ProcessExtensionsOption_def ProcessHppHeadersOption_def split: option.split)

lemma fold_settings_length:
  "line_length (fold (\<lambda>(cfg, p). apply_setting cfg p) ss w) = last (line_length w # line_lengths ss)"
proof (induction ss arbitrary: w)
  case (Cons s ss)
  obtain cfg name val where s: "s = (cfg, name, val)" by (cases s) auto
  have "line_lengths (s # ss) =
      (if name = ''linelength'' then (case py_int val of Some n \<Rightarrow> [n] | None \<Rightarrow> []) else []) @ line_lengths ss"
    by (simp add: s line_lengths_def List.map_filter_def split: option.split)
  then show ?case using Cons.IH[of "apply_setting cfg (name, val) w"]
    by (auto simp: s apply_setting_length split: option.split)
qed (simp add: line_lengths_def List.map_filter_def)

text \<open>The state after the settings and after the filters.\<close>

abbreviation after_settings :: "file_system \<Rightarrow> string \<Rightarrow> world \<Rightarrow> world" where
  "after_settings fs f w \<equiv> fold (\<lambda>(cfg, p). apply_setting cfg p) (settings_for fs (abspath (fs_env fs) f)) w"

abbreviation config_filters :: "file_system \<Rightarrow> string \<Rightarrow> string list" where
  "config_filters fs f \<equiv> rev (filter_values (map snd (settings_for fs (abspath (fs_env fs) f))))"

definition configured :: "file_system \<Rightarrow> string \<Rightarrow> world \<Rightarrow> world" where
  "configured fs f w =
     (let w' = after_settings fs f w
      in w'\<lparr>cpplint_state := (cpplint_state w')
           \<lparr>filters := filters (cpplint_state w) @ concat (map filter_pieces (config_filters fs f))\<rparr>\<rparr>)"

lemma config_overrides:
  assumes "filters_ok (cpplint_state w)" and "included fs (abspath (fs_env fs) f)"
  shows "legal_values (config_filters fs f) \<Longrightarrow> ProcessConfigOverrides fs f w = Inr (True, configured fs f w)"
    and "\<not> legal_values (config_filters fs f) \<Longrightarrow> \<exists>m. ProcessConfigOverrides fs f w = Inl (ValueError m)"
proof -
  let ?ss = "settings_for fs (abspath (fs_env fs) f)"
  obtain keep where climb: "config_directories fs f (abspath (fs_env fs) f) [] w =
      Inr (Config keep (filter_values (map snd ?ss)) (after_settings fs f w))"
    using config_directories_settings[OF assms(2), of f "[]" w] by auto
  have same: "filters (cpplint_state (after_settings fs f w)) = filters (cpplint_state w)"
    using fold_settings_keeps[of ?ss w] same_but_junit by blast
  then have ok: "filters_ok (cpplint_state (after_settings fs f w))" using assms(1) by (simp add: filters_ok_def)
  show "legal_values (config_filters fs f) \<Longrightarrow> ProcessConfigOverrides fs f w = Inr (True, configured fs f w)"
    using add_filters_fold[OF ok] by (simp add: ProcessConfigOverrides_def climb configured_def Let_def same)
  show "\<not> legal_values (config_filters fs f) \<Longrightarrow> \<exists>m. ProcessConfigOverrides fs f w = Inl (ValueError m)"
    using add_filters_raises[OF ok] by (fastforce simp: ProcessConfigOverrides_def climb)
qed

lemma config_overrides_Inr:
  assumes "filters_ok (cpplint_state w)" and "included fs (abspath (fs_env fs) f)"
    and "ProcessConfigOverrides fs f w = Inr (proceed, w')"
  shows "proceed" "w' = configured fs f w" "legal_values (config_filters fs f)"
  using config_overrides[OF assms(1,2)] assms(3) by fastforce+

text \<open>C7: \<open>ProcessConfigOverrides\<close> amounts to a flat list of settings.  The code climbs from the directory of the
  file to the root with a flag, an early return and a list of filters on the side; when every configuration file on the
  way can be read and none excludes the file, it applies the settings of the files it visits one after the other, the
  nearest file first, and then adds the filter options in the opposite order.  It raises a \<open>ValueError\<close> exactly when
  one of them has a filter without a sign.\<close>

theorem ProcessConfigOverrides_flat:
  assumes "filters_ok (cpplint_state w)" and "included fs (abspath (fs_env fs) f)"
  shows "let ss = settings_for fs (abspath (fs_env fs) f); vals = rev (filter_values (map snd ss));
             w' = fold (\<lambda>(cfg, p). apply_setting cfg p) ss w
         in if legal_values vals
            then ProcessConfigOverrides fs f w =
              Inr (True, w'\<lparr>cpplint_state := (cpplint_state w')\<lparr>filters := filters (cpplint_state w) @ concat (map filter_pieces vals)\<rparr>\<rparr>)
            else \<exists>m. ProcessConfigOverrides fs f w = Inl (ValueError m)"
  using config_overrides[OF assms] by (simp add: configured_def Let_def)

lemma configured_fields:
  "line_length (configured fs f w) = last (line_length w # line_lengths (settings_for fs (abspath (fs_env fs) f)))"
  "filters (cpplint_state (configured fs f w)) = filters (cpplint_state w) @ concat (map filter_pieces (config_filters fs f))"
  by (simp_all add: configured_def Let_def fold_settings_length)

lemma configured_keeps:
  "error_count (cpplint_state (configured fs f w)) = error_count (cpplint_state w)"
  "filters_backup (cpplint_state (configured fs f w)) = filters_backup (cpplint_state w)"
  "verbose_level (cpplint_state (configured fs f w)) = verbose_level (cpplint_state w)"
  "output_format (cpplint_state (configured fs f w)) = output_format (cpplint_state w)"
  "junit_failures (cpplint_state (configured fs f w)) = junit_failures (cpplint_state w)"
  "repository_flag (configured fs f w) = repository_flag w"
  using fold_settings_keeps[of "settings_for fs (abspath (fs_env fs) f)" w]
    same_but_junit[of "cpplint_state (after_settings fs f w)" "cpplint_state w"]
  by (simp_all add: configured_def Let_def)

text \<open>C24: Which configuration file wins.  The line length in force is the last one that is set on the way up, so the
  outermost configuration file decides, while the filters of the nearest file are added last and so decide over the
  others (and within one file an earlier filter option decides over a later one).\<close>

theorem outermost_line_length_wins:
  assumes "filters_ok (cpplint_state w)" and "included fs (abspath (fs_env fs) f)"
    and "ProcessConfigOverrides fs f w = Inr (proceed, w')"
  shows "proceed \<and>
    line_length w' = last (line_length w # line_lengths (settings_for fs (abspath (fs_env fs) f))) \<and>
    filters (cpplint_state w') = filters (cpplint_state w) @
      concat (map filter_pieces (rev (filter_values (map snd (settings_for fs (abspath (fs_env fs) f))))))"
  using config_overrides_Inr[OF assms] configured_fields[of fs f w] by simp
text \<open>A project whose configuration is refined in the directory \<open>src\<close>.\<close>

definition ex_fs :: file_system where
  "ex_fs = \<lparr>fs_env = ex_env,
     fs_isfile = (\<lambda>p. p \<in> set [''/w/p/CPPLINT.cfg'', ''/w/p/src/CPPLINT.cfg'']),
     fs_isdir = (\<lambda>_. False),
     fs_config = (\<lambda>p. if p = ''/w/p/CPPLINT.cfg'' then Some [''linelength=80'' @ [newline_char], ''filter=-build/include'' @ [newline_char], ''set noparent'']
                      else if p = ''/w/p/src/CPPLINT.cfg'' then Some [''linelength = 100 # wide'', '''', ''filter=+build/include, -legal''] else None),
     fs_text = (\<lambda>p. if p = ''src/a.h'' then Some (py_join [newline_char] ex_plain_lines) else None),
     fs_header = (\<lambda>_. None), fs_match = (\<lambda>_ _. Inr False), fs_glob = (\<lambda>_. []), fs_walk = (\<lambda>_. []), fs_set_order = (\<lambda>fs. fs)\<rparr>"

lemma ex_fs_settings:
  "abspath (fs_env ex_fs) ''src/a.h'' = ''/w/p/src/a.h''"
  "settings_for ex_fs ''/w/p/src/a.h'' =
     [(''/w/p/src/CPPLINT.cfg'', ''linelength'', ''100''), (''/w/p/src/CPPLINT.cfg'', ''filter'', ''+build/include, -legal''),
      (''/w/p/CPPLINT.cfg'', ''linelength'', ''80''), (''/w/p/CPPLINT.cfg'', ''filter'', ''-build/include''),
      (''/w/p/CPPLINT.cfg'', ''set noparent'', [])]"
  by code_simp+

lemma ex_fs_included: "included ex_fs ''/w/p/src/a.h''"
proof -
  have "list_all (\<lambda>v. fst (snd v) \<noteq> [] \<and> snd (snd v) \<noteq> None) (visited ex_fs ''/w/p/src/a.h'')" by code_simp
  moreover have "fs_match ex_fs val base = Inr False" for val base by (simp add: ex_fs_def)
  ultimately show ?thesis by (auto simp: included_def excluding_def list_all_iff)
qed

theorem ProcessConfigOverrides_flat_witness:
  "\<exists>w'. ProcessConfigOverrides ex_fs ''src/a.h'' initial_world = Inr (True, w') \<and> line_length w' = 80"
proof -
  have "legal_values (rev (filter_values (map snd (settings_for ex_fs ''/w/p/src/a.h''))))"
    unfolding ex_fs_settings by code_simp
  moreover have "line_lengths (settings_for ex_fs ''/w/p/src/a.h'') = [100, 80]" unfolding ex_fs_settings by code_simp
  ultimately show ?thesis
    using ProcessConfigOverrides_flat[of initial_world ex_fs "''src/a.h''"] filters_ok_initial ex_fs_included
    by (simp add: Let_def ex_fs_settings(1) fold_settings_length)
qed

theorem outermost_line_length_wins_witness:
  "\<exists>w'. ProcessConfigOverrides ex_fs ''src/a.h'' initial_world = Inr (True, w') \<and> line_length w' = 80 \<and>
     filters (cpplint_state w') = DEFAULT_FILTERS @ [''-build/include'', ''+build/include'', ''-legal'']"
proof -
  have "case ProcessConfigOverrides ex_fs ''src/a.h'' initial_world of Inl e \<Rightarrow> False | Inr r \<Rightarrow> True" by code_simp
  then obtain proceed w' where r: "ProcessConfigOverrides ex_fs ''src/a.h'' initial_world = Inr (proceed, w')"
    by (auto split: sum.splits)
  have settings: "line_lengths (settings_for ex_fs ''/w/p/src/a.h'') = [100, 80]"
    "concat (map filter_pieces (rev (filter_values (map snd (settings_for ex_fs ''/w/p/src/a.h''))))) =
     [''-build/include'', ''+build/include'', ''-legal'']"
    unfolding ex_fs_settings by code_simp+
  show ?thesis
    using outermost_line_length_wins[of initial_world ex_fs "''src/a.h''", OF filters_ok_initial _ r] ex_fs_included r settings
    by (simp add: ex_fs_settings(1)) (simp add: initial_world_def CppLintState_init_def)
qed
section \<open>A file from its name\<close>

text \<open>The names of files depend on the settings only through the repository.\<close>

lemma RepositoryName_repository: "repository_flag w = repository_flag w' \<Longrightarrow> RepositoryName env w f = RepositoryName env w' f"
  unfolding RepositoryName_def by (simp only:)

lemma names_return_repository: "repository_flag w = repository_flag w' \<Longrightarrow> names_return env w = names_return env w'"
  by (simp add: names_return_def RepositoryName_repository[of w w'])

lemma on_state_fields [simp]:
  "cpplint_state (on_state h w) = h (cpplint_state w)" "repository_flag (on_state h w) = repository_flag w"
  "line_length (on_state h w) = line_length w"
  by (simp_all add: on_state_def)

text \<open>The lines of the text of a file on which a check crashes.\<close>

definition crash_free :: "string \<Rightarrow> bool" where
  "crash_free txt \<longleftrightarrow>
     (let c = clean_file (fst (split_lines txt)) in \<forall>l. 0 \<le> l \<and> l < NumLines c \<longrightarrow> \<not> line_crash c l)"

lemma report_mixed_returns: "within_file w0 w \<Longrightarrow> returns (within_file w0) (report_mixed_newlines f lf crlf w)"
  unfolding report_mixed_newlines_def by (intro returns_when returns_fold processing.error_returns)

lemma PrintError_state [simp]:
  "filters (cpplint_state (PrintError m w)) = filters (cpplint_state w)"
  "error_count (cpplint_state (PrintError m w)) = error_count (cpplint_state w)"
  by (simp_all add: PrintError_def)

lemma process_text_returns:
  assumes "names_return (fs_env fs) w" and "filters_ok (cpplint_state w)" and "crash_free txt"
  shows "returns (within_file w) (process_text fs f txt [] w)"
proof -
  obtain ls lf crlf where split: "split_lines txt = (ls, lf, crlf)" by (cases "split_lines txt")
  have w: "within_file w w" using assms(2) by (rule within_file_refl)
  have "returns (within_file w) (ProcessFileData (fs_env fs) (fs_header fs) Error f ext ls [] w)" for ext
    by (rule file_processing.ProcessFileData_total[OF assms(1) w])
       (use assms(3) in \<open>simp_all add: crash_free_def split Let_def\<close>)
  then have "returns (within_file w)
      (py_bind (ProcessFileData (fs_env fs) (fs_header fs) Error f ext ls [] w) (report_mixed_newlines f lf crlf))" for ext
    by (rule returns_bind) (rule report_mixed_returns)
  moreover have "within_file w (PrintError m w)" for m using w by (simp add: within_file_def filters_ok_def failures_counted_def)
  ultimately show ?thesis
    unfolding process_text_def split Let_def prod.case by (intro returns_if returns_Inr)
qed

text \<open>What \<open>ProcessFile\<close> leaves behind: the configured state with the old filters.\<close>

definition prepared :: "int \<Rightarrow> world \<Rightarrow> world" where
  "prepared v w = BackupFilters_global (snd (SetVerboseLevel_global v w))"

lemma prepared_fields [simp]:
  "filters (cpplint_state (prepared v w)) = filters (cpplint_state w)"
  "filters_backup (cpplint_state (prepared v w)) = filters (cpplint_state w)"
  "verbose_level (cpplint_state (prepared v w)) = v"
  "error_count (cpplint_state (prepared v w)) = error_count (cpplint_state w)"
  "output_format (cpplint_state (prepared v w)) = output_format (cpplint_state w)"
  "junit_failures (cpplint_state (prepared v w)) = junit_failures (cpplint_state w)"
  "repository_flag (prepared v w) = repository_flag w"
  "line_length (prepared v w) = line_length w" "valid_extensions (prepared v w) = valid_extensions w"
  "hpp_headers (prepared v w) = hpp_headers w" "root_flag (prepared v w) = root_flag w"
  by (simp_all add: prepared_def BackupFilters_global_def BackupFilters_def on_state_def SetVerboseLevel_global_def SetVerboseLevel_def Let_def)

lemma settings_sel:
  "line_length (settings w) = line_length w" "valid_extensions (settings w) = valid_extensions w"
  "hpp_headers (settings w) = hpp_headers w" "root_flag (settings w) = root_flag w"
  "repository_flag (settings w) = repository_flag w" "quiet (cpplint_state (settings w)) = quiet (cpplint_state w)"
  "filters (cpplint_state (settings w)) = filters (cpplint_state w)"
  "filters_backup (cpplint_state (settings w)) = filters_backup (cpplint_state w)"
  "verbose_level (cpplint_state (settings w)) = verbose_level (cpplint_state w)"
  by (simp_all add: settings_def)

lemma settings_fields:
  "settings w = settings w' \<Longrightarrow> line_length w = line_length w' \<and> valid_extensions w = valid_extensions w' \<and>
   hpp_headers w = hpp_headers w' \<and> root_flag w = root_flag w' \<and> repository_flag w = repository_flag w' \<and>
   filters_backup (cpplint_state w) = filters_backup (cpplint_state w') \<and>
   verbose_level (cpplint_state w) = verbose_level (cpplint_state w')"
  by (metis settings_sel)

lemma restored_fields [simp]:
  "filters (cpplint_state (RestoreFilters_global w)) = filters_backup (cpplint_state w)"
  "verbose_level (cpplint_state (RestoreFilters_global w)) = verbose_level (cpplint_state w)"
  "error_count (cpplint_state (RestoreFilters_global w)) = error_count (cpplint_state w)"
  "output_format (cpplint_state (RestoreFilters_global w)) = output_format (cpplint_state w)"
  "junit_failures (cpplint_state (RestoreFilters_global w)) = junit_failures (cpplint_state w)"
  "line_length (RestoreFilters_global w) = line_length w" "valid_extensions (RestoreFilters_global w) = valid_extensions w"
  "hpp_headers (RestoreFilters_global w) = hpp_headers w" "root_flag (RestoreFilters_global w) = root_flag w"
  "repository_flag (RestoreFilters_global w) = repository_flag w"
  by (simp_all add: RestoreFilters_global_def RestoreFilters_def on_state_def)

text \<open>The settings of a file do not depend on the filters and the verbosity that are in force.\<close>

lemma apply_setting_cong:
  "line_length w = line_length w' \<and> valid_extensions w = valid_extensions w' \<and> hpp_headers w = hpp_headers w' \<and> root_flag w = root_flag w' \<Longrightarrow>
   line_length (apply_setting cfg p w) = line_length (apply_setting cfg p w') \<and>
   valid_extensions (apply_setting cfg p w) = valid_extensions (apply_setting cfg p w') \<and>
   hpp_headers (apply_setting cfg p w) = hpp_headers (apply_setting cfg p w') \<and>
   root_flag (apply_setting cfg p w) = root_flag (apply_setting cfg p w')"
  by (auto simp: apply_setting_def PrintError_def ProcessExtensionsOption_def ProcessHppHeadersOption_def
      split: prod.split option.split)

lemma fold_settings_cong:
  "line_length w = line_length w' \<and> valid_extensions w = valid_extensions w' \<and> hpp_headers w = hpp_headers w' \<and> root_flag w = root_flag w' \<Longrightarrow>
   line_length (fold (\<lambda>(cfg, p). apply_setting cfg p) ss w) = line_length (fold (\<lambda>(cfg, p). apply_setting cfg p) ss w') \<and>
   valid_extensions (fold (\<lambda>(cfg, p). apply_setting cfg p) ss w) = valid_extensions (fold (\<lambda>(cfg, p). apply_setting cfg p) ss w') \<and>
   hpp_headers (fold (\<lambda>(cfg, p). apply_setting cfg p) ss w) = hpp_headers (fold (\<lambda>(cfg, p). apply_setting cfg p) ss w') \<and>
   root_flag (fold (\<lambda>(cfg, p). apply_setting cfg p) ss w) = root_flag (fold (\<lambda>(cfg, p). apply_setting cfg p) ss w')"
proof (induction ss arbitrary: w w')
  case (Cons s ss)
  obtain cfg p where s: "s = (cfg, p)" by (cases s)
  show ?case using Cons.IH[OF apply_setting_cong[OF Cons.prems, of cfg p]] by (simp add: s)
qed simp

lemma ProcessFile_returns:
  assumes "names_return (fs_env fs) w" and "filters_ok (cpplint_state w)" and "f \<noteq> ''-''"
    and "included fs (abspath (fs_env fs) f)" and "legal_values (config_filters fs f)"
    and "\<And>txt. fs_text fs f = Some txt \<Longrightarrow> crash_free txt"
  shows "\<exists>w2. ProcessFile fs f v [] w = Inr (RestoreFilters_global w2) \<and>
    settings w2 = settings (configured fs f (prepared v w)) \<and> error_count (cpplint_state w) \<le> error_count (cpplint_state w2) \<and>
    failures_counted w w2"
proof -
  let ?w0 = "prepared v w" and ?w1 = "configured fs f (prepared v w)"
  have ok0: "filters_ok (cpplint_state ?w0)" using assms(2) by (simp add: filters_ok_def)
  have conf: "ProcessConfigOverrides fs f ?w0 = Inr (True, ?w1)" by (rule config_overrides(1)[OF ok0 assms(4,5)])
  have ok1: "filters_ok (cpplint_state ?w1)"
    using ok0 assms(5) by (fastforce simp: filters_ok_def configured_fields legal_values_def list_all_iff)
  have names: "names_return (fs_env fs) ?w1"
    using assms(1) names_return_repository[of ?w1 w] by (simp add: configured_keeps)
  show ?thesis
  proof (cases "fs_text fs f")
    case None
    then show ?thesis using assms(3)
      by (auto simp: ProcessFile_def Let_def prepared_def[symmetric] conf configured_keeps failures_counted_def)
  next
    case (Some t)
    obtain w2 where w2: "process_text fs f t [] ?w1 = Inr w2" "within_file ?w1 w2"
      using process_text_returns[OF names ok1 assms(6)[OF Some], of f] by (auto simp: returns_def)
    define w3 where "w3 = (if \<not> quiet (cpplint_state w2) \<or> error_count (cpplint_state w) \<noteq> error_count (cpplint_state w2)
      then PrintInfo (''Done processing '' @ f @ [newline_char]) w2 else w2)"
    have "ProcessFile fs f v [] w = Inr (RestoreFilters_global w3)"
      using assms(3) Some w2(1) by (simp add: ProcessFile_def Let_def prepared_def[symmetric] conf w3_def)
    moreover have "settings w3 = settings ?w1" "cpplint_state w3 = cpplint_state w2"
      using w2(2) by (simp_all add: w3_def within_file_def PrintInfo_def)
    ultimately show ?thesis using w2(2) by (auto simp: within_file_def configured_keeps failures_counted_def)
  qed
qed

lemma ex_fs_crash_free: "fs_text ex_fs ''src/a.h'' = Some t \<Longrightarrow> crash_free t"
proof -
  assume "fs_text ex_fs ''src/a.h'' = Some t"
  then have t: "t = py_join [newline_char] ex_plain_lines" by (simp add: ex_fs_def)
  have "fst (split_lines (py_join [newline_char] ex_plain_lines)) = ex_plain_lines" by code_simp
  then show "crash_free t" using ex_plain_no_crash by (simp add: crash_free_def t)
qed

lemma ex_fs_legal: "legal_values (filter_values (map snd (settings_for ex_fs ''/w/p/src/a.h'')))"
  unfolding ex_fs_settings by code_simp


text \<open>Under Python 3 the name of the standard input raises once the configuration files have been read.\<close>

lemma ProcessFile_stdin_raises:
  "ProcessConfigOverrides fs ''-'' (prepared v w) = Inr (True, w1) \<Longrightarrow> ProcessFile fs ''-'' v extra w = Inl TypeError"
  by (simp add: ProcessFile_def Let_def prepared_def[symmetric])

end
