(* ===== verification/JUnit_Report.thy ===== *)
theory JUnit_Report
  imports Reporting "HOL-Library.Multiset"
begin

text \<open>
  The report in JUnit's format: \<open>FormatJUnitXML\<close> builds a tree of elements and writes it with
  \<open>xml.etree.ElementTree.tostring\<close>; the tree and the part of the writer that it needs are modelled here.
\<close>

section \<open>Elements and their text\<close>

datatype xml = Element (xml_tag: string) (xml_attrib: "(string \<times> string) list") (xml_text: string) (xml_children: "xml list")

definition escape_cdata :: "string \<Rightarrow> string" where
  "escape_cdata t = py_replace (py_replace (py_replace t ''&'' ''&amp;'') ''<'' ''&lt;'') ''>'' ''&gt;''"

definition escape_attrib :: "string \<Rightarrow> string" where
  "escape_attrib t =
     py_replace (py_replace (py_replace (py_replace (escape_cdata t) [CHR 0x22] ''&quot;'') [CHR 0x0D] ''&#13;'')
       [newline_char] ''&#10;'') [CHR 0x09] ''&#09;''"

fun write_xml :: "xml \<Rightarrow> string" where
  "write_xml (Element tag attrib t children) =
     ''<'' @ tag
     @ concat (map (\<lambda>(k, v). '' '' @ k @ ''='' @ [CHR 0x22] @ escape_attrib v @ [CHR 0x22]) attrib)
     @ (if t \<noteq> [] \<or> children \<noteq> []
        then ''>'' @ escape_cdata t @ concat (map write_xml children) @ ''</'' @ tag @ ''>''
        else '' />'')"

section \<open>The report\<close>

type_synonym failure = "string \<times> lineno \<times> string \<times> string \<times> int"

text \<open>
  The loop that groups the failures: \<open>failed_file_order\<close> lists the files with failures in the order of their first
  failure, \<open>failures_by_file\<close> maps each to its failures.  The key that is looked up is always there.
\<close>

record failure_groups =
  failed_file_order :: "string list"
  failures_by_file :: "(string \<times> failure list) list"

definition failures_of :: "failure_groups \<Rightarrow> string \<Rightarrow> failure list" where
  "failures_of groups file = (case map_of (failures_by_file groups) file of None \<Rightarrow> [] | Some fs \<Rightarrow> fs)"

definition add_failure :: "failure \<Rightarrow> failure_groups \<Rightarrow> failure_groups" where
  "add_failure failure groups =
     (let failed_file = fst failure;
          groups = (if failed_file \<notin> set (failed_file_order groups)
                    then groups\<lparr>failed_file_order := failed_file_order groups @ [failed_file],
                                failures_by_file := AList.update failed_file [] (failures_by_file groups)\<rparr>
                    else groups)
      in groups\<lparr>failures_by_file :=
           AList.update failed_file (failures_of groups failed_file @ [failure]) (failures_by_file groups)\<rparr>)"

definition group_failures :: "failure list \<Rightarrow> failure_groups" where
  "group_failures fs = fold add_failure fs \<lparr>failed_file_order = [], failures_by_file = []\<rparr>"

definition failure_text :: "failure \<Rightarrow> string" where
  "failure_text f =
     (case f of (file, linenum, message, category, confidence) \<Rightarrow>
        show_lineno linenum @ '': '' @ message @ '' ['' @ category @ ''] ['' @ show_int confidence @ '']'')"

definition error_cases :: "string list \<Rightarrow> xml list" where
  "error_cases errors =
     (if errors = [] then []
      else [Element ''testcase'' [(''name'', ''errors'')] []
              [Element ''error'' [] (py_join [newline_char] errors) []]])"

definition failure_cases :: "failure list \<Rightarrow> xml list" where
  "failure_cases failures =
     (let groups = group_failures failures
      in map (\<lambda>file. Element ''testcase'' [(''name'', file)] []
           [Element ''failure'' [] (py_join [newline_char] (map failure_text (failures_of groups file))) []])
           (failed_file_order groups))"

definition junit_tree :: "lint_state \<Rightarrow> xml" where
  "junit_tree st =
     (let num_errors = int (length (junit_errors st)); num_failures = int (length (junit_failures st));
          counts = [(''name'', ''cpplint''), (''errors'', show_int num_errors), (''failures'', show_int num_failures)]
      in if num_errors = 0 \<and> num_failures = 0
         then Element ''testsuite'' (counts @ [(''tests'', show_int 1)]) [] [Element ''testcase'' [(''name'', ''passed'')] [] []]
         else Element ''testsuite'' (counts @ [(''tests'', show_int (num_errors + num_failures))]) []
                (error_cases (junit_errors st) @ failure_cases (junit_failures st)))"

definition XML_DECL :: string where
  \<open>XML_DECL = ''<?xml version='' @ [CHR 0x22] @ ''1.0'' @ [CHR 0x22] @ '' encoding='' @ [CHR 0x22] @ ''UTF-8'' @ [CHR 0x22]
     @ '' ?>'' @ [newline_char]\<close>

definition FormatJUnitXML :: "lint_state \<Rightarrow> string" where
  "FormatJUnitXML st = XML_DECL @ write_xml (junit_tree st)"

section \<open>Every failure is reported once\<close>

text \<open>The files in the order of their first occurrence.\<close>

definition first_files :: "failure list \<Rightarrow> string list" where
  "first_files fs = rev (remdups (rev (map fst fs)))"

lemma first_files_snoc:
  "first_files (fs @ [f]) = (if fst f \<in> fst ` set fs then first_files fs else first_files fs @ [fst f])"
  by (simp add: first_files_def)

lemma group_failures_spec:
  "failed_file_order (group_failures fs) = first_files fs \<and>
   (\<forall>file. failures_of (group_failures fs) file = filter (\<lambda>f. fst f = file) fs)"
proof (induction fs rule: rev_induct)
  case Nil
  show ?case by (simp add: group_failures_def first_files_def failures_of_def)
next
  case (snoc f fs)
  have step: "group_failures (fs @ [f]) = add_failure f (group_failures fs)" by (simp add: group_failures_def)
  have order: "set (first_files fs) = fst ` set fs" by (simp add: first_files_def)
  have none: "fst f \<notin> fst ` set fs \<Longrightarrow> filter (\<lambda>g. fst g = fst f) fs = []" by (metis (mono_tags, lifting) filter_False image_eqI)
  from snoc show ?case
    by (auto simp: step add_failure_def Let_def failures_of_def first_files_snoc order none update_conv'
        split: if_splits option.splits)
qed

lemma sum_of_groups:
  "distinct files \<Longrightarrow> mset (concat (map (\<lambda>file. filter (\<lambda>f. fst f = file) fs) files)) = mset (filter (\<lambda>f. fst f \<in> set files) fs)"
proof (induction files)
  case (Cons x files)
  have "mset (filter (\<lambda>f. fst f = x) fs) + mset (filter (\<lambda>f. fst f \<in> set files) fs) =
      mset (filter (\<lambda>f. fst f \<in> set (x # files)) fs)"
    using Cons.prems by (induction fs) auto
  with Cons show ?case by simp
qed simp


end
