(* ===== verification/Command_Line.thy ===== *)
theory Command_Line
  imports Config_Files JUnit_Report
begin

text \<open>
  The command line: \<open>getopt\<close> for long options, \<open>ParseArguments\<close>, the expansion of directories, \<open>main\<close>, and
  the script \<open>check_lint.py\<close>.  Exits of the program are the exception \<open>SystemExit\<close> with the argument of \<open>sys.exit\<close>
  as text; what \<open>PrintUsage\<close>, \<open>PrintVersion\<close> and \<open>PrintCategories\<close> print before is not part of the model.
\<close>

section \<open>\<open>getopt.getopt(args, '', longopts)\<close>\<close>

text \<open>\<open>None\<close> stands for \<open>getopt.GetoptError\<close>.  There are no short options, so a single dash with a letter is an error.\<close>

definition long_has_args :: "string list \<Rightarrow> string \<Rightarrow> (bool \<times> string) option" where
  "long_has_args longopts opt =
     (let possibilities = filter (\<lambda>long. startswith long opt) longopts
      in if possibilities = [] then None
         else if opt \<in> set possibilities then Some (False, opt)
         else if opt @ ''='' \<in> set possibilities then Some (True, opt)
         else if length possibilities > 1 then None
         else
           (let unique_match = hd possibilities; has_arg = endswith unique_match ''=''
            in Some (has_arg, if has_arg then butlast unique_match else unique_match)))"

definition do_longs :: "string list \<Rightarrow> string \<Rightarrow> string list \<Rightarrow> ((string \<times> string) \<times> string list) option" where
  "do_longs longopts opt args =
     (let i = py_find opt ''='';
          (name, optarg) = (if i = -1 then (opt, None) else (py_upto opt i, Some (py_from opt (i + 1))))
      in case long_has_args longopts name of
           None \<Rightarrow> None
         | Some (has_arg, name) \<Rightarrow>
             if has_arg then
               (case optarg of
                  Some a \<Rightarrow> Some ((''--'' @ name, a), args)
                | None \<Rightarrow> (case args of [] \<Rightarrow> None | a # args \<Rightarrow> Some ((''--'' @ name, a), args)))
             else if optarg \<noteq> None then None
             else Some ((''--'' @ name, []), args))"

lemma do_longs_shorter: "do_longs longopts opt args = Some (ov, rest) \<Longrightarrow> length rest \<le> length args"
  by (auto simp: do_longs_def Let_def split: option.splits if_splits list.splits prod.splits)

function getopt :: "string list \<Rightarrow> string list \<Rightarrow> ((string \<times> string) list \<times> string list) option" where
  "getopt longopts [] = Some ([], [])"
| "getopt longopts (arg # args) =
     (if \<not> startswith arg ''-'' \<or> arg = ''-'' then Some ([], arg # args)
      else if arg = ''--'' then Some ([], args)
      else if startswith arg ''--'' then
        (case do_longs longopts (py_from arg 2) args of
           None \<Rightarrow> None
         | Some (ov, rest) \<Rightarrow> map_option (\<lambda>(opts, files). (ov # opts, files)) (getopt longopts rest))
      else None)"
  by pat_completeness auto
termination
  by (relation "measure (\<lambda>(longopts, args). length args)") (auto dest: do_longs_shorter simp: less_Suc_eq_le)

section \<open>Exits\<close>

definition PrintUsage :: "string option \<Rightarrow> 'a py" where
  "PrintUsage message =
     Inl (SystemExit (case message of None \<Rightarrow> ''0'' | Some m \<Rightarrow> [newline_char] @ ''FATAL ERROR: '' @ m))"

definition PrintVersion :: "'a py" where
  "PrintVersion = Inl (SystemExit ''0'')"

definition PrintCategories :: "'a py" where
  "PrintCategories = Inl (SystemExit ''0'')"

section \<open>\<open>ParseArguments\<close>\<close>

definition LONG_OPTIONS :: "string list" where
  "LONG_OPTIONS =
     [''help'', ''output='', ''verbose='', ''v='', ''version'', ''counting='', ''filter='', ''root='', ''repository='',
      ''linelength='', ''extensions='', ''exclude='', ''recursive'', ''headers='', ''quiet'']"

text \<open>The variables of \<open>ParseArguments\<close>.\<close>

record options =
  opt_verbosity :: int
  opt_output :: string
  opt_filters :: string
  opt_quiet :: bool
  opt_counting :: string
  opt_recursive :: bool

definition apply_option ::
  "file_system \<Rightarrow> string \<times> string \<Rightarrow> options \<times> world \<Rightarrow> (options \<times> world) py" where
  "apply_option fs = (\<lambda>(opt, val) (ops, w).
     if opt = ''--help'' then PrintUsage None
     else if opt = ''--version'' then PrintVersion
     else if opt = ''--output'' then
       (if val \<notin> set [''emacs'', ''vs7'', ''eclipse'', ''junit'']
        then PrintUsage (Some ''The only allowed output formats are emacs, vs7, eclipse and junit.'')
        else Inr (ops\<lparr>opt_output := val\<rparr>, w))
     else if opt = ''--quiet'' then Inr (ops\<lparr>opt_quiet := True\<rparr>, w)
     else if opt = ''--verbose'' \<or> opt = ''--v'' then
       (case py_int val of
          None \<Rightarrow> Inl (ValueError (''invalid literal for int() with base 10: '' @ [CHR 0x27] @ val @ [CHR 0x27]))
        | Some n \<Rightarrow> Inr (ops\<lparr>opt_verbosity := n\<rparr>, w))
     else if opt = ''--filter'' then (if val = [] then PrintCategories else Inr (ops\<lparr>opt_filters := val\<rparr>, w))
     else if opt = ''--counting'' then
       (if val \<notin> set [''total'', ''toplevel'', ''detailed'']
        then PrintUsage (Some ''Valid counting options are total, toplevel, and detailed'')
        else Inr (ops\<lparr>opt_counting := val\<rparr>, w))
     else if opt = ''--root'' then Inr (ops, w\<lparr>root_flag := Some val\<rparr>)
     else if opt = ''--repository'' then Inr (ops, w\<lparr>repository_flag := Some val\<rparr>)
     else if opt = ''--linelength'' then
       (case py_int val of
          None \<Rightarrow> PrintUsage (Some ''Line length must be digits.'')
        | Some n \<Rightarrow> Inr (ops, w\<lparr>line_length := n\<rparr>))
     else if opt = ''--exclude'' then Inr (ops, w\<lparr>excludes := set_union (excludes w) (remdups (fs_glob fs val))\<rparr>)
     else if opt = ''--extensions'' then Inr (ops, ProcessExtensionsOption val w)
     else if opt = ''--headers'' then Inr (ops, ProcessHppHeadersOption val w)
     else if opt = ''--recursive'' then Inr (ops\<lparr>opt_recursive := True\<rparr>, w)
     else Inr (ops, w))"

text \<open>The files below a directory, under the names that the linter gives them.\<close>

definition walked_name :: "string \<Rightarrow> string \<Rightarrow> string" where
  "walked_name dir f =
     (let fullname = path_join dir [f] in if startswith fullname ''./'' then py_from fullname 2 else fullname)"

definition expanded_files :: "file_system \<Rightarrow> string list \<Rightarrow> string list" where
  "expanded_files fs filenames =
     concat (map (\<lambda>f. if \<not> fs_isdir fs f then [f]
                      else concat (map (\<lambda>(dir, files). map (walked_name dir) files) (fs_walk fs f))) filenames)"

definition ExpandDirectories :: "file_system \<Rightarrow> string list \<Rightarrow> world \<Rightarrow> string list" where
  "ExpandDirectories fs filenames w =
     filter (\<lambda>f. py_from (snd (splitext f)) 1 \<in> set (GetAllExtensions w))
       (fs_set_order fs (remdups (expanded_files fs filenames)))"

definition FilterExcludedFiles :: "file_system \<Rightarrow> string list \<Rightarrow> world \<Rightarrow> string list" where
  "FilterExcludedFiles fs filenames w =
     (let exclude_paths = map (abspath (fs_env fs)) (excludes w)
      in filter (\<lambda>f. abspath (fs_env fs) f \<notin> set exclude_paths) filenames)"

definition ParseArguments :: "file_system \<Rightarrow> string list \<Rightarrow> world \<Rightarrow> (string list \<times> world) py" where
  "ParseArguments fs args w =
     (case getopt LONG_OPTIONS args of
        None \<Rightarrow> PrintUsage (Some ''Invalid arguments.'')
      | Some (opts, filenames) \<Rightarrow>
          py_bind
            (py_fold (apply_option fs) opts
               (\<lparr>opt_verbosity = VerboseLevel_global w, opt_output = OutputFormat_global w, opt_filters = [],
                 opt_quiet = Quiet_global w, opt_counting = [], opt_recursive = False\<rparr>, w)) (\<lambda>(ops, w).
            if filenames = [] then PrintUsage (Some ''No files were specified.'')
            else
              (let filenames = (if opt_recursive ops then ExpandDirectories fs filenames w else filenames);
                   filenames = (if excludes w \<noteq> [] then FilterExcludedFiles fs filenames w else filenames);
                   w = snd (SetVerboseLevel_global (opt_verbosity ops)
                         (snd (SetQuiet_global (opt_quiet ops) (SetOutputFormat_global (opt_output ops) w))))
               in py_bind (SetFilters_global (opt_filters ops) w) (\<lambda>w.
                    Inr (filenames, SetCountingStyle_global (opt_counting ops) w)))))"

section \<open>\<open>main\<close>\<close>

text \<open>The result is the argument of \<open>sys.exit\<close>: whether errors were counted.\<close>

definition process_files :: "file_system \<Rightarrow> string list \<Rightarrow> world \<Rightarrow> world py" where
  "process_files fs = py_fold (\<lambda>filename w. ProcessFile fs filename (verbose_level (cpplint_state w)) [] w)"

definition finish_run :: "world \<Rightarrow> world" where
  "finish_run w =
     (let w = (if \<not> quiet (cpplint_state w) \<or> error_count (cpplint_state w) > 0 then PrintErrorCounts w else w)
      in if output_format (cpplint_state w) = ''junit'' then w\<lparr>stderr := stderr w @ FormatJUnitXML (cpplint_state w)\<rparr> else w)"

definition main :: "file_system \<Rightarrow> string list \<Rightarrow> world \<Rightarrow> (bool \<times> world) py" where
  "main fs args w =
     py_bind (ParseArguments fs args w) (\<lambda>(filenames, w).
     py_bind (process_files fs filenames (on_state ResetErrorCounts w)) (\<lambda>w.
       Inr (error_count (cpplint_state w) > 0, finish_run w)))"

section \<open>\<open>check_lint.py\<close>\<close>

text \<open>The commands that the script runs for the files of the directory of sources; their exit status is ignored.\<close>

definition lint_commands :: "string list \<Rightarrow> string list" where
  "lint_commands files =
     map (\<lambda>filename. ''python cpplint.py ../src/'' @ filename)
       (filter (\<lambda>filename. endswith filename ''.h'' \<or> endswith filename ''.cc'') files)"

section \<open>Options are read as they are written\<close>

text \<open>
  An option in the command line: its name, its value if it takes one, and whether the value is joined to the name
  with an equals sign or given as the next argument.
\<close>

type_synonym written_option = "string \<times> string option \<times> bool"

fun option_args :: "written_option \<Rightarrow> string list" where
  "option_args (name, None, eq) = [''--'' @ name]"
| "option_args (name, Some val, True) = [''--'' @ name @ ''='' @ val]"
| "option_args (name, Some val, False) = [''--'' @ name, val]"

fun known_option :: "written_option \<Rightarrow> bool" where
  "known_option (name, None, eq) = (name \<in> set [''help'', ''version'', ''recursive'', ''quiet''])"
| "known_option (name, Some val, eq) = (name @ ''='' \<in> set LONG_OPTIONS)"

definition option_value :: "written_option \<Rightarrow> string \<times> string" where
  "option_value = (\<lambda>(name, val, eq). (''--'' @ name, case val of None \<Rightarrow> [] | Some v \<Rightarrow> v))"

lemma flag_names: "name \<in> set [''help'', ''version'', ''recursive'', ''quiet''] \<Longrightarrow>
  long_has_args LONG_OPTIONS name = Some (False, name) \<and> CHR ''='' \<notin> set name \<and> name \<noteq> []"
proof -
  have names: "list_all (\<lambda>name. long_has_args LONG_OPTIONS name = Some (False, name) \<and> CHR ''='' \<notin> set name \<and> name \<noteq> [])
    [''help'', ''version'', ''recursive'', ''quiet'']" by code_simp
  assume "name \<in> set [''help'', ''version'', ''recursive'', ''quiet'']"
  from bspec[OF names[unfolded list_all_iff] this] show ?thesis .
qed

lemma valued_names: "name @ ''='' \<in> set LONG_OPTIONS \<Longrightarrow>
  long_has_args LONG_OPTIONS name = Some (True, name) \<and> CHR ''='' \<notin> set name \<and> name \<noteq> []"
proof -
  assume name: "name @ ''='' \<in> set LONG_OPTIONS"
  have "list_all (\<lambda>long. endswith long ''='' \<longrightarrow>
      long_has_args LONG_OPTIONS (butlast long) = Some (True, butlast long) \<and> CHR ''='' \<notin> set (butlast long) \<and> butlast long \<noteq> []) LONG_OPTIONS"
    by code_simp
  with name show ?thesis by (auto simp: list_all_iff endswith_def)
qed

lemma find_equals: "CHR ''='' \<notin> set name \<Longrightarrow> py_find name ''='' = -1"
  "CHR ''='' \<notin> set name \<Longrightarrow> py_find (name @ CHR ''='' # val) ''='' = int (length name)"
  using py_find_neg[of name "''=''"] py_find_nonneg_iff[of name "''=''"] py_find_char[of "CHR ''=''" name val] by force+

lemma getopt_option:
  assumes "known_option op"
  shows "getopt LONG_OPTIONS (option_args op @ args) =
    map_option (\<lambda>(opts, files). (option_value op # opts, files)) (getopt LONG_OPTIONS args)"
proof (cases op rule: known_option.cases)
  case (1 name eq)
  then have "long_has_args LONG_OPTIONS name = Some (False, name)" "CHR ''='' \<notin> set name" "name \<noteq> []"
    using assms flag_names[of name] by auto
  then show ?thesis
    by (simp add: 1 option_value_def do_longs_def find_equals py_from_def py_clamp_def)
next
  case (2 name val eq)
  then have "long_has_args LONG_OPTIONS name = Some (True, name)" "CHR ''='' \<notin> set name" "name \<noteq> []"
    using assms valued_names[of name] by auto
  then show ?thesis
    by (cases eq) (simp_all add: 2 option_value_def do_longs_def find_equals py_from_def py_upto_def py_clamp_def nat_add_distrib)
qed

lemma getopt_options:
  "list_all known_option ops \<Longrightarrow>
   getopt LONG_OPTIONS (concat (map option_args ops) @ args) =
   map_option (\<lambda>(opts, files). (map option_value ops @ opts, files)) (getopt LONG_OPTIONS args)"
proof (induction ops)
  case Nil
  then show ?case by (cases "getopt LONG_OPTIONS args") auto
next
  case (Cons op ops)
  then show ?case by (simp add: getopt_option option.map_comp o_def case_prod_unfold)
qed

text \<open>
  Reading the command line gives back the options as they were written, each with its value, in order, and the
  names of the files, when the first of these does not look like an option.
\<close>

definition file_names :: "string list \<Rightarrow> bool" where
  "file_names files \<longleftrightarrow> (files = [] \<or> \<not> startswith (hd files) ''-'' \<or> hd files = ''-'')"

lemma getopt_round_trip:
  assumes "list_all known_option ops" and "file_names files"
  shows "getopt LONG_OPTIONS (concat (map option_args ops) @ files) = Some (map option_value ops, files)"
proof -
  have "getopt LONG_OPTIONS files = Some ([], files)" using assms(2) by (cases files) (auto simp: file_names_def)
  then show ?thesis using getopt_options[OF assms(1), of files] by simp
qed

text \<open>The values that are given for an option.\<close>

definition given :: "string list \<Rightarrow> (string \<times> string) list \<Rightarrow> string list" where
  "given names opts = map snd (filter (\<lambda>p. fst p \<in> set names) opts)"

definition numbers :: "string list \<Rightarrow> int list" where
  "numbers vals = map (\<lambda>v. the (py_int v)) vals"

lemma given_Cons: "given names ((opt, val) # opts) = (if opt \<in> set names then [val] else []) @ given names opts"
  by (simp add: given_def)

definition OPTION_NAMES :: "string list" where
  "OPTION_NAMES =
     [''--help'', ''--version'', ''--output'', ''--quiet'', ''--verbose'', ''--v'', ''--filter'', ''--counting'', ''--root'',
      ''--repository'', ''--linelength'', ''--exclude'', ''--extensions'', ''--headers'', ''--recursive'']"

lemma apply_option_other: "opt \<notin> set OPTION_NAMES \<Longrightarrow> apply_option fs (opt, val) (ops, w) = Inr (ops, w)"
  by (simp add: apply_option_def OPTION_NAMES_def)

lemma apply_option_eqs:
  "apply_option fs (''--help'', val) (ops, w) = PrintUsage None"
  "apply_option fs (''--version'', val) (ops, w) = PrintVersion"
  "apply_option fs (''--output'', val) (ops, w) =
     (if val \<notin> set [''emacs'', ''vs7'', ''eclipse'', ''junit'']
      then PrintUsage (Some ''The only allowed output formats are emacs, vs7, eclipse and junit.'')
      else Inr (ops\<lparr>opt_output := val\<rparr>, w))"
  "apply_option fs (''--quiet'', val) (ops, w) = Inr (ops\<lparr>opt_quiet := True\<rparr>, w)"
  "apply_option fs (''--verbose'', val) (ops, w) = apply_option fs (''--v'', val) (ops, w)"
  "apply_option fs (''--v'', val) (ops, w) =
     (case py_int val of
        None \<Rightarrow> Inl (ValueError (''invalid literal for int() with base 10: '' @ [CHR 0x27] @ val @ [CHR 0x27]))
      | Some n \<Rightarrow> Inr (ops\<lparr>opt_verbosity := n\<rparr>, w))"
  "apply_option fs (''--filter'', val) (ops, w) = (if val = [] then PrintCategories else Inr (ops\<lparr>opt_filters := val\<rparr>, w))"
  "apply_option fs (''--counting'', val) (ops, w) =
     (if val \<notin> set [''total'', ''toplevel'', ''detailed'']
      then PrintUsage (Some ''Valid counting options are total, toplevel, and detailed'')
      else Inr (ops\<lparr>opt_counting := val\<rparr>, w))"
  "apply_option fs (''--root'', val) (ops, w) = Inr (ops, w\<lparr>root_flag := Some val\<rparr>)"
  "apply_option fs (''--repository'', val) (ops, w) = Inr (ops, w\<lparr>repository_flag := Some val\<rparr>)"
  "apply_option fs (''--linelength'', val) (ops, w) =
     (case py_int val of None \<Rightarrow> PrintUsage (Some ''Line length must be digits.'') | Some n \<Rightarrow> Inr (ops, w\<lparr>line_length := n\<rparr>))"
  "apply_option fs (''--exclude'', val) (ops, w) = Inr (ops, w\<lparr>excludes := set_union (excludes w) (remdups (fs_glob fs val))\<rparr>)"
  "apply_option fs (''--extensions'', val) (ops, w) = Inr (ops, ProcessExtensionsOption val w)"
  "apply_option fs (''--headers'', val) (ops, w) = Inr (ops, ProcessHppHeadersOption val w)"
  "apply_option fs (''--recursive'', val) (ops, w) = Inr (ops\<lparr>opt_recursive := True\<rparr>, w)"
  by (simp_all add: apply_option_def)

definition option_effect :: "string \<Rightarrow> string \<Rightarrow> options \<Rightarrow> world \<Rightarrow> options \<Rightarrow> world \<Rightarrow> bool" where
  "option_effect opt val ops w ops' w' \<longleftrightarrow>
    opt_verbosity ops' = (if opt = ''--verbose'' \<or> opt = ''--v'' then the (py_int val) else opt_verbosity ops) \<and>
    opt_filters ops' = (if opt = ''--filter'' then val else opt_filters ops) \<and>
    opt_output ops' = (if opt = ''--output'' then val else opt_output ops) \<and>
    opt_recursive ops' = (opt_recursive ops \<or> opt = ''--recursive'') \<and>
    line_length w' = (if opt = ''--linelength'' then the (py_int val) else line_length w) \<and>
    cpplint_state w' = cpplint_state w"

lemma option_effects:
  "apply_option fs (''--help'', val) (ops, w) = Inr (ops', w') \<Longrightarrow> option_effect ''--help'' val ops w ops' w'"
  "apply_option fs (''--version'', val) (ops, w) = Inr (ops', w') \<Longrightarrow> option_effect ''--version'' val ops w ops' w'"
  "apply_option fs (''--output'', val) (ops, w) = Inr (ops', w') \<Longrightarrow> option_effect ''--output'' val ops w ops' w'"
  "apply_option fs (''--quiet'', val) (ops, w) = Inr (ops', w') \<Longrightarrow> option_effect ''--quiet'' val ops w ops' w'"
  "apply_option fs (''--verbose'', val) (ops, w) = Inr (ops', w') \<Longrightarrow> option_effect ''--verbose'' val ops w ops' w'"
  "apply_option fs (''--v'', val) (ops, w) = Inr (ops', w') \<Longrightarrow> option_effect ''--v'' val ops w ops' w'"
  "apply_option fs (''--filter'', val) (ops, w) = Inr (ops', w') \<Longrightarrow> option_effect ''--filter'' val ops w ops' w'"
  "apply_option fs (''--counting'', val) (ops, w) = Inr (ops', w') \<Longrightarrow> option_effect ''--counting'' val ops w ops' w'"
  "apply_option fs (''--root'', val) (ops, w) = Inr (ops', w') \<Longrightarrow> option_effect ''--root'' val ops w ops' w'"
  "apply_option fs (''--repository'', val) (ops, w) = Inr (ops', w') \<Longrightarrow> option_effect ''--repository'' val ops w ops' w'"
  "apply_option fs (''--linelength'', val) (ops, w) = Inr (ops', w') \<Longrightarrow> option_effect ''--linelength'' val ops w ops' w'"
  "apply_option fs (''--exclude'', val) (ops, w) = Inr (ops', w') \<Longrightarrow> option_effect ''--exclude'' val ops w ops' w'"
  "apply_option fs (''--extensions'', val) (ops, w) = Inr (ops', w') \<Longrightarrow> option_effect ''--extensions'' val ops w ops' w'"
  "apply_option fs (''--headers'', val) (ops, w) = Inr (ops', w') \<Longrightarrow> option_effect ''--headers'' val ops w ops' w'"
  "apply_option fs (''--recursive'', val) (ops, w) = Inr (ops', w') \<Longrightarrow> option_effect ''--recursive'' val ops w ops' w'"
  by (auto simp: apply_option_eqs option_effect_def PrintUsage_def PrintVersion_def PrintCategories_def
      ProcessExtensionsOption_def ProcessHppHeadersOption_def simp del: set_simps split: if_split_asm option.split_asm)

lemma apply_option_fields:
  assumes "apply_option fs (opt, val) (ops, w) = Inr (ops', w')"
  shows "option_effect opt val ops w ops' w'"
proof (cases "opt \<in> set OPTION_NAMES")
  case True
  from True have "opt = ''--help'' \<or> opt = ''--version'' \<or> opt = ''--output'' \<or> opt = ''--quiet'' \<or> opt = ''--verbose'' \<or>
      opt = ''--v'' \<or> opt = ''--filter'' \<or> opt = ''--counting'' \<or> opt = ''--root'' \<or> opt = ''--repository'' \<or>
      opt = ''--linelength'' \<or> opt = ''--exclude'' \<or> opt = ''--extensions'' \<or> opt = ''--headers'' \<or> opt = ''--recursive''"
    by (simp only: OPTION_NAMES_def list.set insert_iff empty_iff simp_thms)
  then show ?thesis
    using assms
    by (elim disjE; hypsubst; elim option_effects)
next
  case False
  then have "opt \<noteq> ''--recursive''" "opt \<noteq> ''--verbose''" "opt \<noteq> ''--v''" "opt \<noteq> ''--filter''" "opt \<noteq> ''--output''" "opt \<noteq> ''--linelength''"
    by (auto simp only: OPTION_NAMES_def list.set)
  with apply_option_other[OF False] assms show ?thesis by (simp add: option_effect_def)
qed

lemma apply_options_fields:
  "py_fold (apply_option fs) opts (ops, w) = Inr (ops', w') \<Longrightarrow>
   opt_verbosity ops' = last (opt_verbosity ops # numbers (given [''--verbose'', ''--v''] opts)) \<and>
   opt_filters ops' = last (opt_filters ops # given [''--filter''] opts) \<and>
   opt_output ops' = last (opt_output ops # given [''--output''] opts) \<and>
   opt_recursive ops' = (opt_recursive ops \<or> ''--recursive'' \<in> fst ` set opts) \<and>
   line_length w' = last (line_length w # numbers (given [''--linelength''] opts)) \<and>
   cpplint_state w' = cpplint_state w"
proof (induction opts arbitrary: ops w)
  case Nil
  then show ?case by (simp add: given_def numbers_def)
next
  case (Cons p opts)
  obtain opt val where p: "p = (opt, val)" by (cases p)
  obtain ops1 w1 where step: "apply_option fs (opt, val) (ops, w) = Inr (ops1, w1)"
    "py_fold (apply_option fs) opts (ops1, w1) = Inr (ops', w')"
    using Cons.prems by (auto simp: p py_bind_eq_Inr)
  show ?case using Cons.IH[OF step(2)] apply_option_fields[OF step(1)]
    by (auto simp: option_effect_def p given_Cons numbers_def)
qed

text \<open>C39: The last option wins.  A command line of options that the linter knows, with each value joined to its name by
  an equals sign or given as the next argument, followed by names of files, sets the verbosity, the line length, the
  output format and the filters to the values that were given last (the filters behind the default ones; earlier
  \<open>--filter\<close> options are dropped), and keeps what was in force where no value is given.  The files to check are those
  that are named, or with \<open>--recursive\<close> those below the named directories, without those whose absolute path is excluded.\<close>

theorem ParseArguments_last_option_wins:
  assumes "list_all known_option ops" and "file_names files"
    and "ParseArguments fs (concat (map option_args ops) @ files) w = Inr (files', w')"
  shows "verbose_level (cpplint_state w') =
      last (verbose_level (cpplint_state w) # numbers (given [''--verbose'', ''--v''] (map option_value ops))) \<and>
    line_length w' = last (line_length w # numbers (given [''--linelength''] (map option_value ops))) \<and>
    output_format (cpplint_state w') =
      last (output_format (cpplint_state w) # given [''--output''] (map option_value ops)) \<and>
    filters (cpplint_state w') =
      DEFAULT_FILTERS @ filter_pieces (last ([] # given [''--filter''] (map option_value ops))) \<and>
    files' = filter (\<lambda>f. abspath (fs_env fs) f \<notin> abspath (fs_env fs) ` set (excludes w'))
      (if ''--recursive'' \<in> fst ` set (map option_value ops) then ExpandDirectories fs files w' else files)"
proof -
  let ?opts = "map option_value ops"
  let ?ops0 = "\<lparr>opt_verbosity = VerboseLevel_global w, opt_output = OutputFormat_global w, opt_filters = [],
                 opt_quiet = Quiet_global w, opt_counting = [], opt_recursive = False\<rparr>"
  obtain o1 w1 where run: "py_fold (apply_option fs) (map option_value ops) (?ops0, w) = Inr (o1, w1)"
    using assms(3) by (auto simp: ParseArguments_def getopt_round_trip[OF assms(1,2)] py_bind_eq_Inr)
  note fields = apply_options_fields[OF run]
  let ?w2 = "snd (SetVerboseLevel_global (opt_verbosity o1) (snd (SetQuiet_global (opt_quiet o1) (SetOutputFormat_global (opt_output o1) w1))))"
  obtain w3 where w3: "SetFilters_global (opt_filters o1) ?w2 = Inr w3" "w' = SetCountingStyle_global (opt_counting o1) w3"
    and chosen: "files' = (let fs1 = (if opt_recursive o1 then ExpandDirectories fs files w1 else files)
      in if excludes w1 \<noteq> [] then FilterExcludedFiles fs fs1 w1 else fs1)"
    using assms(3) run by (auto simp: ParseArguments_def getopt_round_trip[OF assms(1,2)] py_bind_eq_Inr Let_def PrintUsage_def
        split: if_splits)
  then obtain st where st: "SetFilters (opt_filters o1) (cpplint_state ?w2) = Inr st" "w3 = ?w2\<lparr>cpplint_state := st\<rparr>"
    by (auto simp: SetFilters_global_def py_bind_eq_Inr)
  have "st = (cpplint_state ?w2)\<lparr>filters := DEFAULT_FILTERS @ filter_pieces (opt_filters o1)\<rparr>"
    using AddFilters_appends[OF st(1)[unfolded SetFilters_def]] by (simp add: filter_pieces_def)
  then have w': "w' = ?w2\<lparr>cpplint_state := (cpplint_state ?w2)
      \<lparr>filters := DEFAULT_FILTERS @ filter_pieces (opt_filters o1), counting := opt_counting o1\<rparr>\<rparr>"
    using w3(2) st(2) by (simp add: SetCountingStyle_global_def SetCountingStyle_def on_state_def)
  then have same: "excludes w' = excludes w1" "ExpandDirectories fs files w' = ExpandDirectories fs files w1"
    by (simp_all add: SetVerboseLevel_global_def SetVerboseLevel_def SetQuiet_global_def SetQuiet_def SetOutputFormat_global_def
        SetOutputFormat_def on_state_def Let_def ExpandDirectories_def GetAllExtensions_def GetHeaderExtensions_def)
  have "files' = filter (\<lambda>f. abspath (fs_env fs) f \<notin> abspath (fs_env fs) ` set (excludes w'))
      (if ''--recursive'' \<in> fst ` set ?opts then ExpandDirectories fs files w' else files)"
    using chosen fields by (cases "excludes w1") (simp_all add: same FilterExcludedFiles_def Let_def)
  then show ?thesis using fields w'
    by (simp add: SetCountingStyle_global_def SetCountingStyle_def on_state_def SetVerboseLevel_global_def SetVerboseLevel_def
        SetQuiet_global_def SetQuiet_def SetOutputFormat_global_def SetOutputFormat_def Let_def VerboseLevel_global_def OutputFormat_global_def)
qed

theorem ParseArguments_last_option_wins_witness:
  "\<exists>files w'. ParseArguments ex_fs [''--filter=-build'', ''--linelength'', ''120'', ''--linelength=90'', ''--filter=-legal'', ''src/a.h''] initial_world
      = Inr (files, w') \<and> line_length w' = 90 \<and> filters (cpplint_state w') = DEFAULT_FILTERS @ [''-legal'']"
proof -
  let ?ops = "[(''filter'', Some ''-build'', True), (''linelength'', Some ''120'', False), (''linelength'', Some ''90'', True),
    (''filter'', Some ''-legal'', True)]"
  let ?args = "concat (map option_args ?ops) @ [''src/a.h'']"
  have known: "list_all known_option ?ops" "file_names [''src/a.h'']" by code_simp+
  have "case ParseArguments ex_fs ?args initial_world of Inl e \<Rightarrow> False | Inr r \<Rightarrow> True" by code_simp
  then obtain files w' where r: "ParseArguments ex_fs ?args initial_world = Inr (files, w')" by (auto split: sum.splits)
  have vals: "numbers (given [''--linelength''] (map option_value ?ops)) = [120, 90]"
    "DEFAULT_FILTERS @ filter_pieces (last ([] # given [''--filter''] (map option_value ?ops))) = DEFAULT_FILTERS @ [''-legal'']"
    by code_simp+
  have "line_length w' = 90 \<and> filters (cpplint_state w') = DEFAULT_FILTERS @ [''-legal'']"
    using ParseArguments_last_option_wins[OF known r] unfolding vals by simp
  with r show ?thesis by auto
qed


section \<open>A run returns\<close>

text \<open>A file that the linter can process: not the standard input, legal configuration, no line on which a check crashes.\<close>

definition processable :: "file_system \<Rightarrow> string \<Rightarrow> bool" where
  "processable fs f \<longleftrightarrow> f \<noteq> ''-'' \<and> included fs (abspath (fs_env fs) f) \<and>
     legal_values (filter_values (map snd (settings_for fs (abspath (fs_env fs) f)))) \<and>
     (\<forall>t. fs_text fs f = Some t \<longrightarrow> crash_free t)"

text \<open>What holds between two files of a run.\<close>

definition between_files :: "file_system \<Rightarrow> world \<Rightarrow> world \<Rightarrow> bool" where
  "between_files fs w w' \<longleftrightarrow> names_return (fs_env fs) w' \<and>
     filters (cpplint_state w') = filters (cpplint_state w) \<and> verbose_level (cpplint_state w') = verbose_level (cpplint_state w) \<and>
     error_count (cpplint_state w) \<le> error_count (cpplint_state w') \<and>
     output_format (cpplint_state w') = output_format (cpplint_state w) \<and> failures_counted w w'"

lemma process_files_returns:
  assumes "names_return (fs_env fs) w" and "filters_ok (cpplint_state w)" and "\<forall>f \<in> set files. processable fs f"
  shows "returns (between_files fs w) (process_files fs files w)"
  unfolding process_files_def
proof (rule returns_fold)
  fix f w'
  assume f: "f \<in> set files" and w': "between_files fs w w'"
  then have ok: "filters_ok (cpplint_state w')" using assms(2) by (simp add: between_files_def filters_ok_def)
  have names: "names_return (fs_env fs) w'" using w' by (simp add: between_files_def)
  let ?v = "verbose_level (cpplint_state w')"
  obtain w2 where w2: "ProcessFile fs f ?v [] w' = Inr (RestoreFilters_global w2)"
    "settings w2 = settings (configured fs f (prepared ?v w'))" "error_count (cpplint_state w') \<le> error_count (cpplint_state w2)"
    "failures_counted w' w2"
    using ProcessFile_returns[OF names ok, of f ?v] f assms(3) by (auto simp: processable_def)
  have "repository_flag (RestoreFilters_global w2) = repository_flag w'"
    using settings_fields[OF w2(2)] by (simp add: configured_keeps)
  then have "names_return (fs_env fs) (RestoreFilters_global w2)" using names names_return_repository by blast
  moreover have "filters_backup (cpplint_state w2) = filters (cpplint_state w')" "verbose_level (cpplint_state w2) = ?v"
    using settings_fields[OF w2(2)] by (simp_all add: configured_keeps)
  moreover have format: "output_format (cpplint_state w2) = output_format (cpplint_state w')"
    using settings_output_format[OF w2(2)] by (simp add: configured_keeps)
  moreover have "failures_counted w w2"
    using w' w2(4) failures_counted_trans[of w w' w2] by (simp add: between_files_def)
  ultimately show "returns (between_files fs w) (ProcessFile fs f ?v [] w')"
    using w' w2(1,3) by (simp add: between_files_def failures_counted_def)
qed (use assms(1) in \<open>simp add: between_files_def failures_counted_def\<close>)

lemma ParseArguments_filters_ok: "ParseArguments fs args w = Inr (files, w1) \<Longrightarrow> filters_ok (cpplint_state w1)"
  by (auto simp: ParseArguments_def PrintUsage_def py_bind_eq_Inr Let_def SetFilters_global_def SetCountingStyle_global_def
      SetCountingStyle_def filters_ok_def dest!: SetFilters_ok split: option.splits if_splits)

lemma PrintInfo_state: "cpplint_state (PrintInfo m w) = cpplint_state w"
  by (simp add: PrintInfo_def)

lemma foldl_keeps: "(\<And>w x. h (f w x) = h w) \<Longrightarrow> h (foldl f w xs) = h w"
  by (induction xs arbitrary: w) simp_all

lemma finish_run_state [simp]: "cpplint_state (finish_run w) = cpplint_state w"
proof -
  have "cpplint_state (PrintErrorCounts w) = cpplint_state w" for w
    by (simp add: PrintErrorCounts_def Let_def PrintInfo_state foldl_keeps case_prod_unfold)
  then show ?thesis by (simp add: finish_run_def Let_def)
qed



end
