(* ===== verification/Spec2Isabelle.thy ===== *)
theory Spec2Isabelle
  imports Reporting Cleansing Brackets Handlers Paths Includes Function_Length File_Checks Nesting Line_Checks Spacing Style Language
    Include_Use File_Processing Config_Files JUnit_Report Command_Line
begin

text \<open>
  A verification of the Python code of GhostDB: \<open>src/build_support/cpplint.py\<close>, the linter that the build runs over
  the C++ sources, and \<open>src/build_support/check_lint.py\<close>, the script that starts it for every file.

  \<^bold>\<open>The program.\<close>  A run (\<open>main\<close>) parses the command line, and for each file applies the \<open>CPPLINT.cfg\<close> files of the
  directories above it, reads the file, and lints it: comments, raw strings and literals are cleansed, which gives
  four views of the same lines; then every line passes through the tracker of open blocks and about forty checks,
  and some checks look at the whole file.  A check reports through the callback \<open>error\<close>; the callback of a run,
  \<open>Error\<close>, applies NOLINT comments, the verbosity and the filters, counts the error, and prints it.

  \<^bold>\<open>How it is modelled.\<close>  Strings are lists of characters below code point 256, integers are \<open>int\<close> (Python's are
  unbounded), and a computation that may raise has type \<open>'a py = py_exn + 'a\<close>.  The module-level variables and
  \<open>_cpplint_state\<close> form a record \<open>world\<close>, together with what has been written to the two output streams.  State is
  passed explicitly: a check takes the callback first and works on whatever state the callback works on, so the same
  definition runs with \<open>Error\<close> on a \<open>world\<close> and with \<open>record_error\<close> on a log.  Checks that read the settings take
  them as a \<open>world\<close> argument \<open>g\<close>; that they do not change while a file is processed is proved
  (\<open>settings\<close>, \<open>file_processing\<close>).  An object that Python mutates is a record that the operation returns
  updated; where identity matters (the blocks of \<open>NestingState\<close>, copied by \<open>deepcopy\<close>) it carries a number.

  \<^bold>\<open>Theories and code.\<close>

    \<^item> \<open>Prelude\<close>: Python's exceptions, \<open>str\<close>, \<open>list\<close>, \<open>range\<close>.
    \<^item> \<open>Regex_Engine\<close>, \<open>Regex_Syntax\<close>, \<open>Regex\<close>, \<open>Regex_Groups\<close>: the part of \<open>re\<close> that the linter uses (a backtracking
      matcher, the parser of patterns, search, substitution), \<open>Match\<close>, \<open>Search\<close>, \<open>ReplaceAll\<close> with their cache, and the
      laws that later proofs apply to compiled patterns.
    \<^item> \<open>Tables\<close>, \<open>Lint_State\<close>, \<open>Reporting\<close>: categories and headers; \<open>_CppLintState\<close> with its filters and counts; the
      extensions, NOLINT comments, \<open>_ShouldPrintError\<close> and \<open>Error\<close>.
    \<^item> \<open>Cleansing\<close>: \<open>CleanseRawStrings\<close>, \<open>RemoveMultiLineComments\<close>, \<open>CleanseComments\<close>, \<open>CleansedLines\<close>.
    \<^item> \<open>Brackets\<close>: \<open>CloseExpression\<close>, \<open>ReverseCloseExpression\<close> and the scans below them.
    \<^item> \<open>Handlers\<close>: the contract between checks and callback as the locale \<open>error_handler\<close>, with interpretations for
      \<open>Error\<close> and \<open>record_error\<close>; \<open>File_Checks\<close> and \<open>File_Processing\<close> extend it (\<open>world_handler\<close>,
      \<open>file_handler\<close>).
    \<^item> \<open>Paths\<close>, \<open>Includes\<close>, \<open>Function_Length\<close>, \<open>File_Checks\<close>: \<open>FileInfo\<close>; \<open>_IncludeState\<close>, \<open>_ClassifyInclude\<close>,
      \<open>CheckIncludeLine\<close>; \<open>_FunctionState\<close>; copyright, header guard, own header, characters, final newline.
    \<^item> \<open>Nesting\<close>: \<open>_BlockInfo\<close> and its subclasses, \<open>_PreprocessorInfo\<close>, \<open>NestingState\<close>.
    \<^item> \<open>Line_Checks\<close>, \<open>Spacing\<close>, \<open>Style\<close>, \<open>Language\<close>, \<open>Include_Use\<close>: the checks of a line, in the order of the file, and
      include-what-you-use.
    \<^item> \<open>File_Processing\<close>: \<open>ProcessLine\<close>, \<open>ProcessFileData\<close>.
    \<^item> \<open>Config_Files\<close>: \<open>ProcessConfigOverrides\<close>, \<open>ProcessFile\<close>.
    \<^item> \<open>JUnit_Report\<close>, \<open>Command_Line\<close>: \<open>FormatJUnitXML\<close>; \<open>ParseArguments\<close>, \<open>_ExpandDirectories\<close>,
      \<open>_FilterExcludedFiles\<close>, \<open>main\<close>, \<open>check_lint.py\<close>.

  Definitions have the name of the function they model, without a leading underscore; \<open>_global\<close> marks the
  module-level wrappers.  A regular expression is written \<open>rx ''...''\<close> with a backquote for each backslash.

  \<^bold>\<open>What is proved.\<close>  Functional correctness against independent specifications: the passes over comments are a
  two-state automaton, the bracket searches find the partner in the well-bracketed text, \<open>Update\<close> refines a machine
  that pushes and pops at braces, the order of includes is a regular language, the climb through configuration files is
  a flat list of settings, the suggested \<open>CHECK\<close> macros assert the same.  Safety and errors: which lines
  make the linter raise, exactly.  Liveness: a file, and a run, on which no check reads behind an end comes to its end;
  the composition of all checks is proved to return from the returns-lemmas of each, inside the locales.  Invariants:
  the block stack, the include state, the filters.

  \<^bold>\<open>Bounds and termination.\<close>  No definition takes fuel.  Loops are total functions with a measure (the rest of the line,
  the lines that are left, the length of a path); the one loop that may run for ever, the climb to the top of a
  Subversion checkout, is a \<open>partial_function (option)\<close>, and \<open>RepositoryName\<close> gives \<open>Diverges\<close> where it does
  not return.

  \<^bold>\<open>Parameters.\<close>  What the linter asks of the operating system is an argument: \<open>os_env\<close> (which paths exist, the current
  directory), \<open>file_system\<close> (configuration files, texts, headers, directories, the order in which a set is iterated) and
  the matching of patterns that users write in configuration files.  Nothing is assumed about them except,
  where stated, that repository names exist (\<open>names_return\<close>, which holds when the root directory has no \<open>.svn\<close> entry).

  \<^bold>\<open>Not modelled.\<close>  The usage and version texts; characters from code point 256 on (so the width of a line is its length);
  decoding, and the replacement of characters on the error stream; Python 2; an input error in the middle of a
  configuration file (it fails when it is opened).  The C++ storage engine itself is not Python and is left aside.
\<close>

end
